(* ===== verification/Prelude.thy ===== *)
theory Prelude
  imports Main "HOL-Library.Word"
begin

text \<open>
  Shared vocabulary of the development: the machine integers and byte strings of the Rust
  sources, \<open>Result\<close> and the \<open>?\<close> operator as a sum type, state with errors for methods that
  take \<open>&mut self\<close>, big-endian integer conversion, the parts of the standard library the
  sources use (UTF-8 validation, \<open>str::split\<close>, slice \<open>chunks\<close>, decimal and hexadecimal
  formatting, checked arithmetic), and the interfaces components build on: the self-delimiting
  codec with its item loops, the frame of a method, and the budget that grants a bounded number of
  retries.
\<close>

unbundle bit_operations_syntax

section \<open>Machine integers and byte strings\<close>

type_synonym u8 = "8 word"
type_synonym u16 = "16 word"
type_synonym u32 = "32 word"
type_synonym u64 = "64 word"
type_synonym bytes = "u8 list"

text \<open>
  Rust strings are kept as their UTF-8 bytes; \<open>str ''abc''\<close> is the byte string of an ASCII
  literal.
\<close>

abbreviation str :: "string \<Rightarrow> bytes" where
  "str s \<equiv> map of_char s"

named_theorems result_simps \<open>elimination rules for successful results, as equations\<close>
named_theorems wire_defs \<open>definitions of fixed wire layouts\<close>

section \<open>Results\<close>

abbreviation Ok :: "'a \<Rightarrow> 'e + 'a" where
  "Ok \<equiv> Inr"

abbreviation Err :: "'e \<Rightarrow> 'e + 'a" where
  "Err \<equiv> Inl"

text \<open>The \<open>?\<close> operator: continue with the value, or return the error.\<close>

definition and_then :: "'e + 'a \<Rightarrow> ('a \<Rightarrow> 'e + 'b) \<Rightarrow> 'e + 'b" where
  "and_then r f = (case r of Inl e \<Rightarrow> Inl e | Inr v \<Rightarrow> f v)"

definition ok_or :: "'a option \<Rightarrow> 'e \<Rightarrow> 'e + 'a" where
  "ok_or x e = (case x of None \<Rightarrow> Err e | Some v \<Rightarrow> Ok v)"

definition map_err :: "('e \<Rightarrow> 'f) \<Rightarrow> 'e + 'a \<Rightarrow> 'f + 'a" where
  "map_err f r = (case r of Inl e \<Rightarrow> Inl (f e) | Inr v \<Rightarrow> Inr v)"

text \<open>\<open>Option::map(f).transpose()\<close>: apply a fallible function under an option.\<close>

definition map_transpose :: "('a \<Rightarrow> 'e + 'b) \<Rightarrow> 'a option \<Rightarrow> 'e + 'b option" where
  "map_transpose f x =
     (case x of None \<Rightarrow> Ok None | Some v \<Rightarrow> and_then (f v) (\<lambda>w. Ok (Some w)))"

text \<open>Collecting an iterator of results: the first error wins.\<close>

fun map_result :: "('a \<Rightarrow> 'e + 'b) \<Rightarrow> 'a list \<Rightarrow> 'e + 'b list" where
  "map_result f [] = Ok []"
| "map_result f (x # xs) =
     and_then (f x) (\<lambda>y. and_then (map_result f xs) (\<lambda>ys. Ok (y # ys)))"

definition is_ok :: "'e + 'a \<Rightarrow> bool" where
  "is_ok r = (case r of Inl _ \<Rightarrow> False | Inr _ \<Rightarrow> True)"

lemma and_then_simps [simp]:
  "and_then (Inr v) f = f v"
  "and_then (Inl e) f = Inl e"
  by (simp_all add: and_then_def)

lemma and_then_cong [fundef_cong]:
  "r = r' \<Longrightarrow> (\<And>v. r' = Inr v \<Longrightarrow> f v = f' v) \<Longrightarrow> and_then r f = and_then r' f'"
  by (auto simp: and_then_def split: sum.split)

lemma and_then_eq_Ok [result_simps]:
  "and_then r f = Inr v \<longleftrightarrow> (\<exists>x. r = Inr x \<and> f x = Inr v)"
  by (auto simp: and_then_def split: sum.split)

lemma and_then_eq_Err [result_simps]:
  "and_then r f = Inl e \<longleftrightarrow> r = Inl e \<or> (\<exists>x. r = Inr x \<and> f x = Inl e)"
  by (auto simp: and_then_def split: sum.split)

lemma ok_or_simps [simp]:
  "ok_or (Some v) e = Inr v"
  "ok_or None e = Inl e"
  by (simp_all add: ok_or_def)

lemma ok_or_eq_Ok [result_simps]: "ok_or x e = Inr v \<longleftrightarrow> x = Some v"
  by (auto simp: ok_or_def split: option.split)

lemma map_err_simps [simp]:
  "map_err f (Inr v) = Inr v"
  "map_err f (Inl e) = Inl (f e)"
  by (simp_all add: map_err_def)

lemma map_err_eq_Ok [result_simps]: "map_err f r = Inr v \<longleftrightarrow> r = Inr v"
  by (auto simp: map_err_def split: sum.split)

lemma map_transpose_simps [simp]:
  "map_transpose f None = Inr None"
  "map_transpose f (Some v) = and_then (f v) (\<lambda>w. Inr (Some w))"
  by (simp_all add: map_transpose_def)

lemma map_result_Ok_length: "map_result f xs = Inr ys \<Longrightarrow> length ys = length xs"
  by (induction xs arbitrary: ys) (auto simp: result_simps)

lemma map_result_pure: "(\<And>x. x \<in> set xs \<Longrightarrow> f x = Inr (g x)) \<Longrightarrow> map_result f xs = Inr (map g xs)"
  by (induction xs) auto

lemma is_ok_iff [simp]: "is_ok (Inr v)" "\<not> is_ok (Inl e)"
  by (simp_all add: is_ok_def)

lemma is_ok_ex: "is_ok r \<longleftrightarrow> (\<exists>v. r = Inr v)"
  by (cases r) auto

section \<open>State with errors\<close>

text \<open>
  A method on \<open>&mut self\<close> that returns a \<open>Result\<close> keeps the changes it made before an early
  return, so the state is returned beside the result, not inside it.
\<close>

type_synonym ('s, 'e, 'a) action = "'s \<Rightarrow> 's \<times> ('e + 'a)"

definition st_ok :: "'a \<Rightarrow> ('s, 'e, 'a) action" where
  "st_ok v s = (s, Ok v)"

definition st_err :: "'e \<Rightarrow> ('s, 'e, 'a) action" where
  "st_err e s = (s, Err e)"

definition st_lift :: "'e + 'a \<Rightarrow> ('s, 'e, 'a) action" where
  "st_lift r s = (s, r)"

definition st_then :: "('s, 'e, 'a) action \<Rightarrow> ('a \<Rightarrow> ('s, 'e, 'b) action) \<Rightarrow> ('s, 'e, 'b) action" where
  "st_then m f s = (case m s of (s', Inl e) \<Rightarrow> (s', Inl e) | (s', Inr v) \<Rightarrow> f v s')"

definition st_get :: "('s \<Rightarrow> 'a) \<Rightarrow> ('s, 'e, 'a) action" where
  "st_get f s = (s, Ok (f s))"

definition st_try :: "('s \<Rightarrow> 'e + 'a) \<Rightarrow> ('s, 'e, 'a) action" where
  "st_try f s = (s, f s)"

definition st_modify :: "('s \<Rightarrow> 's) \<Rightarrow> ('s, 'e, unit) action" where
  "st_modify f s = (f s, Ok ())"

lemma st_then_cong [fundef_cong]:
  "m s = m' s' \<Longrightarrow> (\<And>v t. m' s' = (t, Inr v) \<Longrightarrow> f v t = f' v t) \<Longrightarrow> st_then m f s = st_then m' f' s'"
  by (auto simp: st_then_def split: prod.split sum.split)

lemma st_simps [simp]:
  "st_then (st_ok v) f = f v"
  "st_then (st_err e) f = st_err e"
  "st_then (st_lift (Inr v)) f = f v"
  "st_then (st_lift (Inl e)) f = st_err e"
  by (auto simp: st_then_def st_ok_def st_err_def st_lift_def)

section \<open>Big-endian integers\<close>

text \<open>\<open>to_be n w\<close> is the low \<open>n\<close> bytes of \<open>w\<close>, most significant first (\<open>to_be_bytes\<close>); \<open>from_be\<close>
  is \<open>from_be_bytes\<close>.\<close>

fun to_be :: "nat \<Rightarrow> 'a::len word \<Rightarrow> bytes" where
  "to_be 0 w = []"
| "to_be (Suc n) w = ucast (drop_bit (8 * n) w) # to_be n w"

definition from_be :: "bytes \<Rightarrow> 'a::len word" where
  "from_be bs = foldl (\<lambda>acc b. push_bit 8 acc OR ucast b) 0 bs"

lemma from_be_Nil [simp]: "from_be [] = 0"
  by (simp add: from_be_def)

lemma from_be_snoc: "(from_be (bs @ [b]) :: 'a::len word) = push_bit 8 (from_be bs) OR ucast b"
  by (simp add: from_be_def)

lemma bit_from_be:
  "bit (from_be bs :: 'a::len word) n \<longleftrightarrow>
     n < LENGTH('a) \<and> n < 8 * length bs \<and> bit (rev bs ! (n div 8)) (n mod 8)"
proof (induction bs arbitrary: n rule: rev_induct)
  case Nil
  then show ?case by simp
next
  case (snoc b bs)
  show ?case
  proof (cases "n < 8")
    case True
    then show ?thesis
      by (auto simp: from_be_snoc bit_or_iff bit_push_bit_iff bit_ucast_iff)
  next
    case False
    then have "n div 8 = Suc ((n - 8) div 8)" "n mod 8 = (n - 8) mod 8"
      "n < 8 + 8 * length bs \<longleftrightarrow> n - 8 < 8 * length bs"
      by (auto simp: le_div_geq le_mod_geq)
    moreover have "\<not> bit b n"
      using False bit_imp_le_length [of b n] by auto
    ultimately show ?thesis
      using False by (auto simp: from_be_snoc bit_or_iff bit_push_bit_iff bit_ucast_iff snoc)
  qed
qed

lemma length_to_be [simp]: "length (to_be n w) = n"
  by (induction n) auto

lemma nth_rev_to_be: "i < n \<Longrightarrow> rev (to_be n w) ! i = ucast (drop_bit (8 * i) w)"
  by (induction n) (auto simp: nth_append less_Suc_eq)

lemma from_be_to_be: "(from_be (to_be n w) :: 'a::len word) = take_bit (8 * n) w"
  by (rule bit_word_eqI)
    (auto simp: bit_from_be bit_take_bit_iff nth_rev_to_be bit_ucast_iff bit_drop_bit_eq)

lemma from_be_to_be_id [simp]:
  "LENGTH('a) \<le> 8 * n \<Longrightarrow> from_be (to_be n (w :: 'a::len word)) = w"
  by (simp add: from_be_to_be take_bit_word_eq_self)

lemma to_be_from_be [simp]:
  assumes "length bs = n" "8 * n \<le> LENGTH('a)"
  shows "to_be n (from_be bs :: 'a::len word) = bs"
proof (rule rev_is_rev_conv [THEN iffD1], rule nth_equalityI)
  fix i
  assume "i < length (rev (to_be n (from_be bs :: 'a word)))"
  then have "i < n" by simp
  then show "rev (to_be n (from_be bs :: 'a word)) ! i = rev bs ! i"
    using assms
    by (intro bit_word_eqI)
      (auto simp: bit_from_be bit_take_bit_iff nth_rev_to_be bit_ucast_iff bit_drop_bit_eq)
qed (use assms in simp)

lemma to_be_inj:
  "LENGTH('a) \<le> 8 * n \<Longrightarrow> to_be n (v :: 'a::len word) = to_be n w \<longleftrightarrow> v = w"
  by (metis from_be_to_be_id)

lemma to_be_unfold:
  "to_be 1 w = [ucast w]"
  "to_be 2 w = [ucast (drop_bit 8 w), ucast w]"
  "to_be 3 w = [ucast (drop_bit 16 w), ucast (drop_bit 8 w), ucast w]"
  "to_be 4 w = [ucast (drop_bit 24 w), ucast (drop_bit 16 w), ucast (drop_bit 8 w), ucast w]"
  by (simp_all add: numeral_eq_Suc)

lemma to_be_6: "to_be 6 w = [ucast (drop_bit 40 w), ucast (drop_bit 32 w), ucast (drop_bit 24 w),
    ucast (drop_bit 16 w), ucast (drop_bit 8 w), ucast w]"
  by (simp add: numeral_eq_Suc)

lemma to_be_2_not_Nil [simp]: "to_be 2 w \<noteq> []"
  by (simp add: to_be_unfold)

lemma to_be_2_split: "\<exists>a b. to_be 2 w = [a, b]"
  by (simp add: to_be_unfold)

lemma from_be_pair [simp]:
  "from_be [ucast (drop_bit 8 (w :: u16)), ucast w] = w"
  using from_be_to_be_id [of 2 w] by (simp add: to_be_unfold)

lemma from_be_6 [simp]:
  "take_bit 48 w = (w :: u64) \<Longrightarrow>
     from_be [ucast (drop_bit 40 w), ucast (drop_bit 32 w), ucast (drop_bit 24 w),
       ucast (drop_bit 16 w), ucast (drop_bit 8 w), ucast w] = w"
  using from_be_to_be [of 6 w] by (simp add: to_be_6)

lemma take_bit_from_be: "8 * length bs \<le> n \<Longrightarrow> take_bit n (from_be bs :: 'a::len word) = from_be bs"
  by (rule bit_word_eqI) (auto simp: bit_take_bit_iff bit_from_be)

lemma take_bit_u64_iff: "take_bit n (w :: u64) = w \<longleftrightarrow> unat w < 2 ^ n"
proof -
  have "take_bit n w = w \<longleftrightarrow> take_bit n (unat w) = unat w"
    by (metis unsigned_take_bit_eq unsigned_word_eqI)
  then show ?thesis
    by (simp add: take_bit_nat_eq_self_iff)
qed

lemma take_bit_48_iff: "take_bit 48 (w :: u64) = w \<longleftrightarrow> w \<le> 0x0000ffffffffffff"
  by (auto simp: take_bit_u64_iff word_le_nat_alt)

lemma take_to_be_append [simp]:
  "take n (to_be n w @ bs) = to_be n w"
  "drop n (to_be n w @ bs) = bs"
  by simp_all

section \<open>Lengths\<close>

text \<open>\<open>usize\<close> is 64 bits wide; only its overflow checks appear in the model.\<close>

definition checked_add_usize :: "nat \<Rightarrow> nat \<Rightarrow> nat option" where
  "checked_add_usize a b = (if a + b < 2 ^ 64 then Some (a + b) else None)"

definition checked_mul_usize :: "nat \<Rightarrow> nat \<Rightarrow> nat option" where
  "checked_mul_usize a b = (if a * b < 2 ^ 64 then Some (a * b) else None)"

definition checked_add :: "'a::len word \<Rightarrow> 'a word \<Rightarrow> 'a word option" where
  "checked_add a b = (if unat a + unat b < 2 ^ LENGTH('a) then Some (a + b) else None)"

definition checked_sub :: "'a::len word \<Rightarrow> 'a word \<Rightarrow> 'a word option" where
  "checked_sub a b = (if b \<le> a then Some (a - b) else None)"

definition saturating_inc :: "u8 \<Rightarrow> u8" where
  "saturating_inc a = (if a = 0xff then 0xff else a + 1)"

lemma checked_add_usize_small [simp]:
  "a + b < 2 ^ 64 \<Longrightarrow> checked_add_usize a b = Some (a + b)"
  by (simp add: checked_add_usize_def)

lemma unat_of_nat_u8 [simp]: "n < 256 \<Longrightarrow> unat (of_nat n :: u8) = n"
  by (simp add: unat_of_nat take_bit_eq_mod)

lemma unat_of_nat_u16 [simp]: "n < 65536 \<Longrightarrow> unat (of_nat n :: u16) = n"
  by (simp add: unat_of_nat take_bit_eq_mod)

lemma unat_u8_bound [simp]: "unat (b :: u8) < 256"
  using unsigned_less [of b] by simp

lemma unat_u16_bound [simp]: "unat (w :: u16) < 65536"
  using unsigned_less [of w] by simp

lemma unat_u8_le [simp]: "unat (b :: u8) \<le> 255"
  using unat_u8_bound [of b] by linarith

lemma unat_u16_le [simp]: "unat (w :: u16) \<le> 65535"
  using unat_u16_bound [of w] by linarith

lemma checked_add_usize_words [simp]:
  "n < 1000000 \<Longrightarrow> checked_add_usize n (unat (b :: u8)) = Some (n + unat b)"
  "n < 1000000 \<Longrightarrow> checked_add_usize n (unat (w :: u16)) = Some (n + unat w)"
  using unat_u8_le [of b] unat_u16_le [of w]
  by (auto simp: checked_add_usize_def simp del: unat_u8_le unat_u16_le)

lemma unat_0xff [simp]: "unat (0xff :: u8) = 255"
  by simp

lemma checked_add_eq_Some:
  "checked_add a b = Some c \<longleftrightarrow> unat (a :: 'a::len word) + unat b < 2 ^ LENGTH('a) \<and> c = a + b"
  by (auto simp: checked_add_def)

section \<open>Slices and strings of the standard library\<close>

text \<open>\<open>chunks n\<close> splits a slice into runs of \<open>n\<close>; on a slice whose length is a multiple of \<open>n\<close> it
  is also \<open>chunks_exact\<close>.\<close>

function chunks :: "nat \<Rightarrow> 'a list \<Rightarrow> 'a list list" where
  "chunks n xs = (if n = 0 \<or> xs = [] then [] else take n xs # chunks n (drop n xs))"
  by pat_completeness auto
termination
  by (relation "measure (\<lambda>(n, xs). length xs)") (auto simp: length_greater_0_conv)

declare chunks.simps [simp del]

lemma chunks_Nil [simp]: "chunks n [] = []"
  by (simp add: chunks.simps)

lemma chunks_Cons: "0 < n \<Longrightarrow> xs \<noteq> [] \<Longrightarrow> chunks n xs = take n xs # chunks n (drop n xs)"
  by (simp add: chunks.simps [of n xs])

lemma concat_chunks [simp]: "0 < n \<Longrightarrow> concat (chunks n xs) = xs"
proof (induction n xs rule: chunks.induct)
  case (1 n xs)
  then show ?case
    by (cases "xs = []") (auto simp: chunks_Cons)
qed

lemma chunks_exact_length:
  "0 < n \<Longrightarrow> n dvd length xs \<Longrightarrow> c \<in> set (chunks n xs) \<Longrightarrow> length c = n"
proof (induction n xs rule: chunks.induct)
  case (1 n xs)
  show ?case
  proof (cases "xs = []")
    case False
    then have "n \<le> length xs"
      using 1 by (auto dest: dvd_imp_le)
    moreover have "n dvd length (drop n xs)"
      using 1 by (simp add: dvd_diff_nat)
    ultimately show ?thesis
      using 1 False by (auto simp: chunks_Cons)
  qed (use 1 in simp)
qed

lemma chunks_concat:
  "0 < n \<Longrightarrow> (\<forall>c\<in>set cs. length c = n) \<Longrightarrow> chunks n (concat cs) = cs"
proof (induction cs)
  case (Cons c cs)
  then have "c \<noteq> []" by auto
  with Cons show ?case by (simp add: chunks_Cons)
qed simp

text \<open>\<open>str::split\<close> on a character, and \<open>join\<close>.\<close>

fun split_on :: "'a \<Rightarrow> 'a list \<Rightarrow> 'a list list" where
  "split_on c [] = [[]]"
| "split_on c (x # xs) =
     (if x = c then [] # split_on c xs
      else (case split_on c xs of [] \<Rightarrow> [[x]] | s # ss \<Rightarrow> (x # s) # ss))"

fun join_with :: "'a \<Rightarrow> 'a list list \<Rightarrow> 'a list" where
  "join_with c [] = []"
| "join_with c [s] = s"
| "join_with c (s # t # ss) = s @ c # join_with c (t # ss)"

lemma split_on_not_Nil [simp]: "split_on c xs \<noteq> []"
  by (induction xs) (auto split: list.splits)

lemma join_with_Cons: "ss \<noteq> [] \<Longrightarrow> join_with c (s # ss) = s @ c # join_with c ss"
  by (cases ss) auto

lemma join_split_on [simp]: "join_with c (split_on c xs) = xs"
proof (induction xs)
  case (Cons x xs)
  then show ?case
    by (cases "split_on c xs"; cases "tl (split_on c xs)") (auto simp: join_with_Cons)
qed simp

text \<open>\<open>core::str::from_utf8\<close>: the well-formed byte sequences of the Unicode standard.\<close>

definition utf8_cont :: "u8 \<Rightarrow> bool" where
  "utf8_cont b \<longleftrightarrow> 0x80 \<le> b \<and> b \<le> 0xBF"

definition utf8_second3 :: "u8 \<Rightarrow> u8 \<Rightarrow> bool" where
  "utf8_second3 a b \<longleftrightarrow>
     (if a = 0xE0 then 0xA0 \<le> b \<and> b \<le> 0xBF
      else if a = 0xED then 0x80 \<le> b \<and> b \<le> 0x9F else utf8_cont b)"

definition utf8_second4 :: "u8 \<Rightarrow> u8 \<Rightarrow> bool" where
  "utf8_second4 a b \<longleftrightarrow>
     (if a = 0xF0 then 0x90 \<le> b \<and> b \<le> 0xBF
      else if a = 0xF4 then 0x80 \<le> b \<and> b \<le> 0x8F else utf8_cont b)"

fun valid_utf8 :: "bytes \<Rightarrow> bool" where
  "valid_utf8 [] = True"
| "valid_utf8 (a # bs) =
     (if a < 0x80 then valid_utf8 bs
      else if 0xC2 \<le> a \<and> a \<le> 0xDF then
        (case bs of b # r \<Rightarrow> if utf8_cont b then valid_utf8 r else False | _ \<Rightarrow> False)
      else if 0xE0 \<le> a \<and> a \<le> 0xEF then
        (case bs of b # c # r \<Rightarrow> if utf8_second3 a b \<and> utf8_cont c then valid_utf8 r else False
         | _ \<Rightarrow> False)
      else if 0xF0 \<le> a \<and> a \<le> 0xF4 then
        (case bs of b # c # d # r \<Rightarrow>
            if utf8_second4 a b \<and> utf8_cont c \<and> utf8_cont d then valid_utf8 r else False
         | _ \<Rightarrow> False)
      else False)"

lemma utf8_not_slash [simp]: "\<not> utf8_cont 0x2F" "\<not> utf8_second3 a 0x2F" "\<not> utf8_second4 a 0x2F"
  by (auto simp: utf8_cont_def utf8_second3_def utf8_second4_def)

lemma valid_utf8_slash:
  "valid_utf8 (xs @ 0x2F # ys) \<longleftrightarrow> valid_utf8 xs \<and> valid_utf8 ys"
proof (induction xs rule: valid_utf8.induct)
  case 1
  then show ?case by simp
next
  case (2 a bs)
  consider "bs = []" | b where "bs = [b]" | b c where "bs = [b, c]"
    | b c d r where "bs = b # c # d # r"
    by (metis neq_Nil_conv)
  then show ?case
    by cases (use "2.IH" in \<open>auto split: list.splits\<close>)
qed

lemma valid_utf8_join: "valid_utf8 (join_with 0x2F ss) \<longleftrightarrow> (\<forall>s\<in>set ss. valid_utf8 s)"
  by (induction "0x2F::u8" ss rule: join_with.induct) (auto simp: valid_utf8_slash)

lemma valid_utf8_split: "valid_utf8 xs \<longleftrightarrow> (\<forall>s\<in>set (split_on 0x2F xs). valid_utf8 s)"
  using valid_utf8_join [of "split_on 0x2F xs"] by simp

text \<open>\<open>{}\<close> of an unsigned integer, and \<open>{:02x}\<close> of a byte.\<close>

fun show_nat :: "nat \<Rightarrow> string" where
  "show_nat n =
     (if n < 10 then [char_of (48 + n)] else show_nat (n div 10) @ [char_of (48 + n mod 10)])"

declare show_nat.simps [simp del]

definition hex_digit :: "nat \<Rightarrow> char" where
  "hex_digit n = char_of (if n < 10 then 48 + n else 87 + n)"

definition show_hex2 :: "u8 \<Rightarrow> string" where
  "show_hex2 b = [hex_digit (unat b div 16), hex_digit (unat b mod 16)]"

section \<open>Self-delimiting codecs\<close>

text \<open>
  Most wire formats of the program are sequences of self-delimiting items (TLVs, DTLS
  records, handshake messages, TLS extensions, channel-mask entries): one operation encodes
  an item, one decodes the first item of a buffer and returns the rest, and two loops do the
  same for a whole buffer. The laws say what the loops rely on; the round trip of the loops
  is proved once, here.
\<close>

locale codec =
  fixes wf :: "'a \<Rightarrow> bool"
    and enc :: "'a \<Rightarrow> 'e + bytes"
    and dec :: "bytes \<Rightarrow> 'd + 'a \<times> bytes"
    and enc_all :: "'a list \<Rightarrow> 'f + bytes"
    and dec_all :: "bytes \<Rightarrow> 'g + 'a list"
  assumes dec_enc: "wf x \<Longrightarrow> enc x = Inr bs \<Longrightarrow> dec (bs @ rest) = Inr (x, rest)"
    and enc_not_Nil: "enc x \<noteq> Inr []"
    and enc_all_Nil: "enc_all [] = Inr []"
    and enc_all_Cons: "enc_all (x # xs) = Inr bs \<longleftrightarrow>
      (\<exists>b c. enc x = Inr b \<and> enc_all xs = Inr c \<and> bs = b @ c)"
    and dec_all_Nil: "dec_all [] = Inr []"
    and dec_all_step: "bs \<noteq> [] \<Longrightarrow> dec_all bs = Inr zs \<longleftrightarrow>
      (\<exists>y ys rest. dec bs = Inr (y, rest) \<and> dec_all rest = Inr ys \<and> zs = y # ys)"
begin

lemma dec_all_append:
  "\<forall>x\<in>set xs. wf x \<Longrightarrow> enc_all xs = Inr bs \<Longrightarrow>
     dec_all (bs @ cs) = Inr zs \<longleftrightarrow> (\<exists>ys. dec_all cs = Inr ys \<and> zs = xs @ ys)"
proof (induction xs arbitrary: bs zs)
  case Nil
  then show ?case by (simp add: enc_all_Nil)
next
  case (Cons x xs)
  then obtain b c where bc: "enc x = Inr b" "enc_all xs = Inr c" "bs = b @ c"
    by (auto simp: enc_all_Cons)
  then have "b \<noteq> []"
    using enc_not_Nil [of x] by auto
  then have "dec_all (bs @ cs) = Inr zs \<longleftrightarrow> (\<exists>ys. dec_all (c @ cs) = Inr ys \<and> zs = x # ys)"
    using bc dec_enc [of x b "c @ cs"] Cons.prems(1) by (auto simp: dec_all_step)
  then show ?case
    using Cons.IH [OF _ bc(2)] Cons.prems(1) by auto
qed

lemma dec_all_enc_all: "\<forall>x\<in>set xs. wf x \<Longrightarrow> enc_all xs = Inr bs \<Longrightarrow> dec_all bs = Inr xs"
  using dec_all_append [of xs bs "[]" xs] by (simp add: dec_all_Nil)

lemma enc_all_inj:
  "\<forall>x\<in>set xs. wf x \<Longrightarrow> \<forall>y\<in>set ys. wf y \<Longrightarrow> enc_all xs = Inr bs \<Longrightarrow> enc_all ys = Inr bs \<Longrightarrow> xs = ys"
  using dec_all_enc_all [of xs bs] dec_all_enc_all [of ys bs] by simp

end

text \<open>
  A codec is canonical when an item has exactly one encoding: then decoding loses nothing and
  the loops are inverse to each other.
\<close>

locale canonical_codec = codec +
  assumes enc_dec: "dec bs = Inr (x, rest) \<Longrightarrow> wf x \<and> (\<exists>b. enc x = Inr b \<and> bs = b @ rest)"
begin

lemma enc_all_dec_all: "dec_all bs = Inr xs \<Longrightarrow> (\<forall>x\<in>set xs. wf x) \<and> enc_all xs = Inr bs"
proof (induction "length bs" arbitrary: bs xs rule: less_induct)
  case less
  show ?case
  proof (cases "bs = []")
    case True
    then show ?thesis
      using less.prems by (simp add: dec_all_Nil enc_all_Nil)
  next
    case False
    then obtain y ys rest where d: "dec bs = Inr (y, rest)" "dec_all rest = Inr ys" "xs = y # ys"
      using less.prems by (auto simp: dec_all_step)
    then obtain b where b: "wf y" "enc y = Inr b" "bs = b @ rest"
      using enc_dec by blast
    then have "length rest < length bs"
      using enc_not_Nil [of y] by auto
    then show ?thesis
      using less.hyps [OF _ d(2)] d b by (auto simp: enc_all_Cons)
  qed
qed

lemma codec_bij: "dec_all bs = Inr xs \<longleftrightarrow> (\<forall>x\<in>set xs. wf x) \<and> enc_all xs = Inr bs"
  using enc_all_dec_all dec_all_enc_all by blast

end

section \<open>Frames of methods\<close>

text \<open>
  What a method leaves alone. The frame is a preorder on states; a method that always stays in it
  composes with others that do, and the outcome of a longer method can be established from the state
  in which its framed beginning leaves it.
\<close>

locale frame =
  fixes F :: "'s \<Rightarrow> 's \<Rightarrow> bool"
  assumes frame_refl: "F s s"
    and frame_trans: "F s t \<Longrightarrow> F t u \<Longrightarrow> F s u"
begin

definition framed :: "('s, 'e, 'a) action \<Rightarrow> bool" where
  "framed m \<longleftrightarrow> (\<forall>s. F s (fst (m s)))"

lemma framedD: "framed m \<Longrightarrow> F s (fst (m s))"
  by (simp add: framed_def)

lemma framed_pure:
  "framed (st_ok v)" "framed (st_err e)" "framed (st_lift r)" "framed (st_get g)" "framed (st_try h)"
  by (simp_all add: framed_def st_ok_def st_err_def st_lift_def st_get_def st_try_def frame_refl)

lemma framed_modify: "(\<And>s. F s (g s)) \<Longrightarrow> framed (st_modify g)"
  by (simp add: framed_def st_modify_def)

lemma framed_then: "framed m \<Longrightarrow> (\<And>v. framed (f v)) \<Longrightarrow> framed (st_then m f)"
  by (auto simp: framed_def st_then_def split: prod.splits sum.splits) (metis frame_trans fst_conv)+

lemma outcome_then:
  assumes "F s0 s" "framed m"
    and "\<And>v s. F s0 s \<Longrightarrow> G (f v s)" "\<And>e s. F s0 s \<Longrightarrow> G (s, Inl e)"
  shows "G (st_then m f s)"
  using assms frame_trans [OF assms(1) framedD [OF assms(2), of s]]
  by (auto simp: st_then_def split: prod.splits sum.splits)

lemmas framed_intros = framed_pure framed_modify framed_then

end

section \<open>Budgets\<close>

text \<open>
  A retry budget answers each request with a grant or a refusal. The law says that a grant costs
  one unit and that a refusal happens exactly when the budget is spent.
\<close>

locale budget =
  fixes take_one :: "'s \<Rightarrow> 's \<times> bool"
    and left :: "'s \<Rightarrow> nat"
  assumes take_left: "take_one s = (s', granted) \<Longrightarrow> granted = (0 < left s) \<and> left s' = left s - 1"
begin

primrec grants :: "nat \<Rightarrow> 's \<Rightarrow> nat" where
  "grants 0 s = 0"
| "grants (Suc n) s = (case take_one s of (s', granted) \<Rightarrow> of_bool granted + grants n s')"

lemma grants_eq: "grants n s = min n (left s)"
proof (induction n arbitrary: s)
  case (Suc n)
  obtain s' g where "take_one s = (s', g)"
    by (cases "take_one s")
  with Suc take_left [OF this] show ?case
    by (cases "left s") auto
qed simp

end

end
