(* ===== verification/Dtls_Error.thy ===== *)
theory Dtls_Error
  imports Prelude
begin

text \<open>
  The error type of the DTLS crate (\<^verbatim>\<open>meshcop-dtls/src/error.rs\<close>) with its \<open>Display\<close> text. An
  operating-system error is kept as the text it displays.
\<close>

datatype dtls_error =
    Crypto string
  | InvalidState string
  | Timeout string
  | PeerClosed
  | Io string

fun dtls_error_to_string :: "dtls_error \<Rightarrow> string" where
  "dtls_error_to_string (Crypto m) = ''crypto error: '' @ m"
| "dtls_error_to_string (InvalidState m) = ''invalid state: '' @ m"
| "dtls_error_to_string (Timeout m) = ''timeout: '' @ m"
| "dtls_error_to_string PeerClosed = ''peer closed the DTLS session''"
| "dtls_error_to_string (Io m) = ''I/O error: '' @ m"

end
