(* ===== verification/Errors.thy ===== *)
theory Errors
  imports Dtls_Error
begin

text \<open>
  The error types of the commissioner crate: \<^verbatim>\<open>TlvError\<close> (\<^verbatim>\<open>tlv.rs\<close>), \<^verbatim>\<open>CloseReason\<close>
  (\<^verbatim>\<open>commissioner/types.rs\<close>) and the crate-wide \<^verbatim>\<open>Error\<close> (\<^verbatim>\<open>error.rs\<close>), each with its
  \<open>Display\<close> text. Errors of foreign crates (\<open>hex\<close>, the operating system) are kept as the text
  they display. Strings that came from the wire are byte strings.
\<close>

datatype tlv_error =
    BufferTooSmall
  | InvalidLength
  | InvalidValue
  | ValueTooLarge nat

datatype close_reason =
    Resigned
  | KeepAliveRejected
  | KeepAlivePending
  | KeepAliveFailed string
  | PeerClosed
  | TransportFailed string
  | TaskStopped

datatype error =
    Configuration string
  | Tlv tlv_error
  | Dataset string
  | Crypto string
  | Dtls dtls_error
  | Hex string
  | Io string
  | Timeout string
  | InvalidState string
  | PetitionRejected "bytes option"
  | SessionClosed
  | SessionLost close_reason
  | Unsupported string

fun tlv_error_to_string :: "tlv_error \<Rightarrow> string" where
  "tlv_error_to_string BufferTooSmall = ''buffer too small''"
| "tlv_error_to_string InvalidLength = ''invalid TLV length''"
| "tlv_error_to_string InvalidValue = ''invalid TLV value''"
| "tlv_error_to_string (ValueTooLarge n) = ''TLV value too large: '' @ show_nat n @ '' bytes''"

fun close_reason_to_string :: "close_reason \<Rightarrow> string" where
  "close_reason_to_string Resigned = ''the application ended the session''"
| "close_reason_to_string KeepAliveRejected = ''a keep-alive was rejected''"
| "close_reason_to_string KeepAlivePending = ''a keep-alive was answered with Pending''"
| "close_reason_to_string (KeepAliveFailed e) = ''a keep-alive failed: '' @ e"
| "close_reason_to_string close_reason.PeerClosed = ''the border agent closed the DTLS session''"
| "close_reason_to_string (TransportFailed e) = ''the transport failed: '' @ e"
| "close_reason_to_string TaskStopped = ''the session task stopped unexpectedly''"

definition petition_rejected_suffix :: "bytes option \<Rightarrow> string" where
  "petition_rejected_suffix existing =
     (case existing of
        None \<Rightarrow> ''''
      | Some i \<Rightarrow> '' by existing commissioner `'' @ map (\<lambda>b. char_of (unat b)) i @ ''`'')"

fun error_to_string :: "error \<Rightarrow> string" where
  "error_to_string (Configuration m) = ''configuration error: '' @ m"
| "error_to_string (Tlv e) = ''TLV error: '' @ tlv_error_to_string e"
| "error_to_string (Dataset m) = ''dataset error: '' @ m"
| "error_to_string (Crypto m) = ''crypto error: '' @ m"
| "error_to_string (Dtls e) = dtls_error_to_string e"
| "error_to_string (Hex m) = ''invalid hex: '' @ m"
| "error_to_string (Io m) = ''I/O error: '' @ m"
| "error_to_string (Timeout m) = ''timeout: '' @ m"
| "error_to_string (InvalidState m) = ''invalid state: '' @ m"
| "error_to_string (PetitionRejected i) = ''petition was rejected'' @ petition_rejected_suffix i"
| "error_to_string SessionClosed = ''commissioner session is closed''"
| "error_to_string (SessionLost r) = ''commissioner session was lost: '' @ close_reason_to_string r"
| "error_to_string (Unsupported m) = ''unsupported operation: '' @ m"

end
