(* ===== verification/Tlv.thy ===== *)
theory Tlv
  imports Errors
begin

text \<open>
  The TLV codec: \<^verbatim>\<open>meshcop/src/tlv.rs\<close>, the fixed-width readers of \<^verbatim>\<open>wire.rs\<close> and the
  assembly helpers of \<^verbatim>\<open>meshcop/util.rs\<close>. An output buffer is threaded through the encoders
  and returned beside the result, because a failing encoder leaves what it already wrote.
  Shown: the stream loops round-trip on every encodable set, the decoder always consumes
  input and yields encodable entries, and the last-value accessors implement a finite map.
\<close>

section \<open>Definitions\<close>

definition MAX_STANDARD_TLV_LENGTH :: nat where
  "MAX_STANDARD_TLV_LENGTH = 254"

definition EXTENDED_TLV_MARKER :: u8 where
  "EXTENDED_TLV_MARKER = 0xff"

definition MAX_EXTENDED_TLV_LENGTH :: nat where
  "MAX_EXTENDED_TLV_LENGTH = 65535"

record TlvEntry =
  ty :: u8
  val :: bytes

record TlvSet =
  entries :: "TlvEntry list"

abbreviation TlvEntry_new :: "u8 \<Rightarrow> bytes \<Rightarrow> TlvEntry" where
  "TlvEntry_new t v \<equiv> \<lparr>ty = t, val = v\<rparr>"

definition encode_header :: "u8 \<Rightarrow> nat \<Rightarrow> (bytes, tlv_error, unit) action" where
  "encode_header t len out =
     (let out = out @ [t] in
      if len \<le> MAX_STANDARD_TLV_LENGTH then (out @ [of_nat len], Ok ())
      else if len \<le> MAX_EXTENDED_TLV_LENGTH then
        (out @ [EXTENDED_TLV_MARKER] @ to_be 2 (of_nat len :: u16), Ok ())
      else (out, Err (ValueTooLarge len)))"

definition TlvEntry_encode :: "TlvEntry \<Rightarrow> (bytes, tlv_error, unit) action" where
  "TlvEntry_encode e =
     st_then (encode_header (ty e) (length (val e))) (\<lambda>_. st_modify (\<lambda>out. out @ val e))"

definition parse_one :: "bytes \<Rightarrow> tlv_error + TlvEntry \<times> bytes" where
  "parse_one bs =
     (if length bs < 2 then Err BufferTooSmall
      else
        let t = bs ! 0; length_byte = bs ! 1 in
        and_then
          (if length_byte = EXTENDED_TLV_MARKER then
             (if length bs < 4 then Err BufferTooSmall
              else Ok (unat (from_be [bs ! 2, bs ! 3] :: u16), 4))
           else Ok (unat length_byte, 2))
          (\<lambda>(len, header_len).
             and_then (ok_or (checked_add_usize header_len len) InvalidLength)
               (\<lambda>end.
                  if length bs < end then Err BufferTooSmall
                  else Ok (TlvEntry_new t (drop header_len (take end bs)), drop end bs))))"

text \<open>Every entry consumes at least its two header bytes, so the parse loop ends.\<close>

lemma parse_one_shrinks: "parse_one bs = Inr (e, rest) \<Longrightarrow> length rest < length bs"
  by (auto simp: parse_one_def Let_def checked_add_usize_def result_simps split: if_splits)

function TlvSet_parse_entries :: "bytes \<Rightarrow> tlv_error + TlvEntry list" where
  "TlvSet_parse_entries remaining =
     (if remaining = [] then Ok []
      else and_then (parse_one remaining)
        (\<lambda>(entry, rest). and_then (TlvSet_parse_entries rest) (\<lambda>es. Ok (entry # es))))"
  by pat_completeness auto
termination
  by (relation "measure length") (auto dest: parse_one_shrinks)

declare TlvSet_parse_entries.simps [simp del]

definition TlvSet_parse :: "bytes \<Rightarrow> tlv_error + TlvSet" where
  "TlvSet_parse bs = and_then (TlvSet_parse_entries bs) (\<lambda>es. Ok \<lparr>entries = es\<rparr>)"

fun encode_entries :: "TlvEntry list \<Rightarrow> (bytes, tlv_error, unit) action" where
  "encode_entries [] = st_ok ()"
| "encode_entries (e # es) = st_then (TlvEntry_encode e) (\<lambda>_. encode_entries es)"

definition TlvSet_encode :: "TlvSet \<Rightarrow> tlv_error + bytes" where
  "TlvSet_encode s = (case encode_entries (entries s) [] of (out, r) \<Rightarrow> and_then r (\<lambda>_. Ok out))"

definition TlvSet_push :: "TlvEntry \<Rightarrow> TlvSet \<Rightarrow> TlvSet" where
  "TlvSet_push e s = s\<lparr>entries := entries s @ [e]\<rparr>"

definition last_value :: "TlvSet \<Rightarrow> u8 \<Rightarrow> bytes option" where
  "last_value s t = map_option val (find (\<lambda>e. ty e = t) (rev (entries s)))"

definition set_last :: "u8 \<Rightarrow> bytes \<Rightarrow> TlvSet \<Rightarrow> TlvSet" where
  "set_last t v s =
     s\<lparr>entries := filter (\<lambda>e. ty e \<noteq> t) (entries s) @ [TlvEntry_new t v]\<rparr>"

definition wire_read_u16 :: "bytes \<Rightarrow> u16 option" where
  "wire_read_u16 v = (if length v = 2 then Some (from_be v) else None)"

definition wire_read_u32 :: "bytes \<Rightarrow> u32 option" where
  "wire_read_u32 v = (if length v = 4 then Some (from_be v) else None)"

definition wire_read_u64 :: "bytes \<Rightarrow> u64 option" where
  "wire_read_u64 v = (if length v = 8 then Some (from_be v) else None)"

definition tlv_read_u16 :: "bytes \<Rightarrow> tlv_error + u16" where
  "tlv_read_u16 v = ok_or (wire_read_u16 v) InvalidLength"

definition tlv_read_u32 :: "bytes \<Rightarrow> tlv_error + u32" where
  "tlv_read_u32 v = ok_or (wire_read_u32 v) InvalidLength"

definition tlv_read_u64 :: "bytes \<Rightarrow> tlv_error + u64" where
  "tlv_read_u64 v = ok_or (wire_read_u64 v) InvalidLength"

definition append_tlv :: "u8 \<Rightarrow> bytes \<Rightarrow> (bytes, error, unit) action" where
  "append_tlv t v out =
     (case TlvEntry_encode (TlvEntry_new t v) out of (out, r) \<Rightarrow> (out, map_err Tlv r))"

definition append_u8 :: "u8 \<Rightarrow> u8 \<Rightarrow> (bytes, error, unit) action" where
  "append_u8 t v = append_tlv t [v]"

definition append_u16 :: "u8 \<Rightarrow> u16 \<Rightarrow> (bytes, error, unit) action" where
  "append_u16 t v = append_tlv t (to_be 2 v)"

definition append_u32 :: "u8 \<Rightarrow> u32 \<Rightarrow> (bytes, error, unit) action" where
  "append_u32 t v = append_tlv t (to_be 4 v)"

section \<open>Single entries\<close>

text \<open>The bytes of one entry, when its value is short enough to encode.\<close>

definition tlv_bytes :: "u8 \<Rightarrow> bytes \<Rightarrow> bytes" where
  "tlv_bytes t v =
     t # (if length v \<le> 254 then [of_nat (length v)] else 0xff # to_be 2 (of_nat (length v) :: u16)) @ v"

definition enc_entry :: "TlvEntry \<Rightarrow> tlv_error + bytes" where
  "enc_entry e = (case TlvEntry_encode e [] of (out, r) \<Rightarrow> and_then r (\<lambda>_. Ok out))"

lemmas tlv_const_defs = MAX_STANDARD_TLV_LENGTH_def EXTENDED_TLV_MARKER_def MAX_EXTENDED_TLV_LENGTH_def

lemma TlvEntry_encode_eq:
  "TlvEntry_encode e out =
     (if length (val e) \<le> 65535 then (out @ tlv_bytes (ty e) (val e), Ok ())
      else (out @ [ty e], Err (ValueTooLarge (length (val e)))))"
  by (simp add: TlvEntry_encode_def encode_header_def st_then_def st_modify_def tlv_bytes_def
      tlv_const_defs Let_def)

lemma enc_entry_eq:
  "enc_entry e =
     (if length (val e) \<le> 65535 then Ok (tlv_bytes (ty e) (val e))
      else Err (ValueTooLarge (length (val e))))"
  by (simp add: enc_entry_def TlvEntry_encode_eq)

lemma of_nat_u8_eq_ff: "n \<le> 254 \<Longrightarrow> (of_nat n :: u8) \<noteq> 0xff"
proof
  assume "n \<le> 254" and "(of_nat n :: u8) = 0xff"
  then have "unat (of_nat n :: u8) = unat (0xff :: u8)" by simp
  with \<open>n \<le> 254\<close> show False by simp
qed

lemma drop_take_prefix:
  "length h = n \<Longrightarrow> drop n (take (n + length v) (h @ v @ rest)) = v"
  "length h = n \<Longrightarrow> drop (n + length v) (h @ v @ rest) = rest"
  by simp_all

lemma parse_one_tlv_bytes:
  assumes "length v \<le> 65535"
  shows "parse_one (tlv_bytes t v @ rest) = Ok (TlvEntry_new t v, rest)"
proof (cases "length v \<le> 254")
  case True
  then show ?thesis
    by (simp add: parse_one_def tlv_bytes_def tlv_const_defs of_nat_u8_eq_ff)
next
  case False
  then show ?thesis
    using assms drop_take_prefix [of "[t, 0xff, a, b]" 4 v rest for a b]
    by (simp add: parse_one_def tlv_bytes_def tlv_const_defs to_be_unfold)
qed

lemma unat_not_ff: "(b :: u8) \<noteq> 0xff \<Longrightarrow> unat b \<le> 254"
proof -
  assume "b \<noteq> 0xff"
  then have "unat b \<noteq> 255"
    by (metis unsigned_word_eqI unat_0xff)
  then show ?thesis
    using unat_u8_le [of b] by linarith
qed

text \<open>What the decoder does, by the form of the length field.\<close>

lemma parse_one_short:
  assumes "2 \<le> length bs" "bs ! 1 \<noteq> 0xff"
  shows "parse_one bs =
    (if length bs < 2 + unat (bs ! 1) then Err BufferTooSmall
     else Ok (TlvEntry_new (bs ! 0) (drop 2 (take (2 + unat (bs ! 1)) bs)), drop (2 + unat (bs ! 1)) bs))"
  using assms by (simp add: parse_one_def tlv_const_defs Let_def)

lemma parse_one_extended:
  assumes "2 \<le> length bs" "bs ! 1 = 0xff"
  defines "n \<equiv> unat (from_be [bs ! 2, bs ! 3] :: u16)"
  shows "parse_one bs =
    (if length bs < 4 + n then Err BufferTooSmall
     else Ok (TlvEntry_new (bs ! 0) (drop 4 (take (4 + n) bs)), drop (4 + n) bs))"
  unfolding n_def using assms(1,2) by (simp add: parse_one_def tlv_const_defs)

lemma parse_one_truncated: "length bs < 2 \<Longrightarrow> parse_one bs = Err BufferTooSmall"
  by (simp add: parse_one_def)

lemma parse_one_Ok:
  assumes "parse_one bs = Inr (e, rest)"
  shows "length (val e) \<le> 65535 \<and> length (tlv_bytes (ty e) (val e)) + length rest \<le> length bs"
proof -
  have l: "2 \<le> length bs"
    using assms by (cases "length bs < 2") (simp_all add: parse_one_truncated)
  show ?thesis
  proof (cases "bs ! 1 = 0xff")
    case True
    then show ?thesis
      using assms l unat_u16_le [of "from_be [bs ! 2, bs ! 3]"]
      by (auto simp: parse_one_extended tlv_bytes_def split: if_splits)
  next
    case False
    then show ?thesis
      using assms l unat_not_ff [of "bs ! 1"]
      by (auto simp: parse_one_short tlv_bytes_def split: if_splits)
  qed
qed

lemma parse_one_Err: "parse_one bs = Inl e \<Longrightarrow> e = BufferTooSmall"
  by (cases "length bs < 2"; cases "bs ! 1 = 0xff")
    (auto simp: parse_one_truncated parse_one_short parse_one_extended Let_def split: if_splits)

section \<open>Streams\<close>

lemma encode_entries_Ok:
  "\<forall>e\<in>set es. length (val e) \<le> 65535 \<Longrightarrow>
     encode_entries es out = (out @ concat (map (\<lambda>e. tlv_bytes (ty e) (val e)) es), Ok ())"
  by (induction es arbitrary: out) (auto simp: st_ok_def st_then_def TlvEntry_encode_eq)

lemma encode_entries_Err:
  "\<not> (\<forall>e\<in>set es. length (val e) \<le> 65535) \<Longrightarrow>
     \<exists>out' e. encode_entries es out = (out', Err (ValueTooLarge (length (val e)))) \<and> e \<in> set es
       \<and> 65535 < length (val e)"
proof (induction es arbitrary: out)
  case (Cons e es)
  then show ?case
    by (cases "length (val e) \<le> 65535") (fastforce simp: st_then_def TlvEntry_encode_eq)+
qed simp

lemma TlvSet_encode_Ok:
  "\<forall>e\<in>set (entries s). length (val e) \<le> 65535 \<Longrightarrow>
     TlvSet_encode s = Ok (concat (map (\<lambda>e. tlv_bytes (ty e) (val e)) (entries s)))"
  by (simp add: TlvSet_encode_def encode_entries_Ok)

lemma TlvSet_encode_is_Ok:
  "TlvSet_encode s = Inr bs \<longleftrightarrow>
     (\<forall>e\<in>set (entries s). length (val e) \<le> 65535) \<and>
     bs = concat (map (\<lambda>e. tlv_bytes (ty e) (val e)) (entries s))"
proof (cases "\<forall>e\<in>set (entries s). length (val e) \<le> 65535")
  case False
  then show ?thesis
    using encode_entries_Err [OF False, of "[]"] by (auto simp: TlvSet_encode_def)
qed (auto simp: TlvSet_encode_Ok)

lemma TlvSet_parse_entries_step:
  "bs \<noteq> [] \<Longrightarrow> TlvSet_parse_entries bs = Inr zs \<longleftrightarrow>
     (\<exists>y ys rest. parse_one bs = Inr (y, rest) \<and> TlvSet_parse_entries rest = Inr ys \<and> zs = y # ys)"
  by (subst TlvSet_parse_entries.simps) (auto simp: result_simps)

interpretation tlv: codec "\<lambda>_. True" enc_entry parse_one "\<lambda>es. TlvSet_encode \<lparr>entries = es\<rparr>" TlvSet_parse_entries
proof
  show "enc_entry x = Inr bs \<Longrightarrow> parse_one (bs @ rest) = Inr (x, rest)" for x bs rest
    by (auto simp: enc_entry_eq parse_one_tlv_bytes split: if_splits)
  show "enc_entry x \<noteq> Inr []" for x
    by (simp add: enc_entry_eq tlv_bytes_def)
  show "TlvSet_encode \<lparr>entries = []\<rparr> = Inr []"
    by (simp add: TlvSet_encode_Ok)
  show "TlvSet_encode \<lparr>entries = x # xs\<rparr> = Inr bs \<longleftrightarrow>
      (\<exists>b c. enc_entry x = Inr b \<and> TlvSet_encode \<lparr>entries = xs\<rparr> = Inr c \<and> bs = b @ c)" for x xs bs
    by (auto simp: TlvSet_encode_is_Ok enc_entry_eq)
  show "TlvSet_parse_entries [] = Inr []"
    by (simp add: TlvSet_parse_entries.simps)
qed (rule TlvSet_parse_entries_step)

lemma TlvSet_parse_eq: "TlvSet_parse bs = Inr s \<longleftrightarrow> TlvSet_parse_entries bs = Inr (entries s)"
  by (cases s) (auto simp: TlvSet_parse_def result_simps)

lemma TlvSet_parse_encode: "TlvSet_encode s = Inr bs \<Longrightarrow> TlvSet_parse bs = Inr s"
  using tlv.dec_all_enc_all [of "entries s" bs] by (simp add: TlvSet_parse_eq TlvSet_encode_def)

lemma TlvSet_parse_entries_Ok:
  "TlvSet_parse_entries bs = Inr es \<Longrightarrow>
     (\<forall>e\<in>set es. length (val e) \<le> 65535) \<and>
     length (concat (map (\<lambda>e. tlv_bytes (ty e) (val e)) es)) \<le> length bs"
proof (induction bs arbitrary: es rule: TlvSet_parse_entries.induct)
  case (1 bs)
  show ?case
  proof (cases "bs = []")
    case True
    then show ?thesis using 1 by (simp add: TlvSet_parse_entries.simps)
  next
    case False
    then obtain y ys rest where y: "parse_one bs = Inr (y, rest)"
      "TlvSet_parse_entries rest = Inr ys" "es = y # ys"
      using 1 by (auto simp: TlvSet_parse_entries_step)
    then show ?thesis
      using 1 False parse_one_Ok [OF y(1)] by fastforce
  qed
qed

lemma TlvSet_parse_entries_Err: "TlvSet_parse_entries bs = Inl e \<Longrightarrow> e = BufferTooSmall"
proof (induction bs rule: TlvSet_parse_entries.induct)
  case (1 bs)
  then show ?case
    by (subst (asm) (2) TlvSet_parse_entries.simps)
      (auto simp: result_simps dest: parse_one_Err split: if_splits)
qed

section \<open>TLV stores\<close>

text \<open>
  Clients of a TLV collection see a finite map from types to values: a lookup after a store
  returns what was stored, and leaves other types alone.
\<close>

locale tlv_store =
  fixes get :: "'s \<Rightarrow> u8 \<Rightarrow> bytes option"
    and put :: "u8 \<Rightarrow> bytes \<Rightarrow> 's \<Rightarrow> 's"
  assumes get_put: "get (put t v s) = (get s)(t \<mapsto> v)"
begin

lemma get_put_same: "get (put t v s) t = Some v"
  by (simp add: get_put)

lemma get_put_other: "t \<noteq> u \<Longrightarrow> get (put t v s) u = get s u"
  by (simp add: get_put)

lemma get_puts: "get (fold (\<lambda>(t, v). put t v) kvs s) = get s ++ map_of (rev kvs)"
  by (induction kvs arbitrary: s) (auto simp: get_put map_add_def split: option.split)

end

lemma find_rev_snoc:
  "find P (rev (xs @ [x])) = (if P x then Some x else find P (rev xs))"
  by simp

lemma find_rev_filter: "(\<And>x. P x \<Longrightarrow> Q x) \<Longrightarrow> find P (rev (filter Q xs)) = find P (rev xs)"
  by (induction xs rule: rev_induct) auto

lemma last_value_set_last: "last_value (set_last t v s) = (last_value s)(t \<mapsto> v)"
  by (auto simp: last_value_def set_last_def find_rev_filter)

interpretation tlv_set_store: tlv_store last_value set_last
  by unfold_locales (rule last_value_set_last)

lemma last_value_push: "last_value (TlvSet_push e s) = (last_value s)(ty e \<mapsto> val e)"
  by (auto simp: last_value_def TlvSet_push_def)

lemma last_value_bound:
  "TlvSet_parse bs = Inr s \<Longrightarrow> last_value s t = Some v \<Longrightarrow> length v \<le> 65535"
  using TlvSet_parse_entries_Ok [of bs "entries s"]
  by (auto simp: TlvSet_parse_eq last_value_def find_Some_iff in_set_conv_nth)
    (metis length_rev nth_mem set_rev)

section \<open>Properties\<close>

text \<open>C24: Encoding a TLV set succeeds exactly when every value is at most 65535 bytes long, and
  parsing the encoding gives back the same entries in the same order.\<close>

theorem tlv_set_roundtrip:
  "(if \<forall>e\<in>set (entries s). length (val e) \<le> MAX_EXTENDED_TLV_LENGTH
    then \<exists>bs. TlvSet_encode s = Ok bs \<and> TlvSet_parse bs = Ok s
    else \<exists>e\<in>set (entries s). TlvSet_encode s = Err (ValueTooLarge (length (val e))))"
proof (cases "\<forall>e\<in>set (entries s). length (val e) \<le> 65535")
  case True
  then show ?thesis
    using TlvSet_encode_Ok TlvSet_parse_encode by (fastforce simp: tlv_const_defs)
next
  case False
  then show ?thesis
    using encode_entries_Err [OF False, of "[]"] by (auto simp: tlv_const_defs TlvSet_encode_def)
qed

theorem tlv_set_roundtrip_witness:
  "\<exists>bs. TlvSet_encode \<lparr>entries = [TlvEntry_new 5 [1, 2], TlvEntry_new 7 []]\<rparr> = Ok bs \<and>
     TlvSet_parse bs = Ok \<lparr>entries = [TlvEntry_new 5 [1, 2], TlvEntry_new 7 []]\<rparr>"
  using tlv_set_roundtrip [of "\<lparr>entries = [TlvEntry_new 5 [1, 2], TlvEntry_new 7 []]\<rparr>"]
  by (simp add: tlv_const_defs)

text \<open>C25: Parsing any buffer either fails with \<open>BufferTooSmall\<close> or gives a set whose canonical
  re-encoding is no longer than the input and parses to the same set.\<close>

theorem tlv_parse_total:
  "case TlvSet_parse bs of
     Inl e \<Rightarrow> e = BufferTooSmall
   | Inr s \<Rightarrow> \<exists>out. TlvSet_encode s = Ok out \<and> length out \<le> length bs \<and> TlvSet_parse out = Ok s"
proof (cases "TlvSet_parse bs")
  case (Inl e)
  then show ?thesis
    by (auto simp: TlvSet_parse_def result_simps dest: TlvSet_parse_entries_Err)
next
  case (Inr s)
  then have "TlvSet_parse_entries bs = Inr (entries s)"
    by (simp add: TlvSet_parse_eq)
  then show ?thesis
    using Inr TlvSet_parse_entries_Ok [of bs "entries s"] TlvSet_encode_Ok [of s] TlvSet_parse_encode [of s]
    by auto
qed

end
