(* ===== verification/Constants.thy ===== *)
theory Constants
  imports Tlv
begin

text \<open>
  Protocol numbers: the dataset TLV types of \<^verbatim>\<open>dataset.rs\<close>, the MeshCoP and Thread TLV types,
  port numbers, locators and CoAP resource paths of \<^verbatim>\<open>meshcop/constants.rs\<close>, and the flag
  tables of \<^verbatim>\<open>meshcop/flags.rs\<close> that select TLV types. A type number that both Rust modules
  define appears once.
\<close>

named_theorems const_defs \<open>definitions of protocol numbers and paths\<close>

section \<open>Dataset TLV types\<close>

definition TLV_CHANNEL :: u8 where [const_defs]: "TLV_CHANNEL = 0x00"
definition TLV_PAN_ID :: u8 where [const_defs]: "TLV_PAN_ID = 0x01"
definition TLV_EXTENDED_PAN_ID :: u8 where [const_defs]: "TLV_EXTENDED_PAN_ID = 0x02"
definition TLV_NETWORK_NAME :: u8 where [const_defs]: "TLV_NETWORK_NAME = 0x03"
definition TLV_PSKC :: u8 where [const_defs]: "TLV_PSKC = 0x04"
definition TLV_NETWORK_KEY :: u8 where [const_defs]: "TLV_NETWORK_KEY = 0x05"
definition TLV_MESH_LOCAL_PREFIX :: u8 where [const_defs]: "TLV_MESH_LOCAL_PREFIX = 0x07"
definition TLV_SECURITY_POLICY :: u8 where [const_defs]: "TLV_SECURITY_POLICY = 0x0c"
definition TLV_ACTIVE_TIMESTAMP :: u8 where [const_defs]: "TLV_ACTIVE_TIMESTAMP = 0x0e"
definition TLV_PENDING_TIMESTAMP :: u8 where [const_defs]: "TLV_PENDING_TIMESTAMP = 0x33"
definition TLV_DELAY_TIMER :: u8 where [const_defs]: "TLV_DELAY_TIMER = 0x34"
definition TLV_CHANNEL_MASK :: u8 where [const_defs]: "TLV_CHANNEL_MASK = 0x35"
definition OUT_OF_BAND_COMMISSIONING_DISALLOWED :: u16 where [const_defs]: "OUT_OF_BAND_COMMISSIONING_DISALLOWED = 0x0001"
definition NATIVE_COMMISSIONING_DISALLOWED :: u16 where [const_defs]: "NATIVE_COMMISSIONING_DISALLOWED = 0x0002"
definition LEGACY_ROUTERS_ENABLED :: u16 where [const_defs]: "LEGACY_ROUTERS_ENABLED = 0x0004"
definition EXTERNAL_COMMISSIONER_AUTH_REQUIRED :: u16 where [const_defs]: "EXTERNAL_COMMISSIONER_AUTH_REQUIRED = 0x0008"
definition COMMERCIAL_COMMISSIONING_MODE :: u16 where [const_defs]: "COMMERCIAL_COMMISSIONING_MODE = 0x0010"

section \<open>MeshCoP numbers and paths\<close>

definition COAP_OPTION_URI_PATH :: u16 where [const_defs]: "COAP_OPTION_URI_PATH = 11"
definition COAP_OPTION_CONTENT_FORMAT :: u16 where [const_defs]: "COAP_OPTION_CONTENT_FORMAT = 12"
definition TLV_BORDER_AGENT_LOCATOR :: u8 where [const_defs]: "TLV_BORDER_AGENT_LOCATOR = 9"
definition TLV_COMMISSIONER_ID :: u8 where [const_defs]: "TLV_COMMISSIONER_ID = 10"
definition TLV_COMMISSIONER_SESSION_ID :: u8 where [const_defs]: "TLV_COMMISSIONER_SESSION_ID = 11"
definition TLV_GET :: u8 where [const_defs]: "TLV_GET = 13"
definition TLV_COMMISSIONER_UDP_PORT :: u8 where [const_defs]: "TLV_COMMISSIONER_UDP_PORT = 15"
definition TLV_STATE :: u8 where [const_defs]: "TLV_STATE = 16"
definition TLV_JOINER_DTLS_ENCAPSULATION :: u8 where [const_defs]: "TLV_JOINER_DTLS_ENCAPSULATION = 17"
definition TLV_JOINER_UDP_PORT :: u8 where [const_defs]: "TLV_JOINER_UDP_PORT = 18"
definition TLV_JOINER_IID :: u8 where [const_defs]: "TLV_JOINER_IID = 19"
definition TLV_JOINER_ROUTER_LOCATOR :: u8 where [const_defs]: "TLV_JOINER_ROUTER_LOCATOR = 20"
definition TLV_JOINER_ROUTER_KEK :: u8 where [const_defs]: "TLV_JOINER_ROUTER_KEK = 21"
definition TLV_PROVISIONING_URL :: u8 where [const_defs]: "TLV_PROVISIONING_URL = 32"
definition TLV_VENDOR_NAME :: u8 where [const_defs]: "TLV_VENDOR_NAME = 33"
definition TLV_VENDOR_MODEL :: u8 where [const_defs]: "TLV_VENDOR_MODEL = 34"
definition TLV_VENDOR_SW_VERSION :: u8 where [const_defs]: "TLV_VENDOR_SW_VERSION = 35"
definition TLV_VENDOR_DATA :: u8 where [const_defs]: "TLV_VENDOR_DATA = 36"
definition TLV_VENDOR_STACK_VERSION :: u8 where [const_defs]: "TLV_VENDOR_STACK_VERSION = 37"
definition TLV_UDP_ENCAPSULATION :: u8 where [const_defs]: "TLV_UDP_ENCAPSULATION = 48"
definition TLV_IPV6_ADDRESS :: u8 where [const_defs]: "TLV_IPV6_ADDRESS = 49"
definition TLV_STEERING_DATA :: u8 where [const_defs]: "TLV_STEERING_DATA = 8"
definition TLV_COUNT :: u8 where [const_defs]: "TLV_COUNT = 54"
definition TLV_PERIOD :: u8 where [const_defs]: "TLV_PERIOD = 55"
definition TLV_SCAN_DURATION :: u8 where [const_defs]: "TLV_SCAN_DURATION = 56"
definition TLV_ENERGY_LIST :: u8 where [const_defs]: "TLV_ENERGY_LIST = 57"
definition TLV_SECURE_DISSEMINATION :: u8 where [const_defs]: "TLV_SECURE_DISSEMINATION = 58"
definition TLV_AE_STEERING_DATA :: u8 where [const_defs]: "TLV_AE_STEERING_DATA = 61"
definition TLV_NMKP_STEERING_DATA :: u8 where [const_defs]: "TLV_NMKP_STEERING_DATA = 62"
definition TLV_AE_UDP_PORT :: u8 where [const_defs]: "TLV_AE_UDP_PORT = 65"
definition TLV_NMKP_UDP_PORT :: u8 where [const_defs]: "TLV_NMKP_UDP_PORT = 66"
definition THREAD_TLV_STATUS :: u8 where [const_defs]: "THREAD_TLV_STATUS = 4"
definition THREAD_TLV_TIMEOUT :: u8 where [const_defs]: "THREAD_TLV_TIMEOUT = 11"
definition THREAD_TLV_IPV6_ADDRESSES :: u8 where [const_defs]: "THREAD_TLV_IPV6_ADDRESSES = 14"
definition THREAD_TLV_COMMISSIONER_SESSION_ID :: u8 where [const_defs]: "THREAD_TLV_COMMISSIONER_SESSION_ID = 15"
definition NETWORK_DIAG_TLV_TYPE_LIST :: u8 where [const_defs]: "NETWORK_DIAG_TLV_TYPE_LIST = 18"
definition DEFAULT_MM_PORT :: u16 where [const_defs]: "DEFAULT_MM_PORT = 61631"
definition LEADER_ALOC16 :: u16 where [const_defs]: "LEADER_ALOC16 = 0xfc00"
definition PRIMARY_BBR_ALOC16 :: u16 where [const_defs]: "PRIMARY_BBR_ALOC16 = 0xfc38"
definition uri_PETITIONING :: bytes where [const_defs]: "uri_PETITIONING = str ''/c/cp''"
definition uri_KEEP_ALIVE :: bytes where [const_defs]: "uri_KEEP_ALIVE = str ''/c/ca''"
definition uri_MGMT_COMMISSIONER_GET :: bytes where [const_defs]: "uri_MGMT_COMMISSIONER_GET = str ''/c/cg''"
definition uri_MGMT_COMMISSIONER_SET :: bytes where [const_defs]: "uri_MGMT_COMMISSIONER_SET = str ''/c/cs''"
definition uri_MGMT_BBR_GET :: bytes where [const_defs]: "uri_MGMT_BBR_GET = str ''/c/bg''"
definition uri_MGMT_BBR_SET :: bytes where [const_defs]: "uri_MGMT_BBR_SET = str ''/c/bs''"
definition uri_MGMT_ACTIVE_GET :: bytes where [const_defs]: "uri_MGMT_ACTIVE_GET = str ''/c/ag''"
definition uri_MGMT_ACTIVE_SET :: bytes where [const_defs]: "uri_MGMT_ACTIVE_SET = str ''/c/as''"
definition uri_MGMT_PENDING_GET :: bytes where [const_defs]: "uri_MGMT_PENDING_GET = str ''/c/pg''"
definition uri_MGMT_PENDING_SET :: bytes where [const_defs]: "uri_MGMT_PENDING_SET = str ''/c/ps''"
definition uri_MGMT_DATASET_CHANGED :: bytes where [const_defs]: "uri_MGMT_DATASET_CHANGED = str ''/c/dc''"
definition uri_MGMT_ANNOUNCE_BEGIN :: bytes where [const_defs]: "uri_MGMT_ANNOUNCE_BEGIN = str ''/c/ab''"
definition uri_MGMT_PANID_QUERY :: bytes where [const_defs]: "uri_MGMT_PANID_QUERY = str ''/c/pq''"
definition uri_MGMT_PANID_CONFLICT :: bytes where [const_defs]: "uri_MGMT_PANID_CONFLICT = str ''/c/pc''"
definition uri_MGMT_ED_SCAN :: bytes where [const_defs]: "uri_MGMT_ED_SCAN = str ''/c/es''"
definition uri_MGMT_ED_REPORT :: bytes where [const_defs]: "uri_MGMT_ED_REPORT = str ''/c/er''"
definition uri_MGMT_REENROLL :: bytes where [const_defs]: "uri_MGMT_REENROLL = str ''/c/re''"
definition uri_MGMT_DOMAIN_RESET :: bytes where [const_defs]: "uri_MGMT_DOMAIN_RESET = str ''/c/rt''"
definition uri_MGMT_NET_MIGRATE :: bytes where [const_defs]: "uri_MGMT_NET_MIGRATE = str ''/c/nm''"
definition uri_MGMT_SEC_PENDING_SET :: bytes where [const_defs]: "uri_MGMT_SEC_PENDING_SET = str ''/c/sp''"
definition uri_RELAY_TX :: bytes where [const_defs]: "uri_RELAY_TX = str ''/c/tx''"
definition uri_RELAY_RX :: bytes where [const_defs]: "uri_RELAY_RX = str ''/c/rx''"
definition uri_UDP_TX :: bytes where [const_defs]: "uri_UDP_TX = str ''/c/ut''"
definition uri_UDP_RX :: bytes where [const_defs]: "uri_UDP_RX = str ''/c/ur''"
definition uri_JOIN_FIN :: bytes where [const_defs]: "uri_JOIN_FIN = str ''/c/jf''"
definition uri_DIAG_GET_REQUEST :: bytes where [const_defs]: "uri_DIAG_GET_REQUEST = str ''/d/dg''"
definition uri_DIAG_GET_QUERY :: bytes where [const_defs]: "uri_DIAG_GET_QUERY = str ''/d/dq''"
definition uri_DIAG_GET_ANSWER :: bytes where [const_defs]: "uri_DIAG_GET_ANSWER = str ''/d/da''"
definition uri_DIAG_RESET :: bytes where [const_defs]: "uri_DIAG_RESET = str ''/d/dr''"
definition uri_MLR :: bytes where [const_defs]: "uri_MLR = str ''/n/mr''"

section \<open>Flag tables\<close>

definition flag_types :: "u64 \<Rightarrow> (u64 \<times> u8) list \<Rightarrow> u8 list" where
  "flag_types flags mappings =
     List.map_filter (\<lambda>(b, t). if flags AND b \<noteq> 0 then Some t else None) mappings"

definition ACTIVE_TYPES :: "(u64 \<times> u8) list" where
  "ACTIVE_TYPES =
     [(push_bit 15 1, TLV_ACTIVE_TIMESTAMP),
      (push_bit 14 1, TLV_CHANNEL),
      (push_bit 13 1, TLV_CHANNEL_MASK),
      (push_bit 12 1, TLV_EXTENDED_PAN_ID),
      (push_bit 11 1, TLV_MESH_LOCAL_PREFIX),
      (push_bit 10 1, TLV_NETWORK_KEY),
      (push_bit 9 1, TLV_NETWORK_NAME),
      (push_bit 8 1, TLV_PAN_ID),
      (push_bit 7 1, TLV_PSKC),
      (push_bit 6 1, TLV_SECURITY_POLICY)]"

definition PENDING_TYPES :: "(u64 \<times> u8) list" where
  "PENDING_TYPES =
     [(push_bit 5 1, TLV_DELAY_TIMER),
      (push_bit 4 1, TLV_PENDING_TIMESTAMP)]"

definition dataset_tlv_types :: "u64 \<Rightarrow> bool \<Rightarrow> u8 list" where
  "dataset_tlv_types flags pending =
     (let types = flag_types flags ACTIVE_TYPES in
      if pending then types @ flag_types flags PENDING_TYPES else types)"

definition active_dataset_tlv_types :: "u64 \<Rightarrow> u8 list" where
  "active_dataset_tlv_types flags = dataset_tlv_types flags False"

definition pending_dataset_tlv_types :: "u64 \<Rightarrow> u8 list" where
  "pending_dataset_tlv_types flags = dataset_tlv_types flags True"

definition commissioner_dataset_tlv_types :: "u64 \<Rightarrow> u8 list" where
  "commissioner_dataset_tlv_types flags = flag_types flags
     [(push_bit 15 1, TLV_BORDER_AGENT_LOCATOR),
      (push_bit 14 1, TLV_COMMISSIONER_SESSION_ID),
      (push_bit 13 1, TLV_STEERING_DATA),
      (push_bit 12 1, TLV_AE_STEERING_DATA),
      (push_bit 11 1, TLV_NMKP_STEERING_DATA),
      (push_bit 10 1, TLV_JOINER_UDP_PORT),
      (push_bit 9 1, TLV_AE_UDP_PORT),
      (push_bit 8 1, TLV_NMKP_UDP_PORT)]"

definition network_diag_tlv_types :: "u64 \<Rightarrow> u8 list" where
  "network_diag_tlv_types flags = flag_types flags
     [(push_bit 0 1, 0), (push_bit 1 1, 1), (push_bit 2 1, 2), (push_bit 3 1, 5),
      (push_bit 4 1, 6), (push_bit 5 1, 8), (push_bit 8 1, 9), (push_bit 6 1, 16),
      (push_bit 7 1, 23), (push_bit 9 1, 30), (push_bit 10 1, 7), (push_bit 11 1, 3),
      (push_bit 12 1, 4), (push_bit 13 1, 14), (push_bit 14 1, 15), (push_bit 15 1, 17),
      (push_bit 16 1, 18)]"

lemma set_flag_types: "set (flag_types flags m) = {t. \<exists>b. (b, t) \<in> set m \<and> flags AND b \<noteq> 0}"
  by (force simp: flag_types_def List.map_filter_def image_iff split: if_splits)

lemma flag_types_distinct: "distinct (map snd m) \<Longrightarrow> distinct (flag_types flags m)"
proof (induction m)
  case (Cons p m)
  then show ?case
    using set_flag_types [of flags m]
    by (cases p) (force simp: flag_types_def List.map_filter_simps)
qed (simp add: flag_types_def List.map_filter_simps)

lemma dataset_tlv_types_distinct: "distinct (dataset_tlv_types flags pending)"
proof -
  have "distinct (flag_types flags (ACTIVE_TYPES @ PENDING_TYPES))"
    by (rule flag_types_distinct) (simp add: ACTIVE_TYPES_def PENDING_TYPES_def const_defs)
  moreover have "flag_types flags (ACTIVE_TYPES @ PENDING_TYPES)
      = flag_types flags ACTIVE_TYPES @ flag_types flags PENDING_TYPES"
    by (simp add: flag_types_def List.map_filter_def)
  ultimately show ?thesis
    by (simp add: dataset_tlv_types_def Let_def)
qed

end
