(* ===== verification/Datasets.thy ===== *)
theory Datasets
  imports Constants
begin

text \<open>
  Thread operational datasets (\<^verbatim>\<open>dataset.rs\<close>): the TLV container with typed accessors, and
  the value codecs for channels, timestamps, security policies and channel masks. A value
  that the Rust code holds as a fixed-size array is a byte list here, with the length checked
  where it enters.
\<close>

section \<open>Channels, timestamps and security policies\<close>

record Channel =
  ch_page :: u8
  channel_number :: u16

definition Channel_parse :: "bytes \<Rightarrow> error + Channel" where
  "Channel_parse v =
     (if length v \<noteq> 3 then Err (Dataset ''channel TLV must be 3 bytes'')
      else Ok \<lparr>ch_page = v ! 0, channel_number = from_be [v ! 1, v ! 2]\<rparr>)"

definition Channel_to_value :: "Channel \<Rightarrow> bytes" where
  "Channel_to_value c = [ch_page c] @ to_be 2 (channel_number c)"

datatype Timestamp = Timestamp (Timestamp_raw: u64)

definition Timestamp_from_components :: "u64 \<Rightarrow> u16 \<Rightarrow> bool \<Rightarrow> Timestamp" where
  "Timestamp_from_components seconds ticks authoritative =
     Timestamp (push_bit 16 seconds OR push_bit 1 (ucast ticks AND 0x7fff) OR of_bool authoritative)"

definition Timestamp_parse :: "bytes \<Rightarrow> error + Timestamp" where
  "Timestamp_parse v = and_then (map_err Tlv (tlv_read_u64 v)) (\<lambda>raw. Ok (Timestamp raw))"

definition Timestamp_seconds :: "Timestamp \<Rightarrow> u64" where
  "Timestamp_seconds t = drop_bit 16 (Timestamp_raw t)"

definition Timestamp_ticks :: "Timestamp \<Rightarrow> u16" where
  "Timestamp_ticks t = ucast (drop_bit 1 (Timestamp_raw t AND 0xfffe))"

definition Timestamp_authoritative :: "Timestamp \<Rightarrow> bool" where
  "Timestamp_authoritative t \<longleftrightarrow> Timestamp_raw t AND 1 = 1"

definition Timestamp_to_value :: "Timestamp \<Rightarrow> bytes" where
  "Timestamp_to_value t = to_be 8 (Timestamp_raw t)"

text \<open>\<open>derive(PartialOrd, Ord)\<close>: timestamps are ordered by their raw bits.\<close>

instantiation Timestamp :: linorder
begin

definition less_eq_Timestamp :: "Timestamp \<Rightarrow> Timestamp \<Rightarrow> bool" where
  "less_eq_Timestamp s t \<longleftrightarrow> Timestamp_raw s \<le> Timestamp_raw t"

definition less_Timestamp :: "Timestamp \<Rightarrow> Timestamp \<Rightarrow> bool" where
  "less_Timestamp s t \<longleftrightarrow> Timestamp_raw s < Timestamp_raw t"

instance
  by standard (auto simp: less_eq_Timestamp_def less_Timestamp_def intro: Timestamp.expand)

end

type_synonym SecurityPolicyFlags = u16

definition VERSION_THRESHOLD_MASK :: u16 where [const_defs]: "VERSION_THRESHOLD_MASK = 0xe000"

definition flags_contains :: "'a::len word \<Rightarrow> 'a word \<Rightarrow> bool" where
  "flags_contains flags m \<longleftrightarrow> flags AND m = m"

record SecurityPolicy =
  rotation_time :: u16
  sp_flags :: SecurityPolicyFlags

definition SecurityPolicy_parse :: "bytes \<Rightarrow> error + SecurityPolicy" where
  "SecurityPolicy_parse v =
     (if length v \<noteq> 4 then Err (Dataset ''security policy TLV must be 4 bytes'')
      else Ok \<lparr>rotation_time = from_be [v ! 0, v ! 1], sp_flags = from_be [v ! 2, v ! 3]\<rparr>)"

definition SecurityPolicy_to_value :: "SecurityPolicy \<Rightarrow> bytes" where
  "SecurityPolicy_to_value p = to_be 2 (rotation_time p) @ to_be 2 (sp_flags p)"

datatype ThreadProtocolVersion = V1Or2 | V3 | V4 | V5 | V6 | V7 | V8 | V9 | V10

definition version_from_bits :: "u8 \<Rightarrow> ThreadProtocolVersion" where
  "version_from_bits bits =
     (let b = bits AND 0x07 in
      if b = 0 then V3 else if b = 1 then V4 else if b = 2 then V5 else if b = 3 then V6
      else if b = 4 then V7 else if b = 5 then V8 else if b = 6 then V9 else V10)"

fun version_to_bits :: "ThreadProtocolVersion \<Rightarrow> u8" where
  "version_to_bits V1Or2 = 7"
| "version_to_bits V10 = 7"
| "version_to_bits V3 = 0"
| "version_to_bits V4 = 1"
| "version_to_bits V5 = 2"
| "version_to_bits V6 = 3"
| "version_to_bits V7 = 4"
| "version_to_bits V8 = 5"
| "version_to_bits V9 = 6"

definition version_threshold_for_routing :: "SecurityPolicyFlags \<Rightarrow> ThreadProtocolVersion" where
  "version_threshold_for_routing flags =
     (if flags_contains flags LEGACY_ROUTERS_ENABLED then V1Or2
      else version_from_bits (ucast (drop_bit 13 (flags AND VERSION_THRESHOLD_MASK))))"

definition set_version_threshold_for_routing ::
  "ThreadProtocolVersion \<Rightarrow> SecurityPolicyFlags \<Rightarrow> SecurityPolicyFlags" where
  "set_version_threshold_for_routing version flags =
     (case version of
        V1Or2 \<Rightarrow> flags OR LEGACY_ROUTERS_ENABLED
      | _ \<Rightarrow>
         (let flags = flags AND NOT LEGACY_ROUTERS_ENABLED;
              cleared = flags AND NOT VERSION_THRESHOLD_MASK
          in cleared OR push_bit 13 (ucast (version_to_bits version))))"

section \<open>Channel masks\<close>

record ChannelMaskEntry =
  cm_page :: u8
  cm_mask :: bytes

definition ChannelMaskEntry_parse_one :: "bytes \<Rightarrow> error + ChannelMaskEntry \<times> bytes" where
  "ChannelMaskEntry_parse_one v =
     (if length v < 2 then Err (Dataset ''channel mask entry header is truncated'')
      else
        let page = v ! 0; len = unat (v ! 1); v = drop 2 v in
        if length v < len then Err (Dataset ''channel mask entry value is truncated'')
        else Ok (\<lparr>cm_page = page, cm_mask = take len v\<rparr>, drop len v))"

lemma ChannelMaskEntry_parse_one_shrinks:
  "ChannelMaskEntry_parse_one v = Inr (e, rest) \<Longrightarrow> length rest < length v"
  by (auto simp: ChannelMaskEntry_parse_one_def Let_def split: if_splits)

function ChannelMaskEntry_parse_all :: "bytes \<Rightarrow> error + ChannelMaskEntry list" where
  "ChannelMaskEntry_parse_all v =
     (if v = [] then Ok []
      else and_then (ChannelMaskEntry_parse_one v)
        (\<lambda>(e, rest). and_then (ChannelMaskEntry_parse_all rest) (\<lambda>es. Ok (e # es))))"
  by pat_completeness auto
termination
  by (relation "measure length") (auto dest: ChannelMaskEntry_parse_one_shrinks)

declare ChannelMaskEntry_parse_all.simps [simp del]

definition ChannelMaskEntry_encode_one :: "ChannelMaskEntry \<Rightarrow> error + bytes" where
  "ChannelMaskEntry_encode_one e =
     (if length (cm_mask e) > 255 then Err (Dataset ''channel mask entry too long'')
      else Ok ([cm_page e, of_nat (length (cm_mask e))] @ cm_mask e))"

fun ChannelMaskEntry_encode_all :: "ChannelMaskEntry list \<Rightarrow> error + bytes" where
  "ChannelMaskEntry_encode_all [] = Ok []"
| "ChannelMaskEntry_encode_all (e # es) =
     and_then (ChannelMaskEntry_encode_one e)
       (\<lambda>b. and_then (ChannelMaskEntry_encode_all es) (\<lambda>c. Ok (b @ c)))"

section \<open>The dataset container\<close>

record Dataset =
  tlvs :: TlvSet

definition read_array :: "nat \<Rightarrow> bytes \<Rightarrow> error + bytes" where
  "read_array n v =
     (if length v = n then Ok v
      else Err (Dataset (''expected '' @ show_nat n @ '' bytes, got '' @ show_nat (length v))))"

definition Dataset_from_bytes :: "bytes \<Rightarrow> error + Dataset" where
  "Dataset_from_bytes bs = and_then (map_err Tlv (TlvSet_parse bs)) (\<lambda>t. Ok \<lparr>tlvs = t\<rparr>)"

definition Dataset_to_bytes :: "Dataset \<Rightarrow> error + bytes" where
  "Dataset_to_bytes d = map_err Tlv (TlvSet_encode (tlvs d))"

text \<open>The \<open>hex\<close> crate is a parameter.\<close>

definition Dataset_from_hex :: "(bytes \<Rightarrow> string + bytes) \<Rightarrow> bytes \<Rightarrow> error + Dataset" where
  "Dataset_from_hex hex_decode h = and_then (map_err Hex (hex_decode h)) Dataset_from_bytes"

definition Dataset_to_hex :: "(bytes \<Rightarrow> bytes) \<Rightarrow> Dataset \<Rightarrow> error + bytes" where
  "Dataset_to_hex hex_encode d = and_then (Dataset_to_bytes d) (\<lambda>bs. Ok (hex_encode bs))"

definition Dataset_raw :: "Dataset \<Rightarrow> u8 \<Rightarrow> bytes option" where
  "Dataset_raw d t = last_value (tlvs d) t"

definition Dataset_remove_all :: "u8 \<Rightarrow> Dataset \<Rightarrow> Dataset" where
  "Dataset_remove_all t d =
     d\<lparr>tlvs := (tlvs d)\<lparr>entries := filter (\<lambda>e. \<not> ty e = t) (entries (tlvs d))\<rparr>\<rparr>"

definition Dataset_set_raw :: "u8 \<Rightarrow> bytes \<Rightarrow> Dataset \<Rightarrow> Dataset" where
  "Dataset_set_raw t v d =
     (let d = Dataset_remove_all t d in d\<lparr>tlvs := TlvSet_push (TlvEntry_new t v) (tlvs d)\<rparr>)"

definition Dataset_pskc :: "Dataset \<Rightarrow> bytes option" where
  "Dataset_pskc d = Dataset_raw d TLV_PSKC"

definition Dataset_network_name :: "Dataset \<Rightarrow> error + bytes option" where
  "Dataset_network_name d =
     map_transpose
       (\<lambda>v. if valid_utf8 v then Ok v else Err (Dataset ''network name is not UTF-8''))
       (Dataset_raw d TLV_NETWORK_NAME)"

definition Dataset_channel :: "Dataset \<Rightarrow> error + Channel option" where
  "Dataset_channel d = map_transpose Channel_parse (Dataset_raw d TLV_CHANNEL)"

definition Dataset_pan_id :: "Dataset \<Rightarrow> error + u16 option" where
  "Dataset_pan_id d = map_err Tlv (map_transpose tlv_read_u16 (Dataset_raw d TLV_PAN_ID))"

definition Dataset_extended_pan_id :: "Dataset \<Rightarrow> error + bytes option" where
  "Dataset_extended_pan_id d = map_transpose (read_array 8) (Dataset_raw d TLV_EXTENDED_PAN_ID)"

definition Dataset_network_key :: "Dataset \<Rightarrow> error + bytes option" where
  "Dataset_network_key d = map_transpose (read_array 16) (Dataset_raw d TLV_NETWORK_KEY)"

definition Dataset_mesh_local_prefix :: "Dataset \<Rightarrow> error + bytes option" where
  "Dataset_mesh_local_prefix d = map_transpose (read_array 8) (Dataset_raw d TLV_MESH_LOCAL_PREFIX)"

definition Dataset_active_timestamp :: "Dataset \<Rightarrow> error + Timestamp option" where
  "Dataset_active_timestamp d = map_transpose Timestamp_parse (Dataset_raw d TLV_ACTIVE_TIMESTAMP)"

definition Dataset_pending_timestamp :: "Dataset \<Rightarrow> error + Timestamp option" where
  "Dataset_pending_timestamp d = map_transpose Timestamp_parse (Dataset_raw d TLV_PENDING_TIMESTAMP)"

definition Dataset_delay_timer :: "Dataset \<Rightarrow> error + u32 option" where
  "Dataset_delay_timer d = map_err Tlv (map_transpose tlv_read_u32 (Dataset_raw d TLV_DELAY_TIMER))"

definition Dataset_security_policy :: "Dataset \<Rightarrow> error + SecurityPolicy option" where
  "Dataset_security_policy d =
     map_transpose SecurityPolicy_parse (Dataset_raw d TLV_SECURITY_POLICY)"

definition Dataset_channel_mask :: "Dataset \<Rightarrow> error + ChannelMaskEntry list option" where
  "Dataset_channel_mask d =
     map_transpose ChannelMaskEntry_parse_all (Dataset_raw d TLV_CHANNEL_MASK)"

section \<open>Value codecs\<close>

lemma Channel_parse_to_value [simp]: "Channel_parse (Channel_to_value c) = Ok c"
  by (cases c) (simp add: Channel_parse_def Channel_to_value_def to_be_unfold)

lemma Timestamp_parse_to_value [simp]: "Timestamp_parse (Timestamp_to_value t) = Ok t"
  by (cases t)
    (simp add: Timestamp_parse_def Timestamp_to_value_def tlv_read_u64_def wire_read_u64_def)

lemma SecurityPolicy_parse_to_value [simp]: "SecurityPolicy_parse (SecurityPolicy_to_value p) = Ok p"
  by (cases p) (simp add: SecurityPolicy_parse_def SecurityPolicy_to_value_def to_be_unfold)

lemma ChannelMaskEntry_parse_all_step:
  "v \<noteq> [] \<Longrightarrow> ChannelMaskEntry_parse_all v = Inr zs \<longleftrightarrow>
     (\<exists>y ys rest. ChannelMaskEntry_parse_one v = Inr (y, rest) \<and>
        ChannelMaskEntry_parse_all rest = Inr ys \<and> zs = y # ys)"
  by (subst ChannelMaskEntry_parse_all.simps) (auto simp: result_simps)

interpretation channel_mask: canonical_codec "\<lambda>_. True" ChannelMaskEntry_encode_one ChannelMaskEntry_parse_one
    ChannelMaskEntry_encode_all ChannelMaskEntry_parse_all
proof
  show "ChannelMaskEntry_encode_one x = Inr bs \<Longrightarrow>
      ChannelMaskEntry_parse_one (bs @ rest) = Inr (x, rest)" for x bs rest
    by (cases x) (auto simp: ChannelMaskEntry_encode_one_def ChannelMaskEntry_parse_one_def split: if_splits)
  show "ChannelMaskEntry_encode_one x \<noteq> Inr []" for x
    by (simp add: ChannelMaskEntry_encode_one_def)
  show "ChannelMaskEntry_encode_all (x # xs) = Inr bs \<longleftrightarrow>
      (\<exists>b c. ChannelMaskEntry_encode_one x = Inr b \<and> ChannelMaskEntry_encode_all xs = Inr c \<and> bs = b @ c)"
    for x xs bs
    by (auto simp: result_simps)
  show "ChannelMaskEntry_parse_all [] = Inr []"
    by (simp add: ChannelMaskEntry_parse_all.simps)
  show "ChannelMaskEntry_parse_one bs = Inr (x, rest) \<Longrightarrow>
      True \<and> (\<exists>b. ChannelMaskEntry_encode_one x = Inr b \<and> bs = b @ rest)" for bs x rest
    using unat_u8_le [of "bs ! 1"]
    by (cases bs; cases "tl bs")
      (auto simp: ChannelMaskEntry_encode_one_def ChannelMaskEntry_parse_one_def Let_def min_def
        simp del: unat_u8_le split: if_splits)
qed (simp_all add: ChannelMaskEntry_parse_all_step)

section \<open>Version thresholds\<close>

lemma bit_LEGACY_ROUTERS_ENABLED: "bit LEGACY_ROUTERS_ENABLED n \<longleftrightarrow> n = 2"
proof -
  have "bit (push_bit 2 1 :: u16) n \<longleftrightarrow> n = 2"
    by (auto simp: bit_push_bit_iff bit_1_iff simp del: push_bit_of_1)
  then show ?thesis
    by (simp add: const_defs)
qed

lemma bit_VERSION_THRESHOLD_MASK: "bit VERSION_THRESHOLD_MASK n \<longleftrightarrow> 13 \<le> n \<and> n < 16"
proof -
  have "bit (push_bit 13 (mask 3) :: u16) n \<longleftrightarrow> 13 \<le> n \<and> n < 16"
    by (auto simp: bit_push_bit_iff bit_mask_iff)
  then show ?thesis
    by (simp add: const_defs mask_eq_exp_minus_1)
qed

lemmas bit_flag_masks = bit_LEGACY_ROUTERS_ENABLED bit_VERSION_THRESHOLD_MASK

lemma contains_legacy: "flags_contains flags LEGACY_ROUTERS_ENABLED \<longleftrightarrow> bit flags 2"
  unfolding flags_contains_def bit_eq_iff by (auto simp: bit_and_iff bit_flag_masks dest: spec [of _ 2])

lemma version_field: "drop_bit 13 (w AND VERSION_THRESHOLD_MASK) = drop_bit 13 w"
  by (rule bit_word_eqI) (auto simp: bit_and_iff bit_drop_bit_eq bit_flag_masks dest: bit_imp_le_length)

lemma version_from_to_bits: "v \<noteq> V1Or2 \<Longrightarrow> version_from_bits (version_to_bits v) = v"
  by (cases v) (simp_all add: version_from_bits_def)

lemma version_to_bits_bits: "bit (version_to_bits v) n \<Longrightarrow> n < 3"
proof -
  have "version_to_bits v AND mask 3 = version_to_bits v"
    by (cases v) (simp_all add: mask_eq_exp_minus_1)
  then show "bit (version_to_bits v) n \<Longrightarrow> n < 3"
    by (metis bit_and_iff bit_mask_iff)
qed

text \<open>The bits the setter may change: the legacy flag and the version field.\<close>

lemma bit_set_version:
  assumes "v \<noteq> V1Or2"
  shows "bit (set_version_threshold_for_routing v flags) n \<longleftrightarrow>
     (if 13 \<le> n then n < 16 \<and> bit (version_to_bits v) (n - 13) else n \<noteq> 2 \<and> bit flags n)"
proof -
  have "set_version_threshold_for_routing v flags =
      (flags AND NOT LEGACY_ROUTERS_ENABLED) AND NOT VERSION_THRESHOLD_MASK OR
      push_bit 13 (ucast (version_to_bits v))"
    using assms by (cases v) (simp_all add: set_version_threshold_for_routing_def)
  then show ?thesis
    by (auto simp: bit_or_iff bit_and_iff bit_not_iff bit_push_bit_iff bit_ucast_iff bit_flag_masks
        dest: bit_imp_le_length version_to_bits_bits)
qed

text \<open>Setting the routing version threshold and reading it back gives the version that was
  set, for every version and every prior flag word, and changes no bit outside the legacy-routers
  flag and the version field.\<close>

theorem version_threshold_set_get:
  "version_threshold_for_routing (set_version_threshold_for_routing v flags) = v \<and>
   (\<forall>n. \<not> bit (LEGACY_ROUTERS_ENABLED OR VERSION_THRESHOLD_MASK) n \<longrightarrow>
      (bit (set_version_threshold_for_routing v flags) n \<longleftrightarrow> bit flags n))"
proof (cases "v = V1Or2")
  case True
  then show ?thesis
    by (simp add: version_threshold_for_routing_def contains_legacy bit_flag_masks bit_or_iff
        set_version_threshold_for_routing_def)
next
  case False
  let ?w = "set_version_threshold_for_routing v flags"
  have "ucast (drop_bit 13 ?w) = version_to_bits v"
    by (rule bit_word_eqI)
      (auto simp: bit_ucast_iff bit_drop_bit_eq bit_set_version False dest: version_to_bits_bits)
  moreover have "\<not> bit ?w 2"
    using False by (simp add: bit_set_version)
  ultimately have "version_threshold_for_routing ?w = v"
    using False by (simp add: version_threshold_for_routing_def contains_legacy version_field
        version_from_to_bits del: drop_bit_and)
  then show ?thesis
    using False by (auto simp: bit_or_iff bit_flag_masks bit_set_version dest: bit_imp_le_length)
qed

theorem version_threshold_set_get_witness:
  "version_threshold_for_routing (set_version_threshold_for_routing V5 0xffff) = V5 \<and>
   bit (set_version_threshold_for_routing V5 0xffff) 0"
proof -
  have "\<not> bit (LEGACY_ROUTERS_ENABLED OR VERSION_THRESHOLD_MASK) 0"
    by (simp add: const_defs)
  moreover have "bit (0xffff :: u16) 0"
    by simp
  ultimately show ?thesis
    using version_threshold_set_get [of V5 "0xffff"] by blast
qed

section \<open>Timestamps\<close>

lemma bit_0x7fff: "bit (0x7fff :: u64) n \<longleftrightarrow> n < 15"
proof -
  have "bit (mask 15 :: u64) n \<longleftrightarrow> n < 15"
    by (auto simp: bit_mask_iff)
  then show ?thesis
    by (simp add: mask_eq_exp_minus_1)
qed

lemma bit_0xfffe: "bit (0xfffe :: u64) n \<longleftrightarrow> 0 < n \<and> n < 16"
proof -
  have "bit (push_bit 1 (mask 15) :: u64) n \<longleftrightarrow> 0 < n \<and> n < 16"
    unfolding bit_push_bit_iff bit_mask_iff by auto
  then show ?thesis
    by (simp add: mask_eq_exp_minus_1)
qed

lemma and_1_eq_1: "(w :: u64) AND 1 = 1 \<longleftrightarrow> bit w 0"
  unfolding bit_eq_iff by (auto simp: bit_and_iff bit_1_iff dest: spec [of _ 0])

lemma bit_from_components:
  "bit (Timestamp_raw (Timestamp_from_components s t a)) n \<longleftrightarrow>
     (if n = 0 then a else if n < 16 then bit t (n - 1) else n < 64 \<and> bit s (n - 16))"
proof -
  have a: "bit (of_bool a :: u64) n \<longleftrightarrow> a \<and> n = 0" for n
    by (cases a) (auto simp: bit_1_iff)
  show ?thesis
    unfolding Timestamp_from_components_def Timestamp.sel bit_or_iff bit_push_bit_iff bit_and_iff
      bit_ucast_iff bit_0x7fff a
    by (auto dest: bit_imp_le_length)
qed

lemma Timestamp_seconds_from_components:
  "Timestamp_seconds (Timestamp_from_components s t a) = take_bit 48 s"
  by (rule bit_word_eqI)
    (auto simp: Timestamp_seconds_def bit_drop_bit_eq bit_from_components bit_take_bit_iff)

lemma bit_Timestamp_ticks: "bit (Timestamp_ticks ts) n \<longleftrightarrow> n < 15 \<and> bit (Timestamp_raw ts) (Suc n)"
  unfolding Timestamp_ticks_def bit_ucast_iff bit_drop_bit_eq comp_def bit_and_iff bit_0xfffe by auto

lemma Timestamp_ticks_from_components:
  "Timestamp_ticks (Timestamp_from_components s t a) = take_bit 15 t"
  by (rule bit_word_eqI) (auto simp: bit_Timestamp_ticks bit_from_components bit_take_bit_iff)

lemma Timestamp_authoritative_from_components:
  "Timestamp_authoritative (Timestamp_from_components s t a) = a"
  by (simp add: Timestamp_authoritative_def and_1_eq_1 bit_from_components)

lemma Timestamp_from_fields:
  "Timestamp_from_components (Timestamp_seconds ts) (Timestamp_ticks ts) (Timestamp_authoritative ts) = ts"
proof (rule Timestamp.expand, rule bit_word_eqI)
  fix n
  assume "n < LENGTH(64)"
  then show "bit (Timestamp_raw (Timestamp_from_components (Timestamp_seconds ts) (Timestamp_ticks ts)
      (Timestamp_authoritative ts))) n \<longleftrightarrow> bit (Timestamp_raw ts) n"
    unfolding bit_from_components bit_Timestamp_ticks
    by (auto simp: Timestamp_authoritative_def and_1_eq_1 Timestamp_seconds_def bit_drop_bit_eq)
qed

lemma packed_split: "(r :: nat) = r div 65536 * 65536 + r div 2 mod 32768 * 2 + r mod 2"
proof -
  have "r div 2 * 2 = (r div 65536 * 32768 + r div 2 mod 32768) * 2"
    using div_mult_mod_eq [of "r div 2" 32768] div_mult2_eq [of r 2 32768] by simp
  then show ?thesis
    using div_mult_mod_eq [of r 2] by (simp add: add_mult_distrib)
qed

text \<open>The raw bits as a number, from the three fields.\<close>

lemma Timestamp_raw_arith:
  "unat (Timestamp_raw ts) =
     unat (Timestamp_seconds ts) * 2 ^ 16 + unat (Timestamp_ticks ts) * 2 + of_bool (Timestamp_authoritative ts)"
proof -
  let ?r = "unat (Timestamp_raw ts)"
  have s: "unat (Timestamp_seconds ts) = ?r div 2 ^ 16"
    unfolding Timestamp_seconds_def unat_drop_bit_eq by (simp add: drop_bit_eq_div)
  have "Timestamp_ticks ts = ucast (take_bit 15 (drop_bit 1 (Timestamp_raw ts)))"
    by (rule bit_word_eqI) (auto simp: bit_Timestamp_ticks bit_ucast_iff bit_take_bit_iff bit_drop_bit_eq)
  then have t: "unat (Timestamp_ticks ts) = ?r div 2 mod 2 ^ 15"
    by (simp only: unsigned_ucast_eq unsigned_take_bit_eq unat_drop_bit_eq take_bit_take_bit)
      (simp add: take_bit_eq_mod drop_bit_eq_div)
  have a: "Timestamp_authoritative ts \<longleftrightarrow> odd ?r"
    unfolding Timestamp_authoritative_def and_1_eq_1
    by (simp only: bit_unsigned_iff bit_0 [symmetric]) simp
  have "(2 ^ 16 :: nat) = 65536" "(2 ^ 15 :: nat) = 32768"
    by simp_all
  then show ?thesis
    unfolding s t a of_bool_odd_eq_mod_2 by (simp only:) (rule packed_split)
qed

lemma packed_pair_less:
  "r < 65536 \<Longrightarrow> r' < 65536 \<Longrightarrow> s * 65536 + r < s' * 65536 + r' \<longleftrightarrow> s < s' \<or> s = s' \<and> r < (r' :: nat)"
  by (cases s s' rule: linorder_cases) linarith+

lemma packed_less:
  fixes s t s' t' :: nat
  assumes "t < 2 ^ 15" "t' < 2 ^ 15"
  shows "s * 2 ^ 16 + t * 2 + of_bool a < s' * 2 ^ 16 + t' * 2 + of_bool a' \<longleftrightarrow>
    s < s' \<or> s = s' \<and> (t < t' \<or> t = t' \<and> \<not> a \<and> a')"
proof -
  have "t * 2 + of_bool a < 65536" "t' * 2 + of_bool a' < 65536"
    using assms by (cases a; cases a'; simp)+
  then have "s * 2 ^ 16 + t * 2 + of_bool a < s' * 2 ^ 16 + t' * 2 + of_bool a' \<longleftrightarrow>
      s < s' \<or> s = s' \<and> t * 2 + of_bool a < t' * 2 + of_bool a'"
    using packed_pair_less [of "t * 2 + of_bool a" "t' * 2 + of_bool a'" s s'] by (simp add: add.assoc)
  then show ?thesis
    by (cases a; cases a') auto
qed

lemma Timestamp_ticks_bound: "unat (Timestamp_ticks ts) < 2 ^ 15"
proof -
  have "Timestamp_ticks ts = take_bit 15 (Timestamp_ticks ts)"
    by (rule bit_word_eqI) (auto simp: bit_take_bit_iff bit_Timestamp_ticks)
  then show ?thesis
    by (metis take_bit_nat_less_exp unsigned_take_bit_eq)
qed

lemma Timestamp_less_iff:
  "x < y \<longleftrightarrow>
     Timestamp_seconds x < Timestamp_seconds y \<or>
     Timestamp_seconds x = Timestamp_seconds y \<and>
       (Timestamp_ticks x < Timestamp_ticks y \<or>
        Timestamp_ticks x = Timestamp_ticks y \<and>
          \<not> Timestamp_authoritative x \<and> Timestamp_authoritative y)"
  unfolding less_Timestamp_def word_less_nat_alt Timestamp_raw_arith
    packed_less [OF Timestamp_ticks_bound Timestamp_ticks_bound] word_unat_eq_iff ..

text \<open>A timestamp is its three fields: building one from components keeps the low 48 bits of
  the seconds, the low 15 bits of the ticks and the authoritative flag, rebuilding from the
  fields gives the same timestamp, and the derived order of raw words is the lexicographic order
  of seconds, ticks and flag.\<close>

theorem timestamp_fields_and_order:
  "Timestamp_seconds (Timestamp_from_components s t a) = take_bit 48 s \<and>
   Timestamp_ticks (Timestamp_from_components s t a) = take_bit 15 t \<and>
   Timestamp_authoritative (Timestamp_from_components s t a) = a \<and>
   Timestamp_from_components (Timestamp_seconds x) (Timestamp_ticks x) (Timestamp_authoritative x) = x \<and>
   (x < y \<longleftrightarrow>
      Timestamp_seconds x < Timestamp_seconds y \<or>
      Timestamp_seconds x = Timestamp_seconds y \<and>
        (Timestamp_ticks x < Timestamp_ticks y \<or>
         Timestamp_ticks x = Timestamp_ticks y \<and>
           \<not> Timestamp_authoritative x \<and> Timestamp_authoritative y))"
  by (simp add: Timestamp_seconds_from_components Timestamp_ticks_from_components
      Timestamp_authoritative_from_components Timestamp_from_fields Timestamp_less_iff)

section \<open>The dataset as a map\<close>

text \<open>A store whose entries can also be removed.\<close>

locale tlv_store_del = tlv_store +
  fixes del :: "u8 \<Rightarrow> 's \<Rightarrow> 's"
  assumes get_del: "get (del t s) = (get s)(t := None)"
begin

lemma get_put_del: "get (put t v (del t s)) = get (put t v s)"
  by (simp add: get_put get_del)

lemma get_del_put: "t \<noteq> u \<Longrightarrow> get (del t (put u v s)) = get (put u v (del t s))"
  by (auto simp: get_put get_del)

end

lemma find_rev_removed: "find (\<lambda>e. ty e = t) (rev (filter (\<lambda>e. ty e \<noteq> t) es)) = None"
  by (auto simp: find_None_iff)

lemma Dataset_raw_remove_all: "Dataset_raw (Dataset_remove_all t d) = (Dataset_raw d)(t := None)"
  by (auto simp: Dataset_raw_def Dataset_remove_all_def last_value_def find_rev_filter find_rev_removed)

lemma Dataset_raw_set_raw: "Dataset_raw (Dataset_set_raw t v d) = (Dataset_raw d)(t \<mapsto> v)"
proof -
  have "Dataset_raw (Dataset_set_raw t v d) = (Dataset_raw (Dataset_remove_all t d))(t \<mapsto> v)"
    by (simp add: Dataset_set_raw_def Dataset_raw_def last_value_push fun_eq_iff Let_def)
  then show ?thesis
    by (simp add: Dataset_raw_remove_all)
qed

interpretation dataset_store: tlv_store_del Dataset_raw Dataset_set_raw Dataset_remove_all
  by unfold_locales (rule Dataset_raw_set_raw, rule Dataset_raw_remove_all)

lemmas dataset_accessor_defs =
  Dataset_pskc_def Dataset_network_name_def Dataset_channel_def Dataset_pan_id_def
  Dataset_extended_pan_id_def Dataset_network_key_def Dataset_mesh_local_prefix_def
  Dataset_active_timestamp_def Dataset_pending_timestamp_def Dataset_delay_timer_def
  Dataset_security_policy_def Dataset_channel_mask_def

text \<open>Every typed accessor of a dataset returns what was last stored under its type as the
  value's own encoding.\<close>

theorem dataset_accessors:
  "Dataset_channel (Dataset_set_raw TLV_CHANNEL (Channel_to_value c) d) = Ok (Some c) \<and>
   Dataset_pan_id (Dataset_set_raw TLV_PAN_ID (to_be 2 p) d) = Ok (Some p) \<and>
   Dataset_active_timestamp (Dataset_set_raw TLV_ACTIVE_TIMESTAMP (Timestamp_to_value t) d) = Ok (Some t) \<and>
   Dataset_pending_timestamp (Dataset_set_raw TLV_PENDING_TIMESTAMP (Timestamp_to_value t) d) = Ok (Some t) \<and>
   Dataset_delay_timer (Dataset_set_raw TLV_DELAY_TIMER (to_be 4 w) d) = Ok (Some w) \<and>
   Dataset_security_policy (Dataset_set_raw TLV_SECURITY_POLICY (SecurityPolicy_to_value sp) d) = Ok (Some sp) \<and>
   (if \<forall>e\<in>set es. length (cm_mask e) \<le> 255
    then \<exists>v. ChannelMaskEntry_encode_all es = Ok v \<and>
      Dataset_channel_mask (Dataset_set_raw TLV_CHANNEL_MASK v d) = Ok (Some es)
    else ChannelMaskEntry_encode_all es = Err (Dataset ''channel mask entry too long''))"
proof -
  have mask: "if \<forall>e\<in>set es. length (cm_mask e) \<le> 255
      then \<exists>v. ChannelMaskEntry_encode_all es = Ok v
      else ChannelMaskEntry_encode_all es = Err (Dataset ''channel mask entry too long'')"
    by (induction es) (auto simp: ChannelMaskEntry_encode_one_def split: if_splits)
  have stored: "ChannelMaskEntry_encode_all es = Ok v \<Longrightarrow>
      Dataset_channel_mask (Dataset_set_raw TLV_CHANNEL_MASK v d) = Ok (Some es)" for v
    by (simp add: dataset_accessor_defs dataset_store.get_put channel_mask.dec_all_enc_all)
  from mask stored have "if \<forall>e\<in>set es. length (cm_mask e) \<le> 255
      then \<exists>v. ChannelMaskEntry_encode_all es = Ok v \<and>
        Dataset_channel_mask (Dataset_set_raw TLV_CHANNEL_MASK v d) = Ok (Some es)
      else ChannelMaskEntry_encode_all es = Err (Dataset ''channel mask entry too long'')"
    by (auto split: if_splits)
  moreover have
    "Dataset_channel (Dataset_set_raw TLV_CHANNEL (Channel_to_value c) d) = Ok (Some c)"
    "Dataset_pan_id (Dataset_set_raw TLV_PAN_ID (to_be 2 p) d) = Ok (Some p)"
    "Dataset_active_timestamp (Dataset_set_raw TLV_ACTIVE_TIMESTAMP (Timestamp_to_value t) d) = Ok (Some t)"
    "Dataset_pending_timestamp (Dataset_set_raw TLV_PENDING_TIMESTAMP (Timestamp_to_value t) d) = Ok (Some t)"
    "Dataset_delay_timer (Dataset_set_raw TLV_DELAY_TIMER (to_be 4 w) d) = Ok (Some w)"
    "Dataset_security_policy (Dataset_set_raw TLV_SECURITY_POLICY (SecurityPolicy_to_value sp) d) = Ok (Some sp)"
    by (simp_all add: dataset_accessor_defs dataset_store.get_put tlv_read_u16_def wire_read_u16_def
        tlv_read_u32_def wire_read_u32_def)
  ultimately show ?thesis
    by (intro conjI)
qed

theorem dataset_accessors_witness:
  "\<exists>v. ChannelMaskEntry_encode_all [\<lparr>cm_page = 0, cm_mask = [0, 0x1f, 0xff, 0xe0]\<rparr>] = Ok v \<and>
     Dataset_channel_mask (Dataset_set_raw TLV_CHANNEL_MASK v \<lparr>tlvs = \<lparr>entries = []\<rparr>\<rparr>)
       = Ok (Some [\<lparr>cm_page = 0, cm_mask = [0, 0x1f, 0xff, 0xe0]\<rparr>])"
proof -
  let ?es = "[\<lparr>cm_page = 0, cm_mask = [0, 0x1f, 0xff, 0xe0]\<rparr>]"
  have short: "\<forall>e\<in>set ?es. length (cm_mask e) \<le> 255"
    by simp
  have "if \<forall>e\<in>set ?es. length (cm_mask e) \<le> 255 then ?thesis
      else ChannelMaskEntry_encode_all ?es = Err (Dataset ''channel mask entry too long'')"
    using dataset_accessors [of "\<lparr>ch_page = 0, channel_number = 25\<rparr>" "\<lparr>tlvs = \<lparr>entries = []\<rparr>\<rparr>"
        "0x01ff" "Timestamp 0" 30000 "\<lparr>rotation_time = 672, sp_flags = 0xfff8\<rparr>" ?es]
    by (elim conjE)
  then show ?thesis
    using short by (simp only: if_True)
qed

end
