(* ===== verification/Coap.thy ===== *)
theory Coap
  imports Constants "HOL-Library.Product_Lexorder"
begin

text \<open>
  The CoAP message codec (\<^verbatim>\<open>meshcop/coap.rs\<close>): message construction, Uri-Path handling, and
  the option-delta wire format with its extended nibbles. Shown: encoding succeeds on every
  message with a token of at most 8 bytes and option values of at most 65535 bytes, decoding
  gives the message back with its options stably sorted by number, decoded messages are stable
  under re-encoding, and the Uri-Path setter and getter are inverse.
\<close>

section \<open>Messages\<close>

datatype CoapType = Confirmable | NonConfirmable | Acknowledgement | Reset

fun CoapType_as_u8 :: "CoapType \<Rightarrow> u8" where
  "CoapType_as_u8 Confirmable = 0"
| "CoapType_as_u8 NonConfirmable = 1"
| "CoapType_as_u8 Acknowledgement = 2"
| "CoapType_as_u8 Reset = 3"

definition CoapType_try_from :: "u8 \<Rightarrow> error + CoapType" where
  "CoapType_try_from v =
     (if v = 0 then Ok Confirmable
      else if v = 1 then Ok NonConfirmable
      else if v = 2 then Ok Acknowledgement
      else if v = 3 then Ok Reset
      else Err (Dataset ''invalid CoAP type''))"

type_synonym CoapCode = u8

definition CoapCode_EMPTY :: CoapCode where [const_defs]: "CoapCode_EMPTY = 0x00"
definition CoapCode_POST :: CoapCode where [const_defs]: "CoapCode_POST = 0x02"
definition CoapCode_CHANGED :: CoapCode where [const_defs]: "CoapCode_CHANGED = 0x44"
definition CoapCode_CONTENT :: CoapCode where [const_defs]: "CoapCode_CONTENT = 0x45"

record CoapOption =
  opt_number :: u16
  opt_value :: bytes

record CoapMessage =
  coap_ty :: CoapType
  coap_code :: CoapCode
  message_id :: u16
  token :: bytes
  options :: "CoapOption list"
  coap_payload :: bytes

definition empty_ack :: "u16 \<Rightarrow> CoapMessage" where
  "empty_ack mid =
     \<lparr>coap_ty = Acknowledgement, coap_code = CoapCode_EMPTY, message_id = mid, token = [],
      options = [], coap_payload = []\<rparr>"

definition empty_changed_response :: "CoapMessage \<Rightarrow> CoapMessage" where
  "empty_changed_response request =
     \<lparr>coap_ty = Acknowledgement, coap_code = CoapCode_CHANGED, message_id = message_id request,
      token = token request, options = [], coap_payload = []\<rparr>"

section \<open>Uri-Path\<close>

definition trim_leading_slash :: "bytes \<Rightarrow> bytes" where
  "trim_leading_slash p = (case p of c # r \<Rightarrow> if c = 0x2F then r else p | [] \<Rightarrow> p)"

fun push_uri_segments :: "bytes list \<Rightarrow> (CoapMessage, error, unit) action" where
  "push_uri_segments [] = st_ok ()"
| "push_uri_segments (segment # ss) =
     (if segment = [] then st_err (Dataset ''CoAP Uri-Path has an empty segment'')
      else st_then
        (st_modify (\<lambda>m. m\<lparr>options := options m @
           [\<lparr>opt_number = COAP_OPTION_URI_PATH, opt_value = segment\<rparr>]\<rparr>))
        (\<lambda>_. push_uri_segments ss))"

definition set_uri_path :: "bytes \<Rightarrow> (CoapMessage, error, unit) action" where
  "set_uri_path path =
     st_then
       (st_modify (\<lambda>m. m\<lparr>options := filter (\<lambda>x. opt_number x \<noteq> COAP_OPTION_URI_PATH) (options m)\<rparr>))
       (\<lambda>_. let trimmed = trim_leading_slash path in
          if trimmed = [] then st_ok () else push_uri_segments (split_on 0x2F trimmed))"

definition post_request :: "CoapType \<Rightarrow> u16 \<Rightarrow> bytes \<Rightarrow> bytes \<Rightarrow> bytes \<Rightarrow> error + CoapMessage" where
  "post_request t mid tok path body =
     (case set_uri_path path
         \<lparr>coap_ty = t, coap_code = CoapCode_POST, message_id = mid, token = tok, options = [],
          coap_payload = body\<rparr> of
        (m, r) \<Rightarrow> and_then r (\<lambda>_. Ok m))"

fun uri_segments :: "CoapOption list \<Rightarrow> error + bytes list" where
  "uri_segments [] = Ok []"
| "uri_segments (x # xs) =
     (if opt_number x = COAP_OPTION_URI_PATH then
        (if valid_utf8 (opt_value x)
         then and_then (uri_segments xs) (\<lambda>ss. Ok (opt_value x # ss))
         else Err (Dataset ''CoAP Uri-Path is not UTF-8''))
      else uri_segments xs)"

definition uri_path :: "CoapMessage \<Rightarrow> error + bytes option" where
  "uri_path m =
     and_then (uri_segments (options m))
       (\<lambda>segments. if segments = [] then Ok None else Ok (Some (0x2F # join_with 0x2F segments)))"

section \<open>Encoding\<close>

definition encode_extended_nibble :: "u16 \<Rightarrow> error + u8 \<times> bytes" where
  "encode_extended_nibble v =
     (if v \<le> 12 then Ok (ucast v, [])
      else if v \<le> 268 then Ok (13, [ucast (v - 13)])
      else Ok (14, to_be 2 (v - 269)))"

definition encode_option_header :: "u16 \<Rightarrow> nat \<Rightarrow> error + bytes" where
  "encode_option_header delta len =
     and_then (encode_extended_nibble delta)
       (\<lambda>(delta_nibble, delta_extra).
          and_then (if len \<le> 65535 then Ok (of_nat len) else Err (Dataset ''CoAP option too long''))
            (\<lambda>len16. and_then (encode_extended_nibble len16)
               (\<lambda>(len_nibble, len_extra).
                  Ok ([push_bit 4 delta_nibble OR len_nibble] @ delta_extra @ len_extra))))"

fun encode_options :: "u16 \<Rightarrow> CoapOption list \<Rightarrow> error + bytes" where
  "encode_options last_number [] = Ok []"
| "encode_options last_number (x # xs) =
     and_then (ok_or (checked_sub (opt_number x) last_number) (Dataset ''CoAP option numbers decreased''))
       (\<lambda>delta. and_then (encode_option_header delta (length (opt_value x)))
          (\<lambda>header. and_then (encode_options (opt_number x) xs)
             (\<lambda>rest. Ok (header @ opt_value x @ rest))))"

definition sorted_options :: "CoapOption list \<Rightarrow> CoapOption list" where
  "sorted_options xs = map snd (sort_key (\<lambda>(idx, x). (opt_number x, idx)) (enumerate 0 xs))"

definition CoapMessage_encode :: "CoapMessage \<Rightarrow> error + bytes" where
  "CoapMessage_encode m =
     (if length (token m) > 8 then Err (Dataset ''CoAP token length > 8'')
      else
        and_then (encode_options 0 (sorted_options (options m)))
          (\<lambda>opts. Ok ([push_bit 6 1 OR push_bit 4 (CoapType_as_u8 (coap_ty m)) OR of_nat (length (token m))]
             @ [coap_code m] @ to_be 2 (message_id m) @ token m @ opts
             @ (if coap_payload m \<noteq> [] then [0xff] @ coap_payload m else []))))"

section \<open>Decoding\<close>

definition decode_extended_nibble :: "u8 \<Rightarrow> bytes \<Rightarrow> error + u16 \<times> nat" where
  "decode_extended_nibble nibble bs =
     (if nibble \<le> 12 then Ok (ucast nibble, 0)
      else if nibble = 13 then
        (case bs of
           b # _ \<Rightarrow> Ok (ucast b + 13, 1)
         | [] \<Rightarrow> Err (Dataset ''CoAP option extension is truncated''))
      else if nibble = 14 then
        (if length bs < 2 then Err (Dataset ''CoAP option extension is truncated'')
         else and_then (ok_or (checked_add (from_be [bs ! 0, bs ! 1]) 269)
             (Dataset ''CoAP option extension overflow''))
           (\<lambda>v. Ok (v, 2)))
      else Err (Dataset ''reserved CoAP option nibble''))"

definition decode_option :: "u16 \<Rightarrow> u8 \<Rightarrow> bytes \<Rightarrow> error + CoapOption \<times> bytes" where
  "decode_option last_number first after_header =
     and_then (decode_extended_nibble (drop_bit 4 first) after_header)
       (\<lambda>(delta, used_delta).
          let after_delta = drop used_delta after_header in
          and_then (decode_extended_nibble (first AND 0x0f) after_delta)
            (\<lambda>(len, used_len).
               let after_length = drop used_len after_delta in
               if length after_length < unat len then
                 Err (Dataset ''CoAP option value is truncated'')
               else
                 and_then (ok_or (checked_add last_number delta) (Dataset ''CoAP option number overflow''))
                   (\<lambda>number. Ok (\<lparr>opt_number = number, opt_value = take (unat len) after_length\<rparr>,
                      drop (unat len) after_length))))"

lemma decode_option_shrinks:
  "decode_option n b bs = Inr (x, rest) \<Longrightarrow> length rest \<le> length bs"
  by (auto simp: decode_option_def Let_def result_simps split: if_splits)

function decode_options :: "u16 \<Rightarrow> bytes \<Rightarrow> error + CoapOption list \<times> bytes" where
  "decode_options last_number [] = Ok ([], [])"
| "decode_options last_number (first # after_header) =
     (if first = 0xff then Ok ([], after_header)
      else and_then (decode_option last_number first after_header)
        (\<lambda>(x, rest). and_then (decode_options (opt_number x) rest)
           (\<lambda>(xs, body). Ok (x # xs, body))))"
  by pat_completeness auto
termination
  by (relation "measure (length \<circ> snd)") (auto dest: decode_option_shrinks)

definition CoapMessage_decode :: "bytes \<Rightarrow> error + CoapMessage" where
  "CoapMessage_decode bs =
     (if length bs < 4 then Err (Dataset ''CoAP header is truncated'')
      else if drop_bit 6 (bs ! 0) \<noteq> 1 then Err (Dataset ''unsupported CoAP version'')
      else
        let token_len = unat (bs ! 0 AND 0x0f) in
        if token_len > 8 \<or> length bs < 4 + token_len then Err (Dataset ''invalid CoAP token length'')
        else
          and_then (CoapType_try_from (drop_bit 4 (bs ! 0) AND 0x03))
            (\<lambda>t. and_then (decode_options 0 (drop (4 + token_len) bs))
               (\<lambda>(opts, body).
                  Ok \<lparr>coap_ty = t, coap_code = bs ! 1, message_id = from_be [bs ! 2, bs ! 3],
                      token = take token_len (drop 4 bs), options = opts, coap_payload = body\<rparr>)))"

definition is_empty_ack_for :: "CoapMessage \<Rightarrow> u16 \<Rightarrow> bool" where
  "is_empty_ack_for m mid \<longleftrightarrow>
     coap_ty m = Acknowledgement \<and> coap_code m = CoapCode_EMPTY \<and> message_id m = mid \<and>
     token m = [] \<and> options m = [] \<and> coap_payload m = []"

definition is_reset_for :: "CoapMessage \<Rightarrow> u16 \<Rightarrow> bool" where
  "is_reset_for m mid \<longleftrightarrow>
     coap_ty m = Reset \<and> coap_code m = CoapCode_EMPTY \<and> message_id m = mid \<and>
     token m = [] \<and> options m = [] \<and> coap_payload m = []"

section \<open>Nibbles\<close>

lemma bit_small_u8:
  assumes "(a :: u8) < 16" "bit a n"
  shows "n < 4"
proof -
  have "unat a < 2 ^ 4"
    using assms(1) by (simp add: word_less_nat_alt)
  then have "take_bit 4 (unat a) = unat a"
    by (simp add: take_bit_nat_eq_self)
  then have "take_bit 4 a = a"
    by (metis unsigned_take_bit_eq unsigned_word_eqI)
  then show ?thesis
    using assms(2) by (metis bit_take_bit_iff)
qed

lemma bit_0x0f: "bit (0x0f :: u8) n \<longleftrightarrow> n < 4"
proof -
  have "bit (mask 4 :: u8) n \<longleftrightarrow> n < 4"
    by (auto simp: bit_mask_iff)
  then show ?thesis
    by (simp add: mask_eq_exp_minus_1)
qed

lemma bit_nibbles:
  "(b :: u8) < 16 \<Longrightarrow> bit (push_bit 4 a OR b) n \<longleftrightarrow> (if n < 4 then bit b n else n < 8 \<and> bit a (n - 4))"
  unfolding bit_or_iff bit_push_bit_iff by (auto dest: bit_small_u8)

lemma nibble_join:
  assumes "(a :: u8) < 16" "(b :: u8) < 16"
  shows "drop_bit 4 (push_bit 4 a OR b) = a"
    and "(push_bit 4 a OR b) AND 0x0f = b"
proof -
  show "drop_bit 4 (push_bit 4 a OR b) = a"
    by (rule bit_word_eqI)
      (simp only: bit_drop_bit_eq comp_def bit_nibbles [OF assms(2)], use bit_small_u8 [OF assms(1)] in auto)
  show "(push_bit 4 a OR b) AND 0x0f = b"
    by (rule bit_word_eqI)
      (simp only: bit_and_iff bit_0x0f bit_nibbles [OF assms(2)], use bit_small_u8 [OF assms(2)] in auto)
qed

lemma nibble_not_marker: "(a :: u8) \<le> 14 \<Longrightarrow> (b :: u8) < 16 \<Longrightarrow> push_bit 4 a OR b \<noteq> 0xff"
proof
  assume a: "a \<le> 14" "b < 16" "push_bit 4 a OR b = 0xff"
  then have "a < 16"
    by (simp add: word_less_nat_alt word_le_nat_alt)
  then have "a = drop_bit 4 (0xff :: u8)"
    using nibble_join(1) [of a b] a by simp
  then show False
    using a by simp
qed

lemma encode_nibble_small:
  "encode_extended_nibble v = Inr (n, ex) \<Longrightarrow> n \<le> 14"
proof -
  have "v \<le> 12 \<Longrightarrow> (ucast v :: u8) \<le> 14"
    by (simp add: word_le_nat_alt unsigned_ucast_eq take_bit_eq_mod)
  then show "encode_extended_nibble v = Inr (n, ex) \<Longrightarrow> n \<le> 14"
    by (auto simp: encode_extended_nibble_def split: if_splits)
qed

lemma ucast_u16_u8_u16: "(x :: u16) \<le> 255 \<Longrightarrow> (ucast (ucast x :: u8) :: u16) = x"
  unfolding word_unat_eq_iff unsigned_ucast_eq
  by (simp add: word_le_nat_alt take_bit_nat_eq_self unsigned_take_bit_eq)

lemma decode_encode_nibble:
  assumes "encode_extended_nibble v = Inr (n, ex)"
  shows "decode_extended_nibble n (ex @ rest) = Ok (v, length ex)"
proof -
  consider "v \<le> 12" | "\<not> v \<le> 12" "v \<le> 268" | "\<not> v \<le> 12" "\<not> v \<le> 268"
    by blast
  then show ?thesis
  proof cases
    case 1
    then have "(ucast v :: u8) \<le> 12" "(ucast (ucast v :: u8) :: u16) = v"
      using ucast_u16_u8_u16 [of v]
      by (simp_all add: word_le_nat_alt unsigned_ucast_eq take_bit_eq_mod)
    then show ?thesis
      using assms 1 by (auto simp: encode_extended_nibble_def decode_extended_nibble_def)
  next
    case 2
    then have "v - 13 \<le> 255"
      by (simp add: word_le_nat_alt unat_sub)
    then show ?thesis
      using assms 2 by (auto simp: encode_extended_nibble_def decode_extended_nibble_def ucast_u16_u8_u16)
  next
    case 3
    then have "unat (v - 269) + 269 < 65536"
      using unat_u16_bound [of v] by (simp add: word_le_nat_alt unat_sub del: unat_u16_bound)
    then show ?thesis
      using assms 3
      by (auto simp: encode_extended_nibble_def decode_extended_nibble_def to_be_unfold checked_add_def)
  qed
qed

section \<open>Options\<close>

lemma encode_option_header_Ok:
  "len \<le> 65535 \<Longrightarrow> \<exists>dn de ln le. encode_extended_nibble delta = Inr (dn, de) \<and>
     encode_extended_nibble (of_nat len) = Inr (ln, le) \<and>
     encode_option_header delta len = Ok ((push_bit 4 dn OR ln) # de @ le)"
  by (auto simp: encode_option_header_def encode_extended_nibble_def)

lemma decode_option_encoded:
  assumes "encode_option_header delta (length v) = Inr (b # h)" "checked_add n0 delta = Some n"
  shows "b \<noteq> 0xff \<and> decode_option n0 b (h @ v @ rest) = Ok (\<lparr>opt_number = n, opt_value = v\<rparr>, rest)"
proof -
  have len: "length v \<le> 65535"
    using assms(1) by (auto simp: encode_option_header_def result_simps split: if_splits)
  obtain dn de ln le where e: "encode_extended_nibble delta = Inr (dn, de)"
    "encode_extended_nibble (of_nat (length v)) = Inr (ln, le)" "b = push_bit 4 dn OR ln" "h = de @ le"
    using encode_option_header_Ok [OF len, of delta] assms(1) by auto
  have s: "dn \<le> 14" "ln \<le> 14" "dn < 16" "ln < 16"
    using encode_nibble_small [OF e(1)] encode_nibble_small [OF e(2)]
    by (simp_all add: word_less_nat_alt word_le_nat_alt)
  have d: "drop (length xs) (xs @ ys) = ys" for xs ys :: bytes
    by simp
  show ?thesis
    using len assms(2) nibble_not_marker [OF s(1) s(4)] nibble_join [OF s(3,4)]
      decode_encode_nibble [OF e(1)] decode_encode_nibble [OF e(2)]
    by (simp add: decode_option_def e d del: drop_append drop_bit_or) simp
qed

lemma checked_add_checked_sub: "checked_sub n m = Some d \<Longrightarrow> checked_add m d = Some (n :: u16)"
proof -
  assume "checked_sub n m = Some d"
  then have "m \<le> n" "d = n - m"
    by (auto simp: checked_sub_def split: if_splits)
  then show ?thesis
    using unat_u16_bound [of n]
    by (simp add: checked_add_def unat_sub word_le_nat_alt del: unat_u16_bound)
qed

lemma decode_options_encoded:
  "encode_options n xs = Inr bs \<Longrightarrow> body = [] \<or> (\<exists>p. body = 0xff # p \<and> p \<noteq> []) \<Longrightarrow>
     decode_options n (bs @ body) = Ok (xs, drop 1 body)"
proof (induction xs arbitrary: n bs)
  case Nil
  then show ?case by auto
next
  case (Cons x xs)
  obtain delta h r where
    e: "checked_sub (opt_number x) n = Some delta" "encode_option_header delta (length (opt_value x)) = Inr h"
      "encode_options (opt_number x) xs = Inr r" "bs = h @ opt_value x @ r"
    using Cons.prems by (auto simp: result_simps)
  then have "length (opt_value x) \<le> 65535"
    by (auto simp: encode_option_header_def result_simps split: if_splits)
  then obtain b h' where h: "h = b # h'"
    using encode_option_header_Ok [of "length (opt_value x)" delta] e(2) by auto
  have "b \<noteq> 0xff \<and> decode_option n b (h' @ opt_value x @ r @ body) = Ok (x, r @ body)"
    using decode_option_encoded [OF e(2) [unfolded h] checked_add_checked_sub [OF e(1)]] by simp
  then show ?case
    using Cons.IH [OF e(3) Cons.prems(2)] e(4) h by simp
qed

lemma encode_options_Ok:
  "sorted (map opt_number xs) \<Longrightarrow> (\<forall>x\<in>set xs. n \<le> opt_number x \<and> length (opt_value x) \<le> 65535) \<Longrightarrow>
     \<exists>bs. encode_options n xs = Ok bs"
proof (induction xs arbitrary: n)
  case (Cons x xs)
  have "checked_sub (opt_number x) n = Some (opt_number x - n)"
    using Cons.prems by (simp add: checked_sub_def)
  moreover obtain h where "encode_option_header (opt_number x - n) (length (opt_value x)) = Ok h"
    using encode_option_header_Ok [of "length (opt_value x)" "opt_number x - n"] Cons.prems by auto
  moreover obtain bs where "encode_options (opt_number x) xs = Ok bs"
    using Cons.IH [of "opt_number x"] Cons.prems by auto
  ultimately show ?case
    by simp
qed simp

text \<open>Sorting by number and position is the stable sort by number.\<close>

lemma insort_enumerated:
  "\<forall>(j, y)\<in>set zs. i < j \<Longrightarrow>
     insort_key (\<lambda>(j, y). (f y, j)) (i, x) zs = insort_key (\<lambda>(j, y). f y) (i, x :: 'a) zs"
  by (induction zs) (auto simp: less_eq_prod_def le_less)

lemma sort_enumerated:
  "sort_key (\<lambda>(j, y). (f y, j)) (enumerate n xs) = sort_key (\<lambda>(j, y). f y) (enumerate n xs)"
proof (induction xs arbitrary: n)
  case (Cons x xs)
  have "\<forall>(j, y)\<in>set (sort_key (\<lambda>(j, y). f y) (enumerate (Suc n) xs)). n < j"
    by (auto simp: in_set_enumerate_eq)
  with Cons show ?case
    by (simp add: insort_enumerated)
qed simp

lemma map_snd_insort: "map snd (insort_key (\<lambda>(j, y). f y) (i, x) zs) = insort_key f x (map snd zs)"
  by (induction zs) auto

lemma map_snd_sort: "map snd (sort_key (\<lambda>(j, y). f y) (zs :: (nat \<times> 'a) list)) = sort_key f (map snd zs)"
  by (induction zs) (auto simp: map_snd_insort)

lemma sorted_options_eq: "sorted_options xs = sort_key opt_number xs"
  by (simp add: sorted_options_def sort_enumerated map_snd_sort)

lemma decode_options_Ok:
  "decode_options n bs = Inr (xs, body) \<Longrightarrow>
     sorted (map opt_number xs) \<and> (\<forall>x\<in>set xs. n \<le> opt_number x \<and> length (opt_value x) \<le> 65535)"
proof (induction n bs arbitrary: xs body rule: decode_options.induct)
  case (1 n)
  then show ?case by simp
next
  case (2 n b bs)
  show ?case
  proof (cases "b = 0xff")
    case False
    then obtain x rest ys where x: "decode_option n b bs = Inr (x, rest)"
      "decode_options (opt_number x) rest = Inr (ys, body)" "xs = x # ys"
      using 2 by (auto simp: result_simps)
    have "n \<le> opt_number x \<and> length (opt_value x) \<le> 65535"
      using x(1)
      by (auto simp: decode_option_def Let_def result_simps checked_add_eq_Some word_le_nat_alt
          unat_word_ariths split: if_splits)
    then show ?thesis
      using 2 False x by fastforce
  qed (use 2 in simp)
qed

section \<open>Messages\<close>

lemma coap_header:
  assumes "n \<le> 8"
  shows "drop_bit 6 (push_bit 6 1 OR push_bit 4 (CoapType_as_u8 t) OR of_nat n :: u8) = 1"
    and "unat ((push_bit 6 1 OR push_bit 4 (CoapType_as_u8 t) OR of_nat n :: u8) AND 0x0f) = n"
    and "CoapType_try_from (drop_bit 4 (push_bit 6 1 OR push_bit 4 (CoapType_as_u8 t) OR of_nat n) AND 0x03) = Ok t"
proof -
  have "n \<in> {0, 1, 2, 3, 4, 5, 6, 7, 8}"
    using assms by auto
  then show "drop_bit 6 (push_bit 6 1 OR push_bit 4 (CoapType_as_u8 t) OR of_nat n :: u8) = 1"
    and "unat ((push_bit 6 1 OR push_bit 4 (CoapType_as_u8 t) OR of_nat n :: u8) AND 0x0f) = n"
    and "CoapType_try_from (drop_bit 4 (push_bit 6 1 OR push_bit 4 (CoapType_as_u8 t) OR of_nat n) AND 0x03) = Ok t"
    by (cases t; elim insertE emptyE; simp add: CoapType_try_from_def)+
qed

lemma decode_frame:
  assumes "drop_bit 6 b = 1" "unat (b AND 0x0f) = length tok" "length tok \<le> 8"
    "CoapType_try_from (drop_bit 4 b AND 0x03) = Ok t" "decode_options 0 rest = Ok (opts, body)"
  shows "CoapMessage_decode (b # c # to_be 2 mid @ tok @ rest) =
    Ok \<lparr>coap_ty = t, coap_code = c, message_id = mid, token = tok, options = opts, coap_payload = body\<rparr>"
proof -
  let ?bs = "b # c # to_be 2 mid @ tok @ rest"
  have "drop 4 ?bs = tok @ rest" "drop (4 + length tok) ?bs = rest" "4 \<le> length ?bs"
    "4 + length tok \<le> length ?bs" "?bs ! 1 = c" "?bs ! 0 = b"
    by (simp_all add: to_be_unfold eval_nat_numeral)
  moreover have "from_be [?bs ! 2, ?bs ! 3] = mid"
    by (simp add: to_be_unfold)
  ultimately show ?thesis
    using assms by (simp add: CoapMessage_decode_def Let_def del: to_be.simps)
qed

lemma decode_encoded_message:
  assumes "CoapMessage_encode m = Inr bs"
  shows "CoapMessage_decode bs = Ok (m\<lparr>options := sort_key opt_number (options m)\<rparr>)"
proof -
  obtain opts where e: "length (token m) \<le> 8" "encode_options 0 (sorted_options (options m)) = Inr opts"
    "bs = (push_bit 6 1 OR push_bit 4 (CoapType_as_u8 (coap_ty m)) OR of_nat (length (token m)))
      # coap_code m # to_be 2 (message_id m) @ token m @ opts @ (if coap_payload m \<noteq> [] then 0xff # coap_payload m else [])"
    using assms by (auto simp: CoapMessage_encode_def result_simps split: if_splits)
  have "decode_options 0 (opts @ (if coap_payload m \<noteq> [] then 0xff # coap_payload m else []))
      = Ok (sort_key opt_number (options m), coap_payload m)"
    using decode_options_encoded [OF e(2), of "if coap_payload m \<noteq> [] then 0xff # coap_payload m else []"]
    by (auto simp: sorted_options_eq)
  then show ?thesis
    unfolding e(3)
    using decode_frame [OF coap_header(1) [OF e(1)] coap_header(2) [OF e(1)] e(1) coap_header(3) [OF e(1)]]
    by simp
qed

lemma CoapMessage_encode_Ok:
  assumes "length (token m) \<le> 8" "\<forall>x\<in>set (options m). length (opt_value x) \<le> 65535"
  shows "\<exists>bs. CoapMessage_encode m = Ok bs"
proof -
  obtain opts where "encode_options 0 (sort_key opt_number (options m)) = Ok opts"
    using encode_options_Ok [of "sort_key opt_number (options m)" 0] assms(2) by auto
  then show ?thesis
    using assms(1) by (simp add: CoapMessage_encode_def sorted_options_eq)
qed

lemma CoapMessage_decode_Ok:
  assumes "CoapMessage_decode bs = Inr m"
  shows "length (token m) \<le> 8 \<and> sorted (map opt_number (options m)) \<and>
    (\<forall>x\<in>set (options m). length (opt_value x) \<le> 65535)"
  using assms decode_options_Ok [of 0 "drop (4 + unat (bs ! 0 AND 0x0f)) bs" "options m" "coap_payload m"]
  by (auto simp: CoapMessage_decode_def Let_def result_simps split: if_splits)

text \<open>C26: Encoding a CoAP message succeeds when its token has at most 8 bytes and every option value
  at most 65535 bytes, and decoding the bytes gives the message with its options stably sorted by
  number and everything else unchanged.\<close>

theorem coap_roundtrip:
  assumes "length (token m) \<le> 8" "\<forall>x\<in>set (options m). length (opt_value x) \<le> 65535"
  shows "\<exists>bs. CoapMessage_encode m = Ok bs \<and>
    CoapMessage_decode bs = Ok (m\<lparr>options := sort_key opt_number (options m)\<rparr>)"
  using CoapMessage_encode_Ok [OF assms] decode_encoded_message by blast

theorem coap_roundtrip_witness:
  "\<exists>bs. CoapMessage_encode
      \<lparr>coap_ty = Confirmable, coap_code = 2, message_id = 7, token = [1, 2],
       options = [\<lparr>opt_number = 12, opt_value = []\<rparr>, \<lparr>opt_number = 11, opt_value = [99]\<rparr>],
       coap_payload = [0xff]\<rparr> = Ok bs \<and>
    CoapMessage_decode bs = Ok
      \<lparr>coap_ty = Confirmable, coap_code = 2, message_id = 7, token = [1, 2],
       options = [\<lparr>opt_number = 11, opt_value = [99]\<rparr>, \<lparr>opt_number = 12, opt_value = []\<rparr>],
       coap_payload = [0xff]\<rparr>"
  using coap_roundtrip [of "\<lparr>coap_ty = Confirmable, coap_code = 2, message_id = 7, token = [1, 2],
       options = [\<lparr>opt_number = 12, opt_value = []\<rparr>, \<lparr>opt_number = 11, opt_value = [99]\<rparr>],
       coap_payload = [0xff]\<rparr>"]
  by simp

text \<open>Whatever bytes decode to a message, that message has a token of at most 8 bytes and options
  in ascending order, can be encoded again, and decodes to itself.\<close>

theorem coap_decode_stable:
  assumes "CoapMessage_decode bs = Ok m"
  shows "length (token m) \<le> 8 \<and> sorted (map opt_number (options m)) \<and>
    (\<exists>out. CoapMessage_encode m = Ok out \<and> CoapMessage_decode out = Ok m)"
proof -
  note m = CoapMessage_decode_Ok [OF assms]
  then have "m\<lparr>options := sort_key opt_number (options m)\<rparr> = m"
    by (simp add: sort_key_id_if_sorted)
  then show ?thesis
    using m CoapMessage_encode_Ok [of m] decode_encoded_message [of m] by auto
qed

theorem coap_decode_stable_witness:
  "CoapMessage_decode [0x40, 0x02, 0, 1, 0xb1, 99, 0xff] =
     Ok \<lparr>coap_ty = Confirmable, coap_code = 2, message_id = 1, token = [],
         options = [\<lparr>opt_number = 11, opt_value = [99]\<rparr>], coap_payload = []\<rparr> \<and>
   (\<exists>out. CoapMessage_encode \<lparr>coap_ty = Confirmable, coap_code = 2, message_id = 1, token = [],
         options = [\<lparr>opt_number = 11, opt_value = [99]\<rparr>], coap_payload = []\<rparr> = Ok out)"
proof -
  have d: "CoapMessage_decode [0x40, 0x02, 0, 1, 0xb1, 99, 0xff] =
     Ok \<lparr>coap_ty = Confirmable, coap_code = 2, message_id = 1, token = [],
         options = [\<lparr>opt_number = 11, opt_value = [99]\<rparr>], coap_payload = []\<rparr>"
    by (simp add: CoapMessage_decode_def CoapType_try_from_def decode_option_def
        decode_extended_nibble_def checked_add_def from_be_def)
  then show ?thesis
    using coap_decode_stable [OF d] by blast
qed

section \<open>Uri-Path round trip\<close>

lemma push_uri_segments_Ok:
  "\<forall>s\<in>set ss. s \<noteq> [] \<Longrightarrow> push_uri_segments ss m =
     (m\<lparr>options := options m @ map (\<lambda>s. \<lparr>opt_number = COAP_OPTION_URI_PATH, opt_value = s\<rparr>) ss\<rparr>, Ok ())"
  by (induction ss arbitrary: m) (simp_all add: st_ok_def st_then_def st_modify_def)

lemma push_uri_segments_Err:
  "[] \<in> set ss \<Longrightarrow> snd (push_uri_segments ss m) = Err (Dataset ''CoAP Uri-Path has an empty segment'')"
proof (induction ss arbitrary: m)
  case (Cons s ss)
  then show ?case
    by (cases "s = []") (simp_all add: st_err_def st_then_def st_modify_def)
qed simp

lemma uri_segments_append:
  "uri_segments (xs @ ys) = and_then (uri_segments xs) (\<lambda>a. and_then (uri_segments ys) (\<lambda>b. Ok (a @ b)))"
  by (induction xs) (auto simp: and_then_def split: sum.splits)

lemma uri_segments_other: "\<forall>x\<in>set xs. opt_number x \<noteq> COAP_OPTION_URI_PATH \<Longrightarrow> uri_segments xs = Ok []"
  by (induction xs) auto

lemma uri_segments_pushed:
  "\<forall>s\<in>set ss. valid_utf8 s \<Longrightarrow>
     uri_segments (map (\<lambda>s. \<lparr>opt_number = COAP_OPTION_URI_PATH, opt_value = s\<rparr>) ss) = Ok ss"
  by (induction ss) auto

text \<open>Setting a Uri-Path succeeds exactly when no segment is empty. It then replaces the old path,
  keeps every other option in order, and reading the path back gives the string that was set with
  exactly one leading slash.\<close>

theorem uri_path_set_get:
  assumes "valid_utf8 p"
  shows "case set_uri_path p m of
      (m', Inr _) \<Rightarrow>
        uri_path m' = Ok (if trim_leading_slash p = [] then None else Some (0x2F # trim_leading_slash p)) \<and>
        filter (\<lambda>x. opt_number x \<noteq> COAP_OPTION_URI_PATH) (options m') =
          filter (\<lambda>x. opt_number x \<noteq> COAP_OPTION_URI_PATH) (options m) \<and>
        (trim_leading_slash p = [] \<or> [] \<notin> set (split_on 0x2F (trim_leading_slash p)))
    | (m', Inl e) \<Rightarrow>
        e = Dataset ''CoAP Uri-Path has an empty segment'' \<and> trim_leading_slash p \<noteq> [] \<and>
        [] \<in> set (split_on 0x2F (trim_leading_slash p))"
proof -
  let ?t = "trim_leading_slash p"
  let ?m = "m\<lparr>options := filter (\<lambda>x. opt_number x \<noteq> COAP_OPTION_URI_PATH) (options m)\<rparr>"
  have "valid_utf8 ?t"
    using assms valid_utf8_slash [of "[]" "tl p"]
    by (cases p) (auto simp: trim_leading_slash_def simp del: valid_utf8.simps(2))
  then have valid: "\<forall>s\<in>set (split_on 0x2F ?t). valid_utf8 s"
    using valid_utf8_split by blast
  have step: "set_uri_path p m = (if ?t = [] then (?m, Ok ()) else push_uri_segments (split_on 0x2F ?t) ?m)"
    by (simp add: set_uri_path_def st_then_def st_modify_def st_ok_def Let_def)
  have other: "uri_segments (filter (\<lambda>x. opt_number x \<noteq> COAP_OPTION_URI_PATH) (options m)) = Ok []"
    by (rule uri_segments_other) auto
  consider "?t = []" | "?t \<noteq> []" "[] \<in> set (split_on 0x2F ?t)"
    | "?t \<noteq> []" "\<forall>s\<in>set (split_on 0x2F ?t). s \<noteq> []"
    by blast
  then show ?thesis
  proof cases
    case 1
    then show ?thesis
      by (simp add: step uri_path_def other)
  next
    case 2
    then obtain m' where "set_uri_path p m = (m', Err (Dataset ''CoAP Uri-Path has an empty segment''))"
      using push_uri_segments_Err [OF 2(2), of ?m] step by (metis prod.collapse)
    then show ?thesis
      using 2 by (simp only: prod.case sum.case simp_thms)
  next
    case 3
    let ?o = "filter (\<lambda>x. opt_number x \<noteq> COAP_OPTION_URI_PATH) (options m)
      @ map (\<lambda>s. \<lparr>opt_number = COAP_OPTION_URI_PATH, opt_value = s\<rparr>) (split_on 0x2F ?t)"
    have "set_uri_path p m = (m\<lparr>options := ?o\<rparr>, Ok ())"
      using 3 by (simp add: step push_uri_segments_Ok)
    moreover have "uri_segments ?o = Ok (split_on 0x2F ?t)"
      by (simp only: uri_segments_append uri_segments_pushed [OF valid] other and_then_simps append_Nil)
    moreover have "filter (\<lambda>x. opt_number x \<noteq> COAP_OPTION_URI_PATH) ?o =
        filter (\<lambda>x. opt_number x \<noteq> COAP_OPTION_URI_PATH) (options m)"
      by (simp add: filter_map comp_def)
    ultimately show ?thesis
      using 3 by (auto simp: uri_path_def)
  qed
qed

theorem uri_path_set_get_witness:
  "valid_utf8 (str ''/c/rx'') \<and>
   snd (set_uri_path (str ''/c/rx'') (empty_ack 1)) = Ok () \<and>
   uri_path (fst (set_uri_path (str ''/c/rx'') (empty_ack 1))) = Ok (Some (str ''/c/rx''))"
proof -
  have v: "valid_utf8 (str ''/c/rx'')"
    by simp
  have s: "set_uri_path (str ''/c/rx'') (empty_ack 1) =
      (fst (set_uri_path (str ''/c/rx'') (empty_ack 1)), Ok ())"
    by (simp add: set_uri_path_def st_then_def st_modify_def st_ok_def trim_leading_slash_def)
  then have "snd (set_uri_path (str ''/c/rx'') (empty_ack 1)) = Ok ()"
    by (metis snd_conv)
  then show ?thesis
    using uri_path_set_get [OF v, of "empty_ack 1"]
    by (subst (asm) s) (simp add: trim_leading_slash_def)
qed

end
