(* ===== verification/Diag.thy ===== *)
theory Diag
  imports Constants
begin

text \<open>
  Network-diagnostic answers (\<^verbatim>\<open>meshcop/diag/model.rs\<close>, \<^verbatim>\<open>meshcop/diag/decode.rs\<close>): the typed data
  model and the decoders for the diagnostic TLVs and for Thread Network Data. An IPv6 address is
  a 128-bit word. Shown: every field is the decoding of the last TLV of its type (the child
  address lists are collected in order), and decoded values lie in the ranges of their bit fields.
\<close>

type_synonym Ipv6Addr = "128 word"

abbreviation octets :: "Ipv6Addr \<Rightarrow> bytes" where
  "octets a \<equiv> to_be 16 a"

section \<open>Data model\<close>

record ModeData =
  rx_on_when_idle :: bool
  is_mtd :: bool
  requires_full_network_data :: bool

record ChildTableEntry =
  timeout_exponent :: u8
  ct_incoming_link_quality :: u8
  ct_child_id :: u16
  ct_mode :: ModeData

definition timeout_seconds :: "ChildTableEntry \<Rightarrow> u32" where
  "timeout_seconds e =
     (if timeout_exponent e < 4 then 0 else push_bit (unat (timeout_exponent e - 4)) 1)"

record LeaderData =
  partition_id :: u32
  weighting :: u8
  data_version :: u8
  stable_data_version :: u8
  ld_router_id :: u8

record RouteDataEntry =
  rd_router_id :: u8
  outgoing_link_quality :: u8
  rd_incoming_link_quality :: u8
  route_cost :: u8

record Route64 =
  r64_id_sequence :: u8
  r64_mask :: bytes
  route_data :: "RouteDataEntry list"

record ChildIpv6AddrInfo =
  ca_rloc16 :: u16
  ca_child_id :: u16
  ca_addresses :: "Ipv6Addr list"

record MacCounters =
  if_in_unknown_protos :: u32
  if_in_errors :: u32
  if_out_errors :: u32
  if_in_ucast_pkts :: u32
  if_in_broadcast_pkts :: u32
  if_in_discards :: u32
  if_out_ucast_pkts :: u32
  if_out_broadcast_pkts :: u32
  if_out_discards :: u32

record Connectivity =
  parent_priority :: int
  link_quality_3 :: u8
  link_quality_2 :: u8
  link_quality_1 :: u8
  leader_cost :: u8
  cn_id_sequence :: u8
  active_routers :: u8
  rx_off_child_buffer_size :: "u16 option"
  rx_off_child_datagram_count :: "u8 option"

record HasRouteEntry =
  hr_rloc16 :: u16
  router_preference :: u8
  is_nat64 :: bool

record BorderRouterEntry =
  br_rloc16 :: u16
  prefix_preference :: u8
  is_preferred :: bool
  is_slaac :: bool
  is_dhcp :: bool
  is_configure :: bool
  is_default_route :: bool
  is_on_mesh :: bool
  is_nd_dns :: bool
  is_dp :: bool

record SixLowPanContext =
  is_compress :: bool
  context_id :: u8
  context_length :: u8

record PrefixEntry =
  domain_id :: u8
  prefix_bit_length :: u8
  prefix_bytes :: bytes
  six_low_pan_context :: "SixLowPanContext option"
  has_route :: "HasRouteEntry list"
  border_routers :: "BorderRouterEntry list"

record NetworkData =
  prefixes :: "PrefixEntry list"

record NetDiagData =
  ext_mac_addr :: "bytes option"
  mac_addr :: "u16 option"
  nd_mode :: "ModeData option"
  nd_timeout :: "u32 option"
  connectivity :: "Connectivity option"
  route64 :: "Route64 option"
  leader_data :: "LeaderData option"
  network_data :: "NetworkData option"
  nd_addresses :: "Ipv6Addr list option"
  mac_counters :: "MacCounters option"
  battery_level :: "u8 option"
  supply_voltage :: "u16 option"
  child_table :: "ChildTableEntry list option"
  channel_pages :: "bytes option"
  type_list :: "bytes option"
  eui64 :: "bytes option"
  child_ipv6_addresses :: "ChildIpv6AddrInfo list option"

definition NetDiagData_default :: NetDiagData where
  "NetDiagData_default =
     \<lparr>ext_mac_addr = None, mac_addr = None, nd_mode = None, nd_timeout = None, connectivity = None,
      route64 = None, leader_data = None, network_data = None, nd_addresses = None,
      mac_counters = None, battery_level = None, supply_voltage = None, child_table = None,
      channel_pages = None, type_list = None, eui64 = None, child_ipv6_addresses = None\<rparr>"

section \<open>Field decoders\<close>

definition diag_EXT_MAC_ADDRESS :: u8 where [const_defs]: "diag_EXT_MAC_ADDRESS = 0"
definition diag_MAC_ADDRESS :: u8 where [const_defs]: "diag_MAC_ADDRESS = 1"
definition diag_MODE :: u8 where [const_defs]: "diag_MODE = 2"
definition diag_TIMEOUT :: u8 where [const_defs]: "diag_TIMEOUT = 3"
definition diag_CONNECTIVITY :: u8 where [const_defs]: "diag_CONNECTIVITY = 4"
definition diag_ROUTE64 :: u8 where [const_defs]: "diag_ROUTE64 = 5"
definition diag_LEADER_DATA :: u8 where [const_defs]: "diag_LEADER_DATA = 6"
definition diag_NETWORK_DATA :: u8 where [const_defs]: "diag_NETWORK_DATA = 7"
definition diag_IPV6_ADDRESSES :: u8 where [const_defs]: "diag_IPV6_ADDRESSES = 8"
definition diag_MAC_COUNTERS :: u8 where [const_defs]: "diag_MAC_COUNTERS = 9"
definition diag_BATTERY_LEVEL :: u8 where [const_defs]: "diag_BATTERY_LEVEL = 14"
definition diag_SUPPLY_VOLTAGE :: u8 where [const_defs]: "diag_SUPPLY_VOLTAGE = 15"
definition diag_CHILD_TABLE :: u8 where [const_defs]: "diag_CHILD_TABLE = 16"
definition diag_CHANNEL_PAGES :: u8 where [const_defs]: "diag_CHANNEL_PAGES = 17"
definition diag_TYPE_LIST :: u8 where [const_defs]: "diag_TYPE_LIST = 18"
definition diag_EUI64 :: u8 where [const_defs]: "diag_EUI64 = 23"
definition diag_CHILD_IPV6_ADDRESSES :: u8 where [const_defs]: "diag_CHILD_IPV6_ADDRESSES = 30"

definition diag_read_u8 :: "bytes \<Rightarrow> string \<Rightarrow> error + u8" where
  "diag_read_u8 v name =
     (case v of
        [b] \<Rightarrow> Ok b
      | _ \<Rightarrow> Err (Dataset (name @ '' must be 1 byte, got '' @ show_nat (length v))))"

definition diag_read_u16 :: "bytes \<Rightarrow> string \<Rightarrow> error + u16" where
  "diag_read_u16 v name =
     ok_or (wire_read_u16 v) (Dataset (name @ '' must be 2 bytes, got '' @ show_nat (length v)))"

definition diag_read_u32 :: "bytes \<Rightarrow> string \<Rightarrow> error + u32" where
  "diag_read_u32 v name =
     ok_or (wire_read_u32 v) (Dataset (name @ '' must be 4 bytes, got '' @ show_nat (length v)))"

definition ModeData_decode :: "bytes \<Rightarrow> error + ModeData" where
  "ModeData_decode v =
     (case v of
        [m] \<Rightarrow> Ok \<lparr>rx_on_when_idle = (m AND 0x08 \<noteq> 0), is_mtd = (m AND 0x02 = 0),
                  requires_full_network_data = (m AND 0x01 \<noteq> 0)\<rparr>
      | _ \<Rightarrow> Err (Dataset (''Mode value must be 1 byte, got '' @ show_nat (length v))))"

definition decode_connectivity :: "bytes \<Rightarrow> error + Connectivity" where
  "decode_connectivity v =
     (if length v < 7 then Err (Dataset (''Connectivity must be at least 7 bytes, got '' @ show_nat (length v)))
      else Ok
        \<lparr>parent_priority =
           (let p = drop_bit 6 (v ! 0) in if p = 1 then 1 else if p = 0 then 0 else if p = 3 then -1 else -2),
         link_quality_3 = v ! 1, link_quality_2 = v ! 2, link_quality_1 = v ! 3,
         leader_cost = v ! 4, cn_id_sequence = v ! 5, active_routers = v ! 6,
         rx_off_child_buffer_size = (if length v \<ge> 10 then Some (from_be [v ! 7, v ! 8]) else None),
         rx_off_child_datagram_count = (if length v \<ge> 10 then Some (v ! 9) else None)\<rparr>)"

definition router_ids :: "bytes \<Rightarrow> nat list" where
  "router_ids m = filter (\<lambda>b. m ! (b div 8) AND drop_bit (b mod 8) 0x80 \<noteq> 0) [0..<64]"

definition decode_route64 :: "bytes \<Rightarrow> error + Route64" where
  "decode_route64 v =
     (if length v < 9 then
        Err (Dataset (''Route64 must be at least '' @ show_nat 9 @ '' bytes, got '' @ show_nat (length v)))
      else
        let m = take 8 (drop 1 v); ids = router_ids m; route_bytes = drop 9 v in
        if length route_bytes \<noteq> length ids then
          Err (Dataset (''Route64 route data has '' @ show_nat (length route_bytes)
             @ '' entries but the mask assigns '' @ show_nat (length ids) @ '' router IDs''))
        else Ok
          \<lparr>r64_id_sequence = v ! 0, r64_mask = m,
           route_data = map (\<lambda>(i, b).
             \<lparr>rd_router_id = of_nat i, outgoing_link_quality = drop_bit 6 b AND 0x03,
              rd_incoming_link_quality = drop_bit 4 b AND 0x03, route_cost = b AND 0x0f\<rparr>) (zip ids route_bytes)\<rparr>)"

definition decode_leader_data :: "bytes \<Rightarrow> error + LeaderData" where
  "decode_leader_data v =
     (if length v \<noteq> 8 then Err (Dataset (''Leader Data must be 8 bytes, got '' @ show_nat (length v)))
      else Ok \<lparr>partition_id = from_be [v ! 0, v ! 1, v ! 2, v ! 3], weighting = v ! 4,
               data_version = v ! 5, stable_data_version = v ! 6, ld_router_id = v ! 7\<rparr>)"

definition decode_ipv6_address_list :: "bytes \<Rightarrow> error + Ipv6Addr list" where
  "decode_ipv6_address_list v =
     (if length v mod 16 \<noteq> 0 then
        Err (Dataset (''IPv6 address list length '' @ show_nat (length v) @ '' is not a multiple of 16''))
      else Ok (map from_be (chunks 16 v)))"

definition mac_counter :: "bytes \<Rightarrow> nat \<Rightarrow> u32" where
  "mac_counter v idx = from_be (take 4 (drop idx v))"

definition decode_mac_counters :: "bytes \<Rightarrow> error + MacCounters" where
  "decode_mac_counters v =
     (if length v \<noteq> 36 then Err (Dataset (''MAC Counters must be 36 bytes, got '' @ show_nat (length v)))
      else Ok
        \<lparr>if_in_unknown_protos = mac_counter v 0, if_in_errors = mac_counter v 4,
         if_out_errors = mac_counter v 8, if_in_ucast_pkts = mac_counter v 12,
         if_in_broadcast_pkts = mac_counter v 16, if_in_discards = mac_counter v 20,
         if_out_ucast_pkts = mac_counter v 24, if_out_broadcast_pkts = mac_counter v 28,
         if_out_discards = mac_counter v 32\<rparr>)"

definition decode_child_entry :: "bytes \<Rightarrow> error + ChildTableEntry" where
  "decode_child_entry c =
     and_then (ModeData_decode (take 1 (drop 2 c)))
       (\<lambda>m. Ok \<lparr>timeout_exponent = drop_bit 3 (c ! 0),
                ct_incoming_link_quality = drop_bit 1 (c ! 0) AND 0x03,
                ct_child_id = push_bit 8 (ucast (c ! 0 AND 0x01)) OR ucast (c ! 1),
                ct_mode = m\<rparr>)"

definition decode_child_table :: "bytes \<Rightarrow> error + ChildTableEntry list" where
  "decode_child_table v =
     (if length v mod 3 \<noteq> 0 then
        Err (Dataset (''Child Table length '' @ show_nat (length v) @ '' is not a multiple of '' @ show_nat 3))
      else map_result decode_child_entry (chunks 3 v))"

definition decode_eui64 :: "bytes \<Rightarrow> error + bytes" where
  "decode_eui64 v =
     (if length v = 8 then Ok v
      else Err (Dataset (''EUI-64 must be 8 bytes, got '' @ show_nat (length v))))"

definition decode_child_ipv6_addresses :: "bytes \<Rightarrow> error + ChildIpv6AddrInfo" where
  "decode_child_ipv6_addresses v =
     (if length v < 2 \<or> (length v - 2) mod 16 \<noteq> 0 then
        Err (Dataset ''Child IPv6 Address List must be an RLOC16 followed by whole addresses'')
      else
        let rloc = from_be [v ! 0, v ! 1] in
        and_then (decode_ipv6_address_list (drop 2 v))
          (\<lambda>as. Ok \<lparr>ca_rloc16 = rloc, ca_child_id = rloc AND 0x01ff, ca_addresses = as\<rparr>))"

section \<open>Thread Network Data\<close>

definition decode_has_route :: "bytes \<Rightarrow> error + HasRouteEntry list" where
  "decode_has_route v =
     (if length v mod 3 \<noteq> 0 then
        Err (Dataset (''HasRoute length '' @ show_nat (length v) @ '' is not a multiple of '' @ show_nat 3))
      else Ok (map (\<lambda>c. \<lparr>hr_rloc16 = from_be [c ! 0, c ! 1],
                        router_preference = drop_bit 6 (c ! 2) AND 0x03,
                        is_nat64 = (drop_bit 5 (c ! 2) AND 0x01 \<noteq> 0)\<rparr>) (chunks 3 v)))"

definition decode_border_router :: "bytes \<Rightarrow> error + BorderRouterEntry list" where
  "decode_border_router v =
     (if length v mod 4 \<noteq> 0 then
        Err (Dataset (''BorderRouter length '' @ show_nat (length v) @ '' is not a multiple of '' @ show_nat 4))
      else Ok (map (\<lambda>c. \<lparr>br_rloc16 = from_be [c ! 0, c ! 1],
                        prefix_preference = drop_bit 6 (c ! 2) AND 0x03,
                        is_preferred = (drop_bit 5 (c ! 2) AND 0x01 \<noteq> 0),
                        is_slaac = (drop_bit 4 (c ! 2) AND 0x01 \<noteq> 0),
                        is_dhcp = (drop_bit 3 (c ! 2) AND 0x01 \<noteq> 0),
                        is_configure = (drop_bit 2 (c ! 2) AND 0x01 \<noteq> 0),
                        is_default_route = (drop_bit 1 (c ! 2) AND 0x01 \<noteq> 0),
                        is_on_mesh = (c ! 2 AND 0x01 \<noteq> 0),
                        is_nd_dns = (drop_bit 7 (c ! 3) AND 0x01 \<noteq> 0),
                        is_dp = (drop_bit 6 (c ! 3) AND 0x01 \<noteq> 0)\<rparr>) (chunks 4 v)))"

definition decode_six_low_pan_context :: "bytes \<Rightarrow> error + SixLowPanContext" where
  "decode_six_low_pan_context v =
     (case v of
        [flags, len] \<Rightarrow> Ok \<lparr>is_compress = (drop_bit 4 flags AND 0x01 \<noteq> 0), context_id = flags AND 0x0f,
                           context_length = len\<rparr>
      | _ \<Rightarrow> Err (Dataset (''6LoWPAN context must be 2 bytes, got '' @ show_nat (length v))))"

definition NetworkDataTlv_next :: "bytes \<Rightarrow> error + u8 \<times> bytes \<times> bytes" where
  "NetworkDataTlv_next bs =
     (if length bs < 2 then Err (Dataset ''network data TLV header is truncated'')
      else
        let t = drop_bit 1 (bs ! 0); len = unat (bs ! 1); after_header = drop 2 bs in
        if length after_header < len then Err (Dataset ''network data TLV value is truncated'')
        else Ok (t, take len after_header, drop len after_header))"

lemma NetworkDataTlv_next_shrinks: "NetworkDataTlv_next bs = Inr (t, v, rest) \<Longrightarrow> length rest < length bs"
  by (auto simp: NetworkDataTlv_next_def Let_def split: if_splits)

function decode_prefix_subs :: "bytes \<Rightarrow> PrefixEntry \<Rightarrow> error + PrefixEntry" where
  "decode_prefix_subs bs entry =
     (if bs = [] then Ok entry
      else and_then (NetworkDataTlv_next bs)
        (\<lambda>(t, v, rest).
           if t = 0 then and_then (decode_has_route v)
             (\<lambda>rs. decode_prefix_subs rest (entry\<lparr>has_route := has_route entry @ rs\<rparr>))
           else if t = 2 then and_then (decode_border_router v)
             (\<lambda>rs. decode_prefix_subs rest (entry\<lparr>border_routers := border_routers entry @ rs\<rparr>))
           else if t = 3 then and_then (decode_six_low_pan_context v)
             (\<lambda>c. decode_prefix_subs rest (entry\<lparr>six_low_pan_context := Some c\<rparr>))
           else decode_prefix_subs rest entry))"
  by pat_completeness auto
termination
  by (relation "measure (length \<circ> fst)") (auto dest: NetworkDataTlv_next_shrinks)

declare decode_prefix_subs.simps [simp del]

definition decode_prefix_entry :: "bytes \<Rightarrow> error + PrefixEntry" where
  "decode_prefix_entry v =
     (if length v < 2 then Err (Dataset ''Prefix entry is truncated'')
      else
        let prefix_len = (unat (v ! 1) + 7) div 8; sub_tlv_offset = 2 + prefix_len in
        if length v < sub_tlv_offset then Err (Dataset ''Prefix bytes are truncated'')
        else decode_prefix_subs (drop sub_tlv_offset v)
          \<lparr>domain_id = v ! 0, prefix_bit_length = v ! 1, prefix_bytes = drop 2 (take sub_tlv_offset v),
           six_low_pan_context = None, has_route = [], border_routers = []\<rparr>)"

function NetworkData_prefixes :: "bytes \<Rightarrow> error + PrefixEntry list" where
  "NetworkData_prefixes bs =
     (if bs = [] then Ok []
      else and_then (NetworkDataTlv_next bs)
        (\<lambda>(t, v, rest).
           if t = 1 then
             and_then (decode_prefix_entry v)
               (\<lambda>p. and_then (NetworkData_prefixes rest) (\<lambda>ps. Ok (p # ps)))
           else NetworkData_prefixes rest))"
  by pat_completeness auto
termination
  by (relation "measure length") (auto dest: NetworkDataTlv_next_shrinks)

declare NetworkData_prefixes.simps [simp del]

definition NetworkData_decode :: "bytes \<Rightarrow> error + NetworkData" where
  "NetworkData_decode v = and_then (NetworkData_prefixes v) (\<lambda>ps. Ok \<lparr>prefixes = ps\<rparr>)"

section \<open>Whole answers\<close>

definition decode_diag_entry :: "TlvEntry \<Rightarrow> NetDiagData \<Rightarrow> error + NetDiagData" where
  "decode_diag_entry e d =
     (let t = ty e; v = val e in
      if t = diag_EXT_MAC_ADDRESS then Ok (d\<lparr>ext_mac_addr := Some v\<rparr>)
      else if t = diag_MAC_ADDRESS then
        and_then (diag_read_u16 v ''MAC Address'') (\<lambda>x. Ok (d\<lparr>mac_addr := Some x\<rparr>))
      else if t = diag_MODE then and_then (ModeData_decode v) (\<lambda>x. Ok (d\<lparr>nd_mode := Some x\<rparr>))
      else if t = diag_TIMEOUT then
        and_then (diag_read_u32 v ''Timeout'') (\<lambda>x. Ok (d\<lparr>nd_timeout := Some x\<rparr>))
      else if t = diag_CONNECTIVITY then
        and_then (decode_connectivity v) (\<lambda>x. Ok (d\<lparr>connectivity := Some x\<rparr>))
      else if t = diag_ROUTE64 then and_then (decode_route64 v) (\<lambda>x. Ok (d\<lparr>route64 := Some x\<rparr>))
      else if t = diag_LEADER_DATA then
        and_then (decode_leader_data v) (\<lambda>x. Ok (d\<lparr>leader_data := Some x\<rparr>))
      else if t = diag_NETWORK_DATA then
        and_then (NetworkData_decode v) (\<lambda>x. Ok (d\<lparr>network_data := Some x\<rparr>))
      else if t = diag_IPV6_ADDRESSES then
        and_then (decode_ipv6_address_list v) (\<lambda>x. Ok (d\<lparr>nd_addresses := Some x\<rparr>))
      else if t = diag_MAC_COUNTERS then
        and_then (decode_mac_counters v) (\<lambda>x. Ok (d\<lparr>mac_counters := Some x\<rparr>))
      else if t = diag_BATTERY_LEVEL then
        and_then (diag_read_u8 v ''Battery Level'') (\<lambda>x. Ok (d\<lparr>battery_level := Some x\<rparr>))
      else if t = diag_SUPPLY_VOLTAGE then
        and_then (diag_read_u16 v ''Supply Voltage'') (\<lambda>x. Ok (d\<lparr>supply_voltage := Some x\<rparr>))
      else if t = diag_CHILD_TABLE then
        and_then (decode_child_table v) (\<lambda>x. Ok (d\<lparr>child_table := Some x\<rparr>))
      else if t = diag_CHANNEL_PAGES then Ok (d\<lparr>channel_pages := Some v\<rparr>)
      else if t = diag_TYPE_LIST then Ok (d\<lparr>type_list := Some v\<rparr>)
      else if t = diag_EUI64 then
        and_then (decode_eui64 v) (\<lambda>x. Ok (d\<lparr>eui64 := Some x\<rparr>))
      else if t = diag_CHILD_IPV6_ADDRESSES then
        and_then (decode_child_ipv6_addresses v)
          (\<lambda>x. Ok (d\<lparr>child_ipv6_addresses :=
             Some ((case child_ipv6_addresses d of None \<Rightarrow> [] | Some xs \<Rightarrow> xs) @ [x])\<rparr>))
      else Ok d)"

fun decode_diag_entries :: "TlvEntry list \<Rightarrow> NetDiagData \<Rightarrow> error + NetDiagData" where
  "decode_diag_entries [] d = Ok d"
| "decode_diag_entries (e # es) d = and_then (decode_diag_entry e d) (decode_diag_entries es)"

definition NetDiagData_decode :: "bytes \<Rightarrow> error + NetDiagData" where
  "NetDiagData_decode body =
     and_then (map_err Tlv (TlvSet_parse body)) (\<lambda>t. decode_diag_entries (entries t) NetDiagData_default)"

section \<open>Every field is the decoding of the last TLV of its type\<close>

text \<open>
  A single-valued diagnostic field: one TLV type writes it, through one decoder, and no other TLV
  type touches it.
\<close>

lemma find_snoc: "find P (xs @ [x]) = (case find P xs of None \<Rightarrow> if P x then Some x else None | y \<Rightarrow> y)"
  by (induction xs) auto

locale diag_field =
  fixes t :: u8 and dec :: "bytes \<Rightarrow> error + 'a" and get :: "NetDiagData \<Rightarrow> 'a option"
  assumes writes: "ty e = t \<Longrightarrow> decode_diag_entry e d = Inr d' \<Longrightarrow> \<exists>x. dec (val e) = Inr x \<and> get d' = Some x"
    and keeps: "ty e \<noteq> t \<Longrightarrow> decode_diag_entry e d = Inr d' \<Longrightarrow> get d' = get d"
    and initially: "get NetDiagData_default = None"
begin

lemma last_one_wins:
  "decode_diag_entries es d = Inr d' \<Longrightarrow>
     (case find (\<lambda>e. ty e = t) (rev es) of
        None \<Rightarrow> get d' = get d
      | Some e \<Rightarrow> \<exists>x. dec (val e) = Inr x \<and> get d' = Some x)"
proof (induction es arbitrary: d)
  case Nil
  then show ?case by simp
next
  case (Cons e es)
  then obtain d1 where step: "decode_diag_entry e d = Inr d1" and rest: "decode_diag_entries es d1 = Inr d'"
    by (auto simp: result_simps)
  show ?case
    using Cons.IH [OF rest] writes [OF _ step] keeps [OF _ step]
    by (auto simp: find_snoc split: option.splits)
qed

lemma decoded: "decode_diag_entries (entries s) NetDiagData_default = Inr d \<Longrightarrow>
    map_transpose dec (last_value s t) = Inr (get d)"
  using last_one_wins [of "entries s" NetDiagData_default d] initially
  by (auto simp: last_value_def split: option.splits)

end

lemmas diag_entry_cases = decode_diag_entry_def Let_def const_defs NetDiagData_default_def result_simps

interpretation ext_mac_addr: diag_field diag_EXT_MAC_ADDRESS Inr ext_mac_addr
  by unfold_locales (auto simp: diag_entry_cases split: if_splits)

interpretation mac_addr: diag_field diag_MAC_ADDRESS "(\<lambda>v. diag_read_u16 v ''MAC Address'')" mac_addr
  by unfold_locales (auto simp: diag_entry_cases split: if_splits)

interpretation nd_mode: diag_field diag_MODE "ModeData_decode" nd_mode
  by unfold_locales (auto simp: diag_entry_cases split: if_splits)

interpretation nd_timeout: diag_field diag_TIMEOUT "(\<lambda>v. diag_read_u32 v ''Timeout'')" nd_timeout
  by unfold_locales (auto simp: diag_entry_cases split: if_splits)

interpretation connectivity: diag_field diag_CONNECTIVITY "decode_connectivity" connectivity
  by unfold_locales (auto simp: diag_entry_cases split: if_splits)

interpretation route64: diag_field diag_ROUTE64 "decode_route64" route64
  by unfold_locales (auto simp: diag_entry_cases split: if_splits)

interpretation leader_data: diag_field diag_LEADER_DATA "decode_leader_data" leader_data
  by unfold_locales (auto simp: diag_entry_cases split: if_splits)

interpretation network_data: diag_field diag_NETWORK_DATA "NetworkData_decode" network_data
  by unfold_locales (auto simp: diag_entry_cases split: if_splits)

interpretation nd_addresses: diag_field diag_IPV6_ADDRESSES "decode_ipv6_address_list" nd_addresses
  by unfold_locales (auto simp: diag_entry_cases split: if_splits)

interpretation mac_counters: diag_field diag_MAC_COUNTERS "decode_mac_counters" mac_counters
  by unfold_locales (auto simp: diag_entry_cases split: if_splits)

interpretation battery_level: diag_field diag_BATTERY_LEVEL "(\<lambda>v. diag_read_u8 v ''Battery Level'')" battery_level
  by unfold_locales (auto simp: diag_entry_cases split: if_splits)

interpretation supply_voltage: diag_field diag_SUPPLY_VOLTAGE "(\<lambda>v. diag_read_u16 v ''Supply Voltage'')" supply_voltage
  by unfold_locales (auto simp: diag_entry_cases split: if_splits)

interpretation child_table: diag_field diag_CHILD_TABLE "decode_child_table" child_table
  by unfold_locales (auto simp: diag_entry_cases split: if_splits)

interpretation channel_pages: diag_field diag_CHANNEL_PAGES "Inr" channel_pages
  by unfold_locales (auto simp: diag_entry_cases split: if_splits)

interpretation type_list: diag_field diag_TYPE_LIST "Inr" type_list
  by unfold_locales (auto simp: diag_entry_cases split: if_splits)

interpretation eui64: diag_field diag_EUI64 "decode_eui64" eui64
  by unfold_locales (auto simp: diag_entry_cases split: if_splits)

text \<open>The child address lists accumulate, one entry per TLV, in message order.\<close>

lemma child_ipv6_default: "child_ipv6_addresses NetDiagData_default = None"
  by (simp add: NetDiagData_default_def)

lemma map_transpose_Inr: "map_transpose Inr x = Inr x"
  by (cases x) simp_all

abbreviation child_lists :: "TlvEntry list \<Rightarrow> bytes list" where
  "child_lists es \<equiv> map val (filter (\<lambda>e. ty e = diag_CHILD_IPV6_ADDRESSES) es)"

lemma child_ipv6_step:
  "decode_diag_entry e d = Inr d' \<Longrightarrow>
     (if ty e = diag_CHILD_IPV6_ADDRESSES
      then \<exists>x. decode_child_ipv6_addresses (val e) = Inr x \<and>
        child_ipv6_addresses d' = Some ((case child_ipv6_addresses d of None \<Rightarrow> [] | Some xs \<Rightarrow> xs) @ [x])
      else child_ipv6_addresses d' = child_ipv6_addresses d)"
  by (auto simp: diag_entry_cases split: if_splits)

lemma child_ipv6_collected:
  "decode_diag_entries es d = Inr d' \<Longrightarrow>
     \<exists>xs. map_result decode_child_ipv6_addresses (child_lists es) = Inr xs \<and>
       child_ipv6_addresses d' =
         (if xs = [] then child_ipv6_addresses d
          else Some ((case child_ipv6_addresses d of None \<Rightarrow> [] | Some ys \<Rightarrow> ys) @ xs))"
proof (induction es arbitrary: d)
  case Nil
  then show ?case by simp
next
  case (Cons e es)
  then obtain d1 where step: "decode_diag_entry e d = Inr d1" and rest: "decode_diag_entries es d1 = Inr d'"
    by (auto simp: result_simps)
  from Cons.IH [OF rest] obtain xs
    where xs: "map_result decode_child_ipv6_addresses (child_lists es) = Inr xs"
      and d': "child_ipv6_addresses d' = (if xs = [] then child_ipv6_addresses d1
          else Some ((case child_ipv6_addresses d1 of None \<Rightarrow> [] | Some ys \<Rightarrow> ys) @ xs))"
    by blast
  show ?case
  proof (cases "ty e = diag_CHILD_IPV6_ADDRESSES")
    case True
    with child_ipv6_step [OF step] obtain x where "decode_child_ipv6_addresses (val e) = Inr x"
        "child_ipv6_addresses d1 = Some ((case child_ipv6_addresses d of None \<Rightarrow> [] | Some xs \<Rightarrow> xs) @ [x])"
      by auto
    with True xs d' show ?thesis by simp
  next
    case False
    with child_ipv6_step [OF step] xs d' show ?thesis by simp
  qed
qed

text \<open>C40: When a diagnostic answer decodes, every single-valued field of the result is the decoding of
  the value of the last TLV of that field's type (absent when the answer has no such TLV), whatever
  other TLVs the answer carries and in whatever order; the child address lists hold one entry per
  Child IPv6 Address List TLV, in message order.
\<close>

theorem net_diag_fields:
  assumes "NetDiagData_decode body = Inr d"
  shows "\<exists>s. TlvSet_parse body = Inr s \<and>
    last_value s diag_EXT_MAC_ADDRESS = ext_mac_addr d \<and>
    map_transpose (\<lambda>v. diag_read_u16 v ''MAC Address'') (last_value s diag_MAC_ADDRESS) = Inr (mac_addr d) \<and>
    map_transpose ModeData_decode (last_value s diag_MODE) = Inr (nd_mode d) \<and>
    map_transpose (\<lambda>v. diag_read_u32 v ''Timeout'') (last_value s diag_TIMEOUT) = Inr (nd_timeout d) \<and>
    map_transpose decode_connectivity (last_value s diag_CONNECTIVITY) = Inr (connectivity d) \<and>
    map_transpose decode_route64 (last_value s diag_ROUTE64) = Inr (route64 d) \<and>
    map_transpose decode_leader_data (last_value s diag_LEADER_DATA) = Inr (leader_data d) \<and>
    map_transpose NetworkData_decode (last_value s diag_NETWORK_DATA) = Inr (network_data d) \<and>
    map_transpose decode_ipv6_address_list (last_value s diag_IPV6_ADDRESSES) = Inr (nd_addresses d) \<and>
    map_transpose decode_mac_counters (last_value s diag_MAC_COUNTERS) = Inr (mac_counters d) \<and>
    map_transpose (\<lambda>v. diag_read_u8 v ''Battery Level'') (last_value s diag_BATTERY_LEVEL) = Inr (battery_level d) \<and>
    map_transpose (\<lambda>v. diag_read_u16 v ''Supply Voltage'') (last_value s diag_SUPPLY_VOLTAGE) = Inr (supply_voltage d) \<and>
    map_transpose decode_child_table (last_value s diag_CHILD_TABLE) = Inr (child_table d) \<and>
    last_value s diag_CHANNEL_PAGES = channel_pages d \<and>
    last_value s diag_TYPE_LIST = type_list d \<and>
    map_transpose decode_eui64 (last_value s diag_EUI64) = Inr (eui64 d) \<and>
    (\<exists>xs. map_result decode_child_ipv6_addresses (child_lists (entries s)) = Inr xs \<and>
       child_ipv6_addresses d = (if xs = [] then None else Some xs))"
proof -
  from assms obtain s where s: "TlvSet_parse body = Inr s"
      and run: "decode_diag_entries (entries s) NetDiagData_default = Inr d"
    by (auto simp: NetDiagData_decode_def result_simps)
  have children: "\<exists>xs. map_result decode_child_ipv6_addresses (child_lists (entries s)) = Inr xs \<and>
       child_ipv6_addresses d = (if xs = [] then None else Some xs)"
    using child_ipv6_collected [OF run] by (simp only: child_ipv6_default option.case append_Nil)
  show ?thesis
    by (rule exI [of _ s]) (simp only: s children simp_thms
        ext_mac_addr.decoded [OF run, unfolded map_transpose_Inr sum.inject]
        mac_addr.decoded [OF run]
        nd_mode.decoded [OF run]
        nd_timeout.decoded [OF run]
        connectivity.decoded [OF run]
        route64.decoded [OF run]
        leader_data.decoded [OF run]
        network_data.decoded [OF run]
        nd_addresses.decoded [OF run]
        mac_counters.decoded [OF run]
        battery_level.decoded [OF run]
        supply_voltage.decoded [OF run]
        child_table.decoded [OF run]
        channel_pages.decoded [OF run, unfolded map_transpose_Inr sum.inject]
        type_list.decoded [OF run, unfolded map_transpose_Inr sum.inject]
        eui64.decoded [OF run])
qed

text \<open>A body with the same TLV twice: the later MAC address is the one reported.\<close>

theorem net_diag_fields_witness:
  "NetDiagData_decode [1, 2, 0xAA, 0xBB, 1, 2, 0x12, 0x34, 99, 1, 7] =
     Inr (NetDiagData_default\<lparr>mac_addr := Some 0x1234\<rparr>) \<and>
   (\<exists>s. TlvSet_parse [1, 2, 0xAA, 0xBB, 1, 2, 0x12, 0x34, 99, 1, 7] = Inr s \<and>
     map_transpose (\<lambda>v. diag_read_u16 v ''MAC Address'') (last_value s diag_MAC_ADDRESS) = Inr (Some 0x1234))"
proof -
  have "TlvSet_parse [1, 2, 0xAA, 0xBB, 1, 2, 0x12, 0x34, 99, 1, 7] =
      Inr \<lparr>entries = [TlvEntry_new 1 [0xAA, 0xBB], TlvEntry_new 1 [0x12, 0x34], TlvEntry_new 99 [7]]\<rparr>"
    by (rule TlvSet_parse_encode) (simp add: TlvSet_encode_Ok tlv_bytes_def)
  then have d: "NetDiagData_decode [1, 2, 0xAA, 0xBB, 1, 2, 0x12, 0x34, 99, 1, 7] =
     Inr (NetDiagData_default\<lparr>mac_addr := Some 0x1234\<rparr>)"
    by (simp add: NetDiagData_decode_def decode_diag_entry_def const_defs diag_read_u16_def wire_read_u16_def from_be_def)
  have "mac_addr (NetDiagData_default\<lparr>mac_addr := Some 0x1234\<rparr>) = Some 0x1234"
    by simp
  then show ?thesis
    using net_diag_fields [OF d] d by metis
qed

section \<open>Bit fields, route tables and Network Data\<close>

lemma drop_bit_0x80: "j < 8 \<Longrightarrow> drop_bit j (0x80 :: u8) = 2 ^ (7 - j)"
proof -
  assume "j < 8"
  then have "j \<in> {0, 1, 2, 3, 4, 5, 6, 7}" by auto
  then show ?thesis by auto
qed

lemma bit_3: "bit (3 :: u8) n \<longleftrightarrow> n < 2"
proof -
  have "(3 :: u8) = mask 2" by (simp add: mask_eq_exp_minus_1)
  then show ?thesis by (simp only: bit_mask_iff) auto
qed

lemma bit_15: "bit (15 :: u8) n \<longleftrightarrow> n < 4"
proof -
  have "(15 :: u8) = mask 4" by (simp add: mask_eq_exp_minus_1)
  then show ?thesis by (simp only: bit_mask_iff) auto
qed

lemma and_3_less: "(b :: u8) AND 3 < 4"
  using and_mask_less' [of 2 b] by (simp add: mask_eq_exp_minus_1)

lemma and_15_less: "(b :: u8) AND 15 < 16"
  using and_mask_less' [of 4 b] by (simp add: mask_eq_exp_minus_1)

definition route_byte :: "RouteDataEntry \<Rightarrow> u8" where
  "route_byte e = push_bit 6 (outgoing_link_quality e) OR push_bit 4 (rd_incoming_link_quality e) OR route_cost e"

lemma route_byte_split:
  "push_bit 6 (drop_bit 6 b AND 3) OR push_bit 4 (drop_bit 4 b AND 3) OR (b AND 15) = (b :: u8)"
proof (rule bit_word_eqI)
  fix n assume "n < LENGTH(8)"
  then have "n \<in> {0, 1, 2, 3, 4, 5, 6, 7}" by auto
  then show "bit (push_bit 6 (drop_bit 6 b AND 3) OR push_bit 4 (drop_bit 4 b AND 3) OR (b AND 15)) n = bit b n"
    by (auto simp: bit_push_bit_iff bit_drop_bit_eq bit_and_iff bit_or_iff bit_3 bit_15)
qed

lemma route_byte_decoded:
  "route_byte \<lparr>rd_router_id = i, outgoing_link_quality = drop_bit 6 b AND 3,
     rd_incoming_link_quality = drop_bit 4 b AND 3, route_cost = b AND 15\<rparr> = b"
  by (simp only: route_byte_def RouteDataEntry.simps route_byte_split)

lemma router_ids_bits: "router_ids m = filter (\<lambda>b. bit (m ! (b div 8)) (7 - b mod 8)) [0..<64]"
  unfolding router_ids_def
  by (rule filter_cong) (simp_all add: drop_bit_0x80 and_exp_eq_0_iff_not_bit)

lemma map_unat_of_nat_router_ids: "map (\<lambda>i. unat (of_nat i :: u8)) (router_ids m) = router_ids m"
  by (rule map_idI) (auto simp: router_ids_def unat_of_nat)

text \<open>A Route64 value that decodes describes exactly the assigned routers: the router ids of its
  entries, in order, are the positions of the one bits of the 64-bit mask, most significant first;
  link qualities are below 4 and costs below 16; and nothing is lost, because the value is the
  sequence number, the mask and the re-packed entries.
\<close>

theorem route64_exact:
  assumes "decode_route64 v = Inr r"
  shows "map (unat \<circ> rd_router_id) (route_data r) =
           filter (\<lambda>b. bit (r64_mask r ! (b div 8)) (7 - b mod 8)) [0..<64] \<and>
         (\<forall>e \<in> set (route_data r). outgoing_link_quality e < 4 \<and> rd_incoming_link_quality e < 4 \<and> route_cost e < 16) \<and>
         length (r64_mask r) = 8 \<and>
         v = r64_id_sequence r # r64_mask r @ map route_byte (route_data r)"
proof -
  define m where "m = take 8 (drop 1 v)"
  from assms have l: "9 \<le> length v" "length (drop 9 v) = length (router_ids m)"
    by (auto simp: decode_route64_def Let_def m_def split: if_splits)
  have r: "r = \<lparr>r64_id_sequence = v ! 0, r64_mask = m,
           route_data = map (\<lambda>(i, b).
             \<lparr>rd_router_id = of_nat i, outgoing_link_quality = drop_bit 6 b AND 0x03,
              rd_incoming_link_quality = drop_bit 4 b AND 0x03, route_cost = b AND 0x0f\<rparr>)
             (zip (router_ids m) (drop 9 v))\<rparr>"
    using assms l by (simp add: decode_route64_def Let_def m_def)
  have ids: "map (unat \<circ> rd_router_id) (route_data r) = map (\<lambda>i. unat (of_nat i :: u8)) (map fst (zip (router_ids m) (drop 9 v)))"
    by (simp add: r case_prod_beta)
  have bytes: "map route_byte (route_data r) = map snd (zip (router_ids m) (drop 9 v))"
    by (simp add: r case_prod_beta route_byte_decoded)
  have "v = v ! 0 # m @ drop 9 v"
    using l(1) by (cases v) (simp_all add: m_def)
  moreover have "length m = 8"
    using l(1) by (simp add: m_def)
  moreover have "\<forall>e \<in> set (route_data r).
      outgoing_link_quality e < 4 \<and> rd_incoming_link_quality e < 4 \<and> route_cost e < 16"
    by (auto simp: r and_3_less and_15_less)
  moreover have "map route_byte (route_data r) = drop 9 v"
    using l(2) by (simp add: bytes)
  moreover have "map (unat \<circ> rd_router_id) (route_data r) = router_ids m"
    unfolding ids using l(2) by (simp add: map_unat_of_nat_router_ids)
  ultimately show ?thesis
    by (simp add: r router_ids_bits)
qed

theorem route64_exact_witness:
  "\<exists>r. decode_route64 [9, 0x80, 0, 0, 0, 0, 0, 0, 0x01, 0x61, 0xB2] = Inr r \<and>
     map (unat \<circ> rd_router_id) (route_data r) = [0, 63]"
proof -
  define r where "r = \<lparr>r64_id_sequence = 9, r64_mask = [0x80, 0, 0, 0, 0, 0, 0, 0x01], route_data =
     [\<lparr>rd_router_id = 0, outgoing_link_quality = 1, rd_incoming_link_quality = 2, route_cost = 1\<rparr>,
      \<lparr>rd_router_id = 63, outgoing_link_quality = 2, rd_incoming_link_quality = 3, route_cost = 2\<rparr>]\<rparr>"
  have "router_ids [0x80, 0, 0, 0, 0, 0, 0, 0x01] = [0, 63]"
    by (simp add: router_ids_def upt_rec)
  then have d: "decode_route64 [9, 0x80, 0, 0, 0, 0, 0, 0, 0x01, 0x61, 0xB2] = Inr r"
    by (simp add: decode_route64_def Let_def r_def)
  show ?thesis
    using route64_exact [OF d] d by (auto simp: r_def)
qed

lemma child_id_less: "push_bit 8 (ucast (a AND 1 :: u8)) OR ucast (b :: u8) < (512 :: u16)"
proof -
  have one: "ucast (a AND 1) = (of_bool (odd a) :: u16)"
    by (simp add: and_one_eq mod_2_eq_odd)
  have bits: "push_bit 8 (of_bool c) OR ucast b = take_bit 9 (push_bit 8 (of_bool c) OR ucast b :: u16)" for c
    unfolding bit_eq_iff bit_take_bit_iff bit_push_bit_iff bit_or_iff bit_ucast_iff
    by (auto simp: bit_1_iff of_bool_def dest: bit_imp_le_length)
  have "take_bit 9 x < 512" for x :: u16
    using and_mask_less' [of 9 x] by (simp add: take_bit_eq_mask)
  then show ?thesis
    unfolding one by (subst bits)
qed

lemma unat_power_u32: "n < 32 \<Longrightarrow> unat (2 ^ n :: u32) = 2 ^ n"
proof -
  assume "n < 32"
  then have "(2 :: nat) ^ n < 2 ^ 32"
    by (rule power_strict_increasing) simp
  then show ?thesis
    using unat_of_nat [where 'a = 32 and x = "2 ^ n"] by simp
qed

lemma timeout_seconds_exact:
  assumes "timeout_exponent e < 32"
  shows "unat (timeout_seconds e) = (if timeout_exponent e < 4 then 0 else 2 ^ (unat (timeout_exponent e) - 4))"
proof (cases "timeout_exponent e < 4")
  case False
  then have "unat (timeout_exponent e - 4) = unat (timeout_exponent e) - 4"
    by (simp add: unat_sub not_less)
  moreover have "unat (timeout_exponent e) - 4 < 32"
    using assms by (simp add: word_less_nat_alt)
  ultimately show ?thesis
    using False by (simp add: timeout_seconds_def unat_power_u32)
qed (simp add: timeout_seconds_def)

lemma chunks_exact_count: "0 < n \<Longrightarrow> n dvd length xs \<Longrightarrow> n * length (chunks n xs) = length xs"
proof (induction n xs rule: chunks.induct)
  case (1 n xs)
  show ?case
  proof (cases "xs = []")
    case False
    then have "n \<le> length xs"
      using 1 by (intro dvd_imp_le) auto
    then show ?thesis
      using 1 False by (simp add: chunks_Cons dvd_diff_nat)
  qed simp
qed

lemma map_result_range:
  "map_result f xs = Inr ys \<Longrightarrow> (\<And>x y. f x = Inr y \<Longrightarrow> P y) \<Longrightarrow> \<forall>y\<in>set ys. P y"
  by (induction xs arbitrary: ys) (auto simp: result_simps)

text \<open>A Child Table holds one row per three bytes. Every row keeps the ranges of its packed fields
  (5-bit timeout exponent, 2-bit link quality, 9-bit child id), so the timeout in seconds is the
  exact power of two: the 32-bit shift never overflows.
\<close>

theorem child_table_ranges:
  assumes "decode_child_table v = Inr es"
  shows "length v = 3 * length es \<and>
    (\<forall>e\<in>set es. timeout_exponent e < 32 \<and> ct_incoming_link_quality e < 4 \<and> ct_child_id e < 512 \<and>
       unat (timeout_seconds e) = (if timeout_exponent e < 4 then 0 else 2 ^ (unat (timeout_exponent e) - 4)))"
proof
  from assms have m: "length v mod 3 = 0" and es: "map_result decode_child_entry (chunks 3 v) = Inr es"
    by (auto simp: decode_child_table_def split: if_splits)
  show "length v = 3 * length es"
    using chunks_exact_count [of 3 v] m by (simp add: map_result_Ok_length [OF es] dvd_eq_mod_eq_0)
  have exp: "drop_bit 3 b < 32" for b :: u8
    using unat_u8_le [of b] by (simp add: word_less_nat_alt unat_drop_bit_eq drop_bit_nat_def del: unat_u8_le)
  show "\<forall>e\<in>set es. timeout_exponent e < 32 \<and> ct_incoming_link_quality e < 4 \<and> ct_child_id e < 512 \<and>
       unat (timeout_seconds e) = (if timeout_exponent e < 4 then 0 else 2 ^ (unat (timeout_exponent e) - 4))"
  proof (rule map_result_range [OF es])
    fix c e
    assume "decode_child_entry c = Inr e"
    then have "timeout_exponent e < 32 \<and> ct_incoming_link_quality e < 4 \<and> ct_child_id e < 512"
      by (auto simp: decode_child_entry_def result_simps exp and_3_less child_id_less)
    then show "timeout_exponent e < 32 \<and> ct_incoming_link_quality e < 4 \<and> ct_child_id e < 512 \<and>
       unat (timeout_seconds e) = (if timeout_exponent e < 4 then 0 else 2 ^ (unat (timeout_exponent e) - 4))"
      using timeout_seconds_exact by blast
  qed
qed

theorem child_table_ranges_witness:
  "\<exists>e. decode_child_table [0xFF, 0x07, 0x0F] = Inr [e] \<and> timeout_exponent e = 31 \<and>
     ct_child_id e = 0x107 \<and> unat (timeout_seconds e) = 2 ^ 27"
proof -
  define e where "e = \<lparr>timeout_exponent = 31, ct_incoming_link_quality = 3, ct_child_id = 0x107,
    ct_mode = \<lparr>rx_on_when_idle = True, is_mtd = False, requires_full_network_data = True\<rparr>\<rparr>"
  have d: "decode_child_table [0xFF, 0x07, 0x0F] = Inr [e]"
    by (simp add: decode_child_table_def decode_child_entry_def ModeData_decode_def chunks_Cons e_def)
  show ?thesis
    using child_table_ranges [OF d] d by (simp add: e_def)
qed

text \<open>
  A Network Data TLV as the wire has it: the type in the upper seven bits of the first byte, the
  stable flag in its lowest bit, then a one-byte length and the value.
\<close>

fun nd_tlv :: "u8 \<times> bool \<times> bytes \<Rightarrow> bytes" where
  "nd_tlv (t, s, v) = [push_bit 1 t OR of_bool s, of_nat (length v)] @ v"

fun nd_wf :: "u8 \<times> bool \<times> bytes \<Rightarrow> bool" where
  "nd_wf (t, s, v) \<longleftrightarrow> t < 128 \<and> length v \<le> 255"

lemma nd_type_byte: "t < 128 \<Longrightarrow> drop_bit 1 (push_bit 1 t OR of_bool b :: u8) = t"
proof -
  assume "t < 128"
  then have "take_bit 7 t = t"
    by (simp add: word_unat_eq_iff unsigned_take_bit_eq take_bit_nat_eq_self_iff word_less_nat_alt)
  then have "bit t n \<Longrightarrow> n < 7" for n
    by (metis bit_take_bit_iff)
  then show ?thesis
    unfolding bit_eq_iff bit_drop_bit_eq bit_or_iff bit_push_bit_iff
    by (auto simp: of_bool_def bit_1_iff)
qed

lemma NetworkDataTlv_next_enc:
  "nd_wf x \<Longrightarrow> NetworkDataTlv_next (nd_tlv x @ rest) = Inr (fst x, snd (snd x), rest)"
proof (cases x)
  case (fields t b v)
  assume "nd_wf x"
  with fields show ?thesis
    using nd_type_byte [of t b] by (simp add: NetworkDataTlv_next_def Let_def unat_of_nat del: push_bit_of_Suc_0 push_bit_Suc)
qed

text \<open>Decoding a sequence of Network Data TLVs visits each of them: the prefixes of the result are
  the decodings of the values of the Prefix TLVs, in order and whatever their stable flags, other
  TLVs are skipped, and the first malformed prefix makes the whole decode fail with its error.
\<close>

theorem network_data_prefixes:
  assumes "list_all nd_wf xs"
  shows "NetworkData_prefixes (concat (map nd_tlv xs)) =
     map_result decode_prefix_entry (map (\<lambda>x. snd (snd x)) (filter (\<lambda>x. fst x = 1) xs))"
  using assms
proof (induction xs)
  case Nil
  then show ?case by (simp add: NetworkData_prefixes.simps)
next
  case (Cons x xs)
  have "nd_tlv x \<noteq> []"
    by (cases x) simp
  with Cons show ?case
    by (subst NetworkData_prefixes.simps) (simp add: NetworkDataTlv_next_enc)
qed

theorem network_data_prefixes_witness:
  "NetworkData_prefixes [0x03, 4, 0, 12, 0xFD, 0x10, 0x08, 1, 9] =
     Inr [\<lparr>domain_id = 0, prefix_bit_length = 12, prefix_bytes = [0xFD, 0x10],
       six_low_pan_context = None, has_route = [], border_routers = []\<rparr>]"
  using network_data_prefixes [of "[(1, True, [0, 12, 0xFD, 0x10]), (4, False, [9])]"]
  by (simp add: decode_prefix_entry_def Let_def decode_prefix_subs.simps)

end
