(* ===== verification/Messages.thy ===== *)
theory Messages
  imports Datasets Coap Diag
begin

text \<open>
  MeshCoP requests and notifications (\<^verbatim>\<open>meshcop/types.rs\<close>, \<^verbatim>\<open>meshcop/builders.rs\<close>,
  \<^verbatim>\<open>meshcop/parsers.rs\<close>): the operations and their resources, one builder per request and the
  parsers for responses, relayed joiner traffic and proxied UDP. Shown: every builder produces a POST
  for its resource whose body parses back into exactly the TLVs of the request, and the
  encapsulations that are sent are the ones the receiving parsers read.
\<close>

section \<open>Operations, states and notifications\<close>

datatype CommissionerOperation =
    Petition
  | KeepAlive
  | GetCommissionerDataset
  | SetCommissionerDataset
  | GetActiveDataset
  | SetActiveDataset
  | GetPendingDataset
  | SetPendingDataset
  | SetSecurePendingDataset
  | GetBbrDataset
  | SetBbrDataset
  | AnnounceBegin
  | PanIdQuery
  | EnergyScan
  | RegisterMulticastListener
  | Reenroll
  | DomainReset
  | Migrate
  | DiagnosticGet
  | DiagnosticGetUnicast
  | DiagnosticReset
  | SendToJoiner

fun operation_uri_path :: "CommissionerOperation \<Rightarrow> bytes" where
  "operation_uri_path Petition = uri_PETITIONING"
| "operation_uri_path KeepAlive = uri_KEEP_ALIVE"
| "operation_uri_path GetCommissionerDataset = uri_MGMT_COMMISSIONER_GET"
| "operation_uri_path SetCommissionerDataset = uri_MGMT_COMMISSIONER_SET"
| "operation_uri_path GetActiveDataset = uri_MGMT_ACTIVE_GET"
| "operation_uri_path SetActiveDataset = uri_MGMT_ACTIVE_SET"
| "operation_uri_path GetPendingDataset = uri_MGMT_PENDING_GET"
| "operation_uri_path SetPendingDataset = uri_MGMT_PENDING_SET"
| "operation_uri_path SetSecurePendingDataset = uri_MGMT_SEC_PENDING_SET"
| "operation_uri_path GetBbrDataset = uri_MGMT_BBR_GET"
| "operation_uri_path SetBbrDataset = uri_MGMT_BBR_SET"
| "operation_uri_path AnnounceBegin = uri_MGMT_ANNOUNCE_BEGIN"
| "operation_uri_path PanIdQuery = uri_MGMT_PANID_QUERY"
| "operation_uri_path EnergyScan = uri_MGMT_ED_SCAN"
| "operation_uri_path RegisterMulticastListener = uri_MLR"
| "operation_uri_path Reenroll = uri_MGMT_REENROLL"
| "operation_uri_path DomainReset = uri_MGMT_DOMAIN_RESET"
| "operation_uri_path Migrate = uri_MGMT_NET_MIGRATE"
| "operation_uri_path DiagnosticGet = uri_DIAG_GET_QUERY"
| "operation_uri_path DiagnosticGetUnicast = uri_DIAG_GET_REQUEST"
| "operation_uri_path DiagnosticReset = uri_DIAG_RESET"
| "operation_uri_path SendToJoiner = uri_RELAY_TX"

fun operation_label :: "CommissionerOperation \<Rightarrow> string" where
  "operation_label Petition = ''petition''"
| "operation_label KeepAlive = ''keep-alive''"
| "operation_label GetCommissionerDataset = ''get-commissioner-dataset''"
| "operation_label SetCommissionerDataset = ''set-commissioner-dataset''"
| "operation_label GetActiveDataset = ''get-active-dataset''"
| "operation_label SetActiveDataset = ''set-active-dataset''"
| "operation_label GetPendingDataset = ''get-pending-dataset''"
| "operation_label SetPendingDataset = ''set-pending-dataset''"
| "operation_label SetSecurePendingDataset = ''set-secure-pending-dataset''"
| "operation_label GetBbrDataset = ''get-bbr-dataset''"
| "operation_label SetBbrDataset = ''set-bbr-dataset''"
| "operation_label AnnounceBegin = ''announce-begin''"
| "operation_label PanIdQuery = ''pan-id-query''"
| "operation_label EnergyScan = ''energy-scan''"
| "operation_label RegisterMulticastListener = ''register-multicast-listener''"
| "operation_label Reenroll = ''command-reenroll''"
| "operation_label DomainReset = ''command-domain-reset''"
| "operation_label Migrate = ''command-migrate''"
| "operation_label DiagnosticGet = ''diagnostic-get''"
| "operation_label DiagnosticGetUnicast = ''diagnostic-get-unicast''"
| "operation_label DiagnosticReset = ''diagnostic-reset''"
| "operation_label SendToJoiner = ''send-to-joiner''"

datatype MeshcopState = Reject | Pending | Accept

fun MeshcopState_to_wire :: "MeshcopState \<Rightarrow> u8" where
  "MeshcopState_to_wire Reject = 0xff"
| "MeshcopState_to_wire Pending = 0x00"
| "MeshcopState_to_wire Accept = 0x01"

definition MeshcopState_from_wire :: "u8 \<Rightarrow> error + MeshcopState" where
  "MeshcopState_from_wire v =
     (if v = 0xff then Ok Reject
      else if v = 0x00 then Ok Pending
      else if v = 0x01 then Ok Accept
      else Err (Dataset ''invalid MeshCoP State TLV value''))"

record MeshcopPetitionResponse =
  pet_state :: MeshcopState
  pet_session_id :: "u16 option"
  existing_commissioner_id :: "bytes option"

datatype MeshcopNotification =
    DatasetChanged
  | DiagGetAnswer NetDiagData
  | PanIdConflict (conflict_channel_mask: u32) (conflict_pan_id: u16)
  | EnergyReport (report_channel_mask: u32) (energy_list: bytes)
  | RelayRx (joiner_udp_port: u16) (joiner_router_locator: u16) (joiner_iid: bytes) (relay_payload: bytes)

section \<open>IPv6 addresses as text\<close>

fun show_hex_nat :: "nat \<Rightarrow> string" where
  "show_hex_nat n = (if n < 16 then [hex_digit n] else show_hex_nat (n div 16) @ [hex_digit (n mod 16)])"

declare show_hex_nat.simps [simp del]

definition segments :: "Ipv6Addr \<Rightarrow> nat list" where
  "segments a = map (\<lambda>i. unat (ucast (drop_bit (112 - 16 * i) a) :: u16)) [0..<8]"

text \<open>The first longest run of zero segments, as (start, length).\<close>

fun zero_span :: "nat \<Rightarrow> nat list \<Rightarrow> nat \<times> nat \<Rightarrow> nat \<times> nat \<Rightarrow> nat \<times> nat" where
  "zero_span i [] current longest = longest"
| "zero_span i (s # ss) (start, len) longest =
     (if s = 0 then
        let current = (if len = 0 then i else start, Suc len) in
        zero_span (Suc i) ss current (if snd current > snd longest then current else longest)
      else zero_span (Suc i) ss (0, 0) longest)"

definition show_segments :: "nat list \<Rightarrow> string" where
  "show_segments ss = join_with (CHR '':'') (map show_hex_nat ss)"

definition show_ipv6 :: "Ipv6Addr \<Rightarrow> string" where
  "show_ipv6 a =
     (let ss = segments a in
      if take 6 ss = [0, 0, 0, 0, 0, 0xffff] then
        ''::ffff:'' @ show_nat (ss ! 6 div 256) @ ''.'' @ show_nat (ss ! 6 mod 256) @ ''.''
          @ show_nat (ss ! 7 div 256) @ ''.'' @ show_nat (ss ! 7 mod 256)
      else
        let (start, len) = zero_span 0 ss (0, 0) (0, 0) in
        if len > 1 then show_segments (take start ss) @ ''::'' @ show_segments (drop (start + len) ss)
        else show_segments ss)"

definition is_multicast :: "Ipv6Addr \<Rightarrow> bool" where
  "is_multicast a = (octets a ! 0 = 0xff)"

section \<open>Request builders\<close>

text \<open>A body is built by appending TLVs to an empty buffer; the first error abandons the request.\<close>

definition build :: "(bytes, error, unit) action \<Rightarrow> error + bytes" where
  "build a = (case a [] of (out, r) \<Rightarrow> and_then r (\<lambda>_. Ok out))"

definition confirmable_type :: "bool \<Rightarrow> CoapType" where
  "confirmable_type c = (if c then Confirmable else NonConfirmable)"

definition channel_mask_value :: "u32 \<Rightarrow> error + bytes" where
  "channel_mask_value m =
     (if m = 0 then Err (Dataset ''channel mask must not be zero'')
      else ChannelMaskEntry_encode_all [\<lparr>cm_page = 0, cm_mask = to_be 4 m\<rparr>])"

definition petition_request :: "u16 \<Rightarrow> bytes \<Rightarrow> bytes \<Rightarrow> error + CoapMessage" where
  "petition_request mid tok commissioner_id =
     and_then (build (append_tlv TLV_COMMISSIONER_ID commissioner_id))
       (post_request Confirmable mid tok uri_PETITIONING)"

definition keep_alive_request :: "u16 \<Rightarrow> bytes \<Rightarrow> u16 \<Rightarrow> bool \<Rightarrow> error + CoapMessage" where
  "keep_alive_request mid tok session_id keep_alive =
     (let state = if keep_alive then Accept else Reject in
      and_then
        (build (st_then (append_tlv TLV_STATE [MeshcopState_to_wire state])
           (\<lambda>_. append_u16 TLV_COMMISSIONER_SESSION_ID session_id)))
        (post_request Confirmable mid tok uri_KEEP_ALIVE))"

definition dataset_get_request :: "CommissionerOperation \<Rightarrow> u16 \<Rightarrow> bytes \<Rightarrow> bytes \<Rightarrow> error + CoapMessage" where
  "dataset_get_request operation mid tok get_tlv_types =
     and_then
       (build (if get_tlv_types \<noteq> [] then append_tlv TLV_GET get_tlv_types else st_ok ()))
       (post_request Confirmable mid tok (operation_uri_path operation))"

definition dataset_set_request ::
  "CommissionerOperation \<Rightarrow> u16 \<Rightarrow> bytes \<Rightarrow> u16 \<Rightarrow> Dataset \<Rightarrow> error + CoapMessage" where
  "dataset_set_request operation mid tok session_id dataset =
     and_then
       (build (st_then (append_u16 TLV_COMMISSIONER_SESSION_ID session_id)
          (\<lambda>_. st_then (st_lift (Dataset_to_bytes dataset)) (\<lambda>bs. st_modify (\<lambda>out. out @ bs)))))
       (post_request Confirmable mid tok (operation_uri_path operation))"

definition secure_pending_set_request ::
  "u16 \<Rightarrow> bytes \<Rightarrow> u16 \<Rightarrow> u32 \<Rightarrow> bytes \<Rightarrow> Dataset \<Rightarrow> error + CoapMessage" where
  "secure_pending_set_request mid tok session_id max_retrieval_timer retrieval_uri dataset =
     and_then (Dataset_pending_timestamp dataset)
       (\<lambda>pending_timestamp.
          let secure_dissemination =
            (case pending_timestamp of None \<Rightarrow> [] | Some t \<Rightarrow> Timestamp_to_value t)
              @ to_be 4 max_retrieval_timer @ retrieval_uri in
          and_then
            (build (st_then (append_u16 TLV_COMMISSIONER_SESSION_ID session_id)
               (\<lambda>_. st_then (append_tlv TLV_SECURE_DISSEMINATION secure_dissemination)
               (\<lambda>_. st_then (st_lift (Dataset_to_bytes dataset)) (\<lambda>bs. st_modify (\<lambda>out. out @ bs))))))
            (post_request Confirmable mid tok uri_MGMT_SEC_PENDING_SET))"

definition announce_begin_request ::
  "u16 \<Rightarrow> bytes \<Rightarrow> u16 \<Rightarrow> u32 \<Rightarrow> u8 \<Rightarrow> u16 \<Rightarrow> bool \<Rightarrow> error + CoapMessage" where
  "announce_begin_request mid tok session_id channel_mask count period_ms confirmable =
     and_then
       (build (st_then (append_u16 TLV_COMMISSIONER_SESSION_ID session_id)
          (\<lambda>_. st_then (st_lift (channel_mask_value channel_mask))
          (\<lambda>v. st_then (append_tlv TLV_CHANNEL_MASK v)
          (\<lambda>_. st_then (append_u8 TLV_COUNT count)
          (\<lambda>_. append_u16 TLV_PERIOD period_ms))))))
       (post_request (confirmable_type confirmable) mid tok uri_MGMT_ANNOUNCE_BEGIN)"

definition pan_id_query_request ::
  "u16 \<Rightarrow> bytes \<Rightarrow> u16 \<Rightarrow> u32 \<Rightarrow> u16 \<Rightarrow> bool \<Rightarrow> error + CoapMessage" where
  "pan_id_query_request mid tok session_id channel_mask pan_id confirmable =
     and_then
       (build (st_then (append_u16 TLV_COMMISSIONER_SESSION_ID session_id)
          (\<lambda>_. st_then (st_lift (channel_mask_value channel_mask))
          (\<lambda>v. st_then (append_tlv TLV_CHANNEL_MASK v)
          (\<lambda>_. append_u16 TLV_PAN_ID pan_id)))))
       (post_request (confirmable_type confirmable) mid tok uri_MGMT_PANID_QUERY)"

record EnergyScanRequest =
  scan_channel_mask :: u32
  scan_count :: u8
  scan_period_ms :: u16
  scan_duration_ms :: u16
  scan_confirmable :: bool

definition energy_scan_request ::
  "u16 \<Rightarrow> bytes \<Rightarrow> u16 \<Rightarrow> EnergyScanRequest \<Rightarrow> error + CoapMessage" where
  "energy_scan_request mid tok session_id scan =
     and_then
       (build (st_then (append_u16 TLV_COMMISSIONER_SESSION_ID session_id)
          (\<lambda>_. st_then (st_lift (channel_mask_value (scan_channel_mask scan)))
          (\<lambda>v. st_then (append_tlv TLV_CHANNEL_MASK v)
          (\<lambda>_. st_then (append_u8 TLV_COUNT (scan_count scan))
          (\<lambda>_. st_then (append_u16 TLV_PERIOD (scan_period_ms scan))
          (\<lambda>_. append_u16 TLV_SCAN_DURATION (scan_duration_ms scan))))))))
       (post_request (confirmable_type (scan_confirmable scan)) mid tok uri_MGMT_ED_SCAN)"

definition session_command_request ::
  "CommissionerOperation \<Rightarrow> u16 \<Rightarrow> bytes \<Rightarrow> u16 \<Rightarrow> bool \<Rightarrow> error + CoapMessage" where
  "session_command_request operation mid tok session_id confirmable =
     and_then (build (append_u16 TLV_COMMISSIONER_SESSION_ID session_id))
       (post_request (confirmable_type confirmable) mid tok (operation_uri_path operation))"

definition migrate_request :: "u16 \<Rightarrow> bytes \<Rightarrow> u16 \<Rightarrow> bytes \<Rightarrow> bool \<Rightarrow> error + CoapMessage" where
  "migrate_request mid tok session_id designated_network confirmable =
     and_then
       (build (st_then (append_u16 TLV_COMMISSIONER_SESSION_ID session_id)
          (\<lambda>_. append_tlv TLV_NETWORK_NAME designated_network)))
       (post_request (confirmable_type confirmable) mid tok uri_MGMT_NET_MIGRATE)"

definition diagnostic_request ::
  "CommissionerOperation \<Rightarrow> u16 \<Rightarrow> bytes \<Rightarrow> u64 \<Rightarrow> bool \<Rightarrow> error + CoapMessage" where
  "diagnostic_request operation mid tok diag_data_flags confirmable =
     and_then (build (append_tlv NETWORK_DIAG_TLV_TYPE_LIST (network_diag_tlv_types diag_data_flags)))
       (post_request (confirmable_type confirmable) mid tok (operation_uri_path operation))"

fun multicast_octets :: "Ipv6Addr list \<Rightarrow> error + bytes" where
  "multicast_octets [] = Ok []"
| "multicast_octets (a # as) =
     (if \<not> is_multicast a then Err (Dataset (show_ipv6 a @ '' is not an IPv6 multicast address''))
      else and_then (multicast_octets as) (\<lambda>bs. Ok (octets a @ bs)))"

definition multicast_listener_request ::
  "u16 \<Rightarrow> bytes \<Rightarrow> u16 \<Rightarrow> Ipv6Addr list \<Rightarrow> u32 \<Rightarrow> error + CoapMessage" where
  "multicast_listener_request mid tok session_id addresses timeout =
     (if addresses = [] then
        Err (Dataset ''multicast listener request needs at least one address'')
      else and_then (multicast_octets addresses)
        (\<lambda>raw_addresses. and_then
           (build (st_then (append_u16 THREAD_TLV_COMMISSIONER_SESSION_ID session_id)
              (\<lambda>_. st_then (append_u32 THREAD_TLV_TIMEOUT timeout)
              (\<lambda>_. append_tlv THREAD_TLV_IPV6_ADDRESSES raw_addresses))))
           (post_request Confirmable mid tok uri_MLR)))"

definition relay_tx_request_with_kek ::
  "u16 \<Rightarrow> bytes \<Rightarrow> bytes \<Rightarrow> u16 \<Rightarrow> u16 \<Rightarrow> bytes \<Rightarrow> bytes option \<Rightarrow> error + CoapMessage" where
  "relay_tx_request_with_kek mid tok iid port locator body joiner_router_kek =
     (if length iid \<noteq> 8 then Err (Dataset ''joiner IID must be 8 bytes'')
      else and_then
        (build (st_then (append_u16 TLV_JOINER_UDP_PORT port)
           (\<lambda>_. st_then (append_u16 TLV_JOINER_ROUTER_LOCATOR locator)
           (\<lambda>_. st_then (append_tlv TLV_JOINER_IID iid)
           (\<lambda>_. st_then (append_tlv TLV_JOINER_DTLS_ENCAPSULATION body)
           (\<lambda>_. case joiner_router_kek of
                  None \<Rightarrow> st_ok ()
                | Some kek \<Rightarrow> append_tlv TLV_JOINER_ROUTER_KEK kek))))))
        (post_request NonConfirmable mid tok uri_RELAY_TX))"

definition relay_tx_request :: "u16 \<Rightarrow> bytes \<Rightarrow> bytes \<Rightarrow> u16 \<Rightarrow> u16 \<Rightarrow> bytes \<Rightarrow> error + CoapMessage" where
  "relay_tx_request mid tok iid port locator body =
     relay_tx_request_with_kek mid tok iid port locator body None"

definition udp_tx_request :: "u16 \<Rightarrow> bytes \<Rightarrow> Ipv6Addr \<Rightarrow> u16 \<Rightarrow> bytes \<Rightarrow> error + CoapMessage" where
  "udp_tx_request mid tok destination destination_port inner =
     (let encapsulation = to_be 2 DEFAULT_MM_PORT @ to_be 2 destination_port @ inner in
      and_then
        (build (st_then (append_tlv TLV_IPV6_ADDRESS (octets destination))
           (\<lambda>_. append_tlv TLV_UDP_ENCAPSULATION encapsulation)))
        (post_request NonConfirmable mid tok uri_UDP_TX))"

section \<open>Parsers\<close>

definition required_tlv :: "TlvSet \<Rightarrow> u8 \<Rightarrow> string \<Rightarrow> error + bytes" where
  "required_tlv ts t name = ok_or (last_value ts t) (Dataset (''missing '' @ name @ '' TLV''))"

definition read_array_8 :: "bytes \<Rightarrow> error + bytes" where
  "read_array_8 v =
     (if length v = 8 then Ok v else Err (Dataset (''expected 8 bytes, got '' @ show_nat (length v))))"

fun page_zero_mask :: "ChannelMaskEntry list \<Rightarrow> u32 option \<Rightarrow> error + u32 option" where
  "page_zero_mask [] acc = Ok acc"
| "page_zero_mask (e # es) acc =
     (if cm_page e = 0 then
        (if length (cm_mask e) \<noteq> 4 then Err (Dataset ''page-0 channel mask must be 4 bytes'')
         else page_zero_mask es (Some ((case acc of None \<Rightarrow> 0 | Some m \<Rightarrow> m) OR from_be (cm_mask e))))
      else page_zero_mask es acc)"

definition channel_mask_from_value :: "bytes \<Rightarrow> error + u32" where
  "channel_mask_from_value v =
     and_then (ChannelMaskEntry_parse_all v)
       (\<lambda>es. and_then (page_zero_mask es None)
          (\<lambda>m. ok_or m (Dataset ''no page-0 channel mask entry'')))"

record UdpRx =
  source_address :: Ipv6Addr
  source_port :: u16
  destination_port :: u16
  udp_payload :: bytes

definition parse_udp_rx :: "CoapMessage \<Rightarrow> error + UdpRx option" where
  "parse_udp_rx m =
     and_then (uri_path m)
       (\<lambda>path. if path \<noteq> Some uri_UDP_RX then Ok None
        else and_then (map_err Tlv (TlvSet_parse (coap_payload m)))
          (\<lambda>ts. and_then (required_tlv ts TLV_IPV6_ADDRESS ''IPv6 Address'')
          (\<lambda>address. if length address \<noteq> 16 then Err (Dataset ''IPv6 Address TLV must be 16 bytes'')
           else and_then (required_tlv ts TLV_UDP_ENCAPSULATION ''UDP Encapsulation'')
             (\<lambda>encapsulation.
                if length encapsulation < 4 then
                  Err (Dataset ''UDP Encapsulation TLV must carry source and destination ports'')
                else Ok (Some
                  \<lparr>source_address = from_be address,
                   source_port = from_be [encapsulation ! 0, encapsulation ! 1],
                   destination_port = from_be [encapsulation ! 2, encapsulation ! 3],
                   udp_payload = drop 4 encapsulation\<rparr>)))))"

definition parse_state :: "bytes \<Rightarrow> error + MeshcopState option" where
  "parse_state body =
     and_then (map_err Tlv (TlvSet_parse body))
       (\<lambda>ts. map_transpose
          (\<lambda>v. if length v \<noteq> 1 then Err (Dataset ''State TLV must be 1 byte'')
               else MeshcopState_from_wire (v ! 0))
          (last_value ts TLV_STATE))"

definition parse_state_response :: "CoapMessage \<Rightarrow> bool \<Rightarrow> error + MeshcopState option" where
  "parse_state_response response state_mandatory =
     (if coap_code response \<noteq> CoapCode_CHANGED then
        Err (Dataset (''expected CoAP Changed response, got 0x'' @ show_hex2 (coap_code response)))
      else and_then (parse_state (coap_payload response))
        (\<lambda>state. if state_mandatory \<and> state = None then Err (Dataset ''missing MeshCoP State TLV'')
                 else Ok state))"

definition parse_petition_response :: "CoapMessage \<Rightarrow> error + MeshcopPetitionResponse" where
  "parse_petition_response response =
     and_then (parse_state_response response True)
       (\<lambda>_. and_then (map_err Tlv (TlvSet_parse (coap_payload response)))
       (\<lambda>ts. and_then (parse_state (coap_payload response))
       (\<lambda>st. and_then (ok_or st (Dataset ''missing petition State TLV''))
       (\<lambda>state. and_then (map_err Tlv (map_transpose tlv_read_u16 (last_value ts TLV_COMMISSIONER_SESSION_ID)))
       (\<lambda>session_id. and_then
          (map_transpose
             (\<lambda>v. if valid_utf8 v then Ok v else Err (Dataset ''Commissioner ID TLV is not UTF-8''))
             (last_value ts TLV_COMMISSIONER_ID))
       (\<lambda>existing. Ok \<lparr>pet_state = state, pet_session_id = session_id,
                       existing_commissioner_id = existing\<rparr>))))))"

definition parse_panid_conflict :: "TlvSet \<Rightarrow> error + MeshcopNotification" where
  "parse_panid_conflict ts =
     and_then (required_tlv ts TLV_CHANNEL_MASK ''Channel Mask'')
       (\<lambda>v. and_then (channel_mask_from_value v)
       (\<lambda>channel_mask. and_then (required_tlv ts TLV_PAN_ID ''PAN ID'')
       (\<lambda>p. and_then (map_err Tlv (tlv_read_u16 p))
       (\<lambda>pan_id. Ok (PanIdConflict channel_mask pan_id)))))"

definition parse_ed_report :: "TlvSet \<Rightarrow> error + MeshcopNotification" where
  "parse_ed_report ts =
     and_then (map_transpose channel_mask_from_value (last_value ts TLV_CHANNEL_MASK))
       (\<lambda>channel_mask. Ok (EnergyReport
          (case channel_mask of None \<Rightarrow> 0 | Some m \<Rightarrow> m)
          (case last_value ts TLV_ENERGY_LIST of None \<Rightarrow> [] | Some v \<Rightarrow> v)))"

definition parse_relay_rx :: "TlvSet \<Rightarrow> error + MeshcopNotification" where
  "parse_relay_rx ts =
     and_then (required_tlv ts TLV_JOINER_UDP_PORT ''Joiner UDP Port'')
       (\<lambda>p. and_then (map_err Tlv (tlv_read_u16 p))
       (\<lambda>port. and_then (required_tlv ts TLV_JOINER_ROUTER_LOCATOR ''Joiner Router Locator'')
       (\<lambda>l. and_then (map_err Tlv (tlv_read_u16 l))
       (\<lambda>locator. and_then (required_tlv ts TLV_JOINER_IID ''Joiner IID'')
       (\<lambda>i. and_then (read_array_8 i)
       (\<lambda>iid. and_then (required_tlv ts TLV_JOINER_DTLS_ENCAPSULATION ''Joiner DTLS Encapsulation'')
       (\<lambda>body. Ok (RelayRx port locator iid body))))))))"

definition parse_notification :: "CoapMessage \<Rightarrow> error + MeshcopNotification option" where
  "parse_notification m =
     and_then (uri_path m)
       (\<lambda>path. case path of
          None \<Rightarrow> Ok None
        | Some p \<Rightarrow>
            if p = uri_MGMT_DATASET_CHANGED then Ok (Some DatasetChanged)
            else if p = uri_MGMT_PANID_CONFLICT then
              and_then (map_err Tlv (TlvSet_parse (coap_payload m)))
                (\<lambda>ts. and_then (parse_panid_conflict ts) (\<lambda>n. Ok (Some n)))
            else if p = uri_MGMT_ED_REPORT then
              and_then (map_err Tlv (TlvSet_parse (coap_payload m)))
                (\<lambda>ts. and_then (parse_ed_report ts) (\<lambda>n. Ok (Some n)))
            else if p = uri_DIAG_GET_ANSWER then
              and_then (NetDiagData_decode (coap_payload m)) (\<lambda>data. Ok (Some (DiagGetAnswer data)))
            else if p = uri_RELAY_RX then
              and_then (map_err Tlv (TlvSet_parse (coap_payload m)))
                (\<lambda>ts. and_then (parse_relay_rx ts) (\<lambda>n. Ok (Some n)))
            else Ok None)"

section \<open>Bodies and paths of requests\<close>

lemma append_tlv_Ok: "length v \<le> 65535 \<Longrightarrow> append_tlv t v out = (out @ tlv_bytes t v, Ok ())"
  by (simp add: append_tlv_def TlvEntry_encode_eq)

lemma append_tlv_Err: "length v > 65535 \<Longrightarrow> snd (append_tlv t v out) = Err (Tlv (ValueTooLarge (length v)))"
  by (simp add: append_tlv_def TlvEntry_encode_eq)

definition tlvs_of :: "(u8 \<times> bytes) list \<Rightarrow> TlvSet" where
  "tlvs_of kvs = \<lparr>entries = map (\<lambda>(t, v). TlvEntry_new t v) kvs\<rparr>"

lemma parse_tlv_body:
  "list_all (\<lambda>x. length (snd x) \<le> 65535) kvs \<Longrightarrow>
     TlvSet_parse (concat (map (\<lambda>x. tlv_bytes (fst x) (snd x)) kvs)) = Ok (tlvs_of kvs)"
  by (rule TlvSet_parse_encode)
    (auto simp: TlvSet_encode_Ok tlvs_of_def comp_def case_prod_beta list_all_iff)

text \<open>A request as its resource sees it: method, resource, token and the TLVs of its body.\<close>

definition is_request :: "CoapMessage \<Rightarrow> CoapType \<Rightarrow> u16 \<Rightarrow> bytes \<Rightarrow> bytes \<Rightarrow> (u8 \<times> bytes) list \<Rightarrow> bool" where
  "is_request m t mid tok path kvs \<longleftrightarrow>
     coap_ty m = t \<and> coap_code m = CoapCode_POST \<and> message_id m = mid \<and> token m = tok \<and>
     uri_path m = Ok (Some path) \<and> TlvSet_parse (coap_payload m) = Ok (tlvs_of kvs)"

definition resource :: "bytes \<Rightarrow> bool" where
  "resource p \<longleftrightarrow> valid_utf8 p \<and> p \<noteq> [] \<and> hd p = 0x2F \<and> tl p \<noteq> [] \<and> [] \<notin> set (split_on 0x2F (tl p))"

lemma operation_resource [simp]: "resource (operation_uri_path op)"
  by (cases op) (simp_all add: resource_def const_defs)

lemma uri_resources [simp]:
  "resource uri_PETITIONING" "resource uri_KEEP_ALIVE" "resource uri_MGMT_SEC_PENDING_SET"
  "resource uri_MGMT_ANNOUNCE_BEGIN" "resource uri_MGMT_PANID_QUERY" "resource uri_MGMT_ED_SCAN"
  "resource uri_MGMT_NET_MIGRATE" "resource uri_MLR" "resource uri_RELAY_TX" "resource uri_UDP_TX"
  "resource uri_RELAY_RX" "resource uri_UDP_RX" "resource uri_JOIN_FIN"
  by (simp_all add: resource_def const_defs)

definition path_options :: "bytes \<Rightarrow> CoapOption list" where
  "path_options p = map (\<lambda>s. \<lparr>opt_number = COAP_OPTION_URI_PATH, opt_value = s\<rparr>) (split_on 0x2F (tl p))"

lemma post_request_Ok:
  assumes "resource p"
  shows "post_request t mid tok p body =
    Ok \<lparr>coap_ty = t, coap_code = CoapCode_POST, message_id = mid, token = tok,
        options = path_options p, coap_payload = body\<rparr>"
proof -
  from assms have "trim_leading_slash p = tl p" "tl p \<noteq> []" "\<forall>s\<in>set (split_on 0x2F (tl p)). s \<noteq> []"
    by (auto simp: resource_def trim_leading_slash_def split: list.split)
  then show ?thesis
    by (simp add: post_request_def set_uri_path_def st_then_def st_modify_def push_uri_segments_Ok path_options_def)
qed

lemma uri_path_path_options:
  assumes "resource p" "options m = path_options p"
  shows "uri_path m = Ok (Some p)"
proof -
  from assms(1) obtain q where p: "p = 0x2F # q" and q: "q \<noteq> []"
    by (cases p) (auto simp: resource_def)
  have "valid_utf8 q"
    using assms(1) valid_utf8_slash [of "[]" q] by (simp add: p resource_def del: valid_utf8.simps(2))
  then have "uri_segments (path_options p) = Ok (split_on 0x2F q)"
    unfolding path_options_def p list.sel by (intro uri_segments_pushed) (use valid_utf8_split in blast)
  then show ?thesis
    using q by (simp add: uri_path_def assms(2) p)
qed

lemma request_Ok:
  assumes "resource p" and "list_all (\<lambda>x. length (snd x) \<le> 65535) kvs"
    and "body = concat (map (\<lambda>x. tlv_bytes (fst x) (snd x)) kvs)"
  shows "\<exists>m. post_request t mid tok p body = Ok m \<and> is_request m t mid tok p kvs"
  using parse_tlv_body [OF assms(2)] assms(3)
  by (simp add: post_request_Ok [OF assms(1)] is_request_def uri_path_path_options [OF assms(1)])

definition sends ::
  "error + CoapMessage \<Rightarrow> CoapType \<Rightarrow> u16 \<Rightarrow> bytes \<Rightarrow> bytes \<Rightarrow> (u8 \<times> bytes) list \<Rightarrow> bool" where
  "sends r t mid tok p kvs \<longleftrightarrow> (case r of Inl _ \<Rightarrow> False | Inr m \<Rightarrow> is_request m t mid tok p kvs)"

lemma sends_request:
  assumes "resource p" and "list_all (\<lambda>x. length (snd x) \<le> 65535) kvs"
    and "r = post_request t mid tok p (concat (map (\<lambda>x. tlv_bytes (fst x) (snd x)) kvs))"
  shows "sends r t mid tok p kvs"
  using request_Ok [OF assms(1,2) refl, of t mid tok] by (auto simp: assms(3) sends_def)

lemma channel_mask_value_Ok: "m \<noteq> 0 \<Longrightarrow> channel_mask_value m = Ok (0 # 4 # to_be 4 m)"
  by (simp add: channel_mask_value_def ChannelMaskEntry_encode_one_def)

lemmas build_simps = build_def st_then_def st_ok_def st_lift_def st_modify_def append_tlv_Ok
  append_u8_def append_u16_def append_u32_def channel_mask_value_Ok



lemma is_request_to_path:
  "is_request m t mid tok p kvs \<Longrightarrow> resource q \<Longrightarrow> uri_path (m\<lparr>options := path_options q\<rparr>) = Ok (Some q)"
  by (simp add: uri_path_path_options)

lemma last_value_tlvs_of: "last_value (tlvs_of kvs) t = map_of (rev kvs) t"
  by (induction kvs rule: rev_induct) (auto simp: last_value_def tlvs_of_def)

definition relay_tlvs :: "bytes \<Rightarrow> u16 \<Rightarrow> u16 \<Rightarrow> bytes \<Rightarrow> bytes option \<Rightarrow> (u8 \<times> bytes) list" where
  "relay_tlvs iid port locator body kek =
     [(TLV_JOINER_UDP_PORT, to_be 2 port), (TLV_JOINER_ROUTER_LOCATOR, to_be 2 locator),
      (TLV_JOINER_IID, iid), (TLV_JOINER_DTLS_ENCAPSULATION, body)]
      @ (case kek of None \<Rightarrow> [] | Some k \<Rightarrow> [(TLV_JOINER_ROUTER_KEK, k)])"

lemma relay_sends:
  assumes "length body \<le> 65535" "pred_option (\<lambda>k. length k = 16) kek" "length iid = 8"
  shows "sends (relay_tx_request_with_kek mid tok iid port locator body kek) NonConfirmable mid tok
    uri_RELAY_TX (relay_tlvs iid port locator body kek)"
  using assms
  by (intro sends_request)
    (auto simp: relay_tx_request_with_kek_def build_simps relay_tlvs_def split: option.split)

lemma parse_relay_tlvs:
  "length iid = 8 \<Longrightarrow> parse_relay_rx (tlvs_of (relay_tlvs iid port locator body kek)) =
     Ok (RelayRx port locator iid body)"
  by (cases kek) (simp_all add: parse_relay_rx_def required_tlv_def last_value_tlvs_of relay_tlvs_def
      const_defs tlv_read_u16_def wire_read_u16_def read_array_8_def)

lemma notification_relay:
  "uri_path m = Ok (Some uri_RELAY_RX) \<Longrightarrow> TlvSet_parse (coap_payload m) = Ok s \<Longrightarrow>
     parse_notification m = and_then (parse_relay_rx s) (\<lambda>n. Ok (Some n))"
  by (simp add: parse_notification_def const_defs)

text \<open>C35: Joiner relay round trip: a relayed datagram of at most 65535 bytes, with or without a joiner
  router KEK, can always be sent, and its body delivered on the receive resource parses back to the
  same joiner port, router locator, interface identifier and payload. The KEK travels in its own
  TLV exactly when one is given. An interface identifier that is not 8 bytes is refused.
\<close>

theorem relay_roundtrip:
  assumes "length body \<le> 65535" and "pred_option (\<lambda>k. length k = 16) kek"
  shows "if length iid = 8 then
      (\<exists>m s. relay_tx_request_with_kek mid tok iid port locator body kek = Ok m \<and>
        uri_path m = Ok (Some uri_RELAY_TX) \<and> coap_ty m = NonConfirmable \<and>
        TlvSet_parse (coap_payload m) = Ok s \<and> last_value s TLV_JOINER_ROUTER_KEK = kek \<and>
        parse_notification (m\<lparr>options := path_options uri_RELAY_RX\<rparr>) =
          Ok (Some (RelayRx port locator iid body)))
    else relay_tx_request_with_kek mid tok iid port locator body kek =
      Err (Dataset ''joiner IID must be 8 bytes'')"
proof (cases "length iid = 8")
  case True
  then obtain m where m: "relay_tx_request_with_kek mid tok iid port locator body kek = Ok m"
      "is_request m NonConfirmable mid tok uri_RELAY_TX (relay_tlvs iid port locator body kek)"
    using relay_sends [OF assms, of iid mid tok port locator] by (auto simp: sends_def split: sum.splits)
  have "last_value (tlvs_of (relay_tlvs iid port locator body kek)) TLV_JOINER_ROUTER_KEK = kek"
    by (cases kek) (simp_all add: last_value_tlvs_of relay_tlvs_def const_defs)
  moreover have "parse_notification (m\<lparr>options := path_options uri_RELAY_RX\<rparr>) =
      Ok (Some (RelayRx port locator iid body))"
    using m(2) notification_relay [of "m\<lparr>options := path_options uri_RELAY_RX\<rparr>"]
    by (simp add: is_request_def uri_path_path_options parse_relay_tlvs True)
  ultimately show ?thesis
    using m True by (auto simp: is_request_def)
qed (simp add: relay_tx_request_with_kek_def)

theorem relay_roundtrip_witness:
  "\<exists>m. relay_tx_request_with_kek 7 [] [1, 2, 3, 4, 5, 6, 7, 8] 49153 0x4400 [22, 254, 253] (Some (replicate 16 0xAA)) = Ok m \<and>
     parse_notification (m\<lparr>options := path_options uri_RELAY_RX\<rparr>) =
       Ok (Some (RelayRx 49153 0x4400 [1, 2, 3, 4, 5, 6, 7, 8] [22, 254, 253]))"
  using relay_roundtrip [of "[22, 254, 253]" "Some (replicate 16 0xAA)" "[1, 2, 3, 4, 5, 6, 7, 8]" 7 "[]" 49153 "0x4400"]
  by auto

lemma drop_4_ports: "drop 4 (to_be 2 a @ to_be 2 b @ (bs :: bytes)) = bs"
  by (simp add: to_be_unfold)

text \<open>UDP proxy round trip: a datagram of at most 65531 bytes for any destination can be sent, and
  its body delivered on the UDP receive resource parses back to the same address, the management
  port as source, the destination port and the datagram. A message on any other resource is not
  taken for proxied UDP.
\<close>

theorem udp_proxy_roundtrip:
  assumes "length inner \<le> 65531"
  shows "\<exists>m. udp_tx_request mid tok dst port inner = Ok m \<and>
     uri_path m = Ok (Some uri_UDP_TX) \<and> parse_udp_rx m = Ok None \<and>
     parse_udp_rx (m\<lparr>options := path_options uri_UDP_RX\<rparr>) =
       Ok (Some \<lparr>source_address = dst, source_port = DEFAULT_MM_PORT, destination_port = port,
                 udp_payload = inner\<rparr>)"
proof -
  let ?enc = "to_be 2 DEFAULT_MM_PORT @ to_be 2 port @ inner"
  let ?kvs = "[(TLV_IPV6_ADDRESS, octets dst), (TLV_UDP_ENCAPSULATION, ?enc)]"
  have "sends (udp_tx_request mid tok dst port inner) NonConfirmable mid tok uri_UDP_TX ?kvs"
    using assms by (intro sends_request) (simp_all add: udp_tx_request_def Let_def build_simps)
  then obtain m where m: "udp_tx_request mid tok dst port inner = Ok m"
      "is_request m NonConfirmable mid tok uri_UDP_TX ?kvs"
    by (auto simp: sends_def split: sum.splits)
  have vals: "last_value (tlvs_of ?kvs) TLV_IPV6_ADDRESS = Some (octets dst)"
      "last_value (tlvs_of ?kvs) TLV_UDP_ENCAPSULATION = Some ?enc"
    by (simp_all add: last_value_tlvs_of const_defs)
  have enc: "from_be [?enc ! 0, ?enc ! 1] = DEFAULT_MM_PORT" "from_be [?enc ! 2, ?enc ! 3] = port"
    by (simp_all add: to_be_unfold)
  have "parse_udp_rx (m\<lparr>options := path_options uri_UDP_RX\<rparr>) =
       Ok (Some \<lparr>source_address = dst, source_port = DEFAULT_MM_PORT, destination_port = port,
                 udp_payload = inner\<rparr>)"
    using m(2) uri_path_path_options [of uri_UDP_RX "m\<lparr>options := path_options uri_UDP_RX\<rparr>"]
    by (simp add: parse_udp_rx_def is_request_def required_tlv_def vals enc [simplified One_nat_def] drop_4_ports)
  moreover have "parse_udp_rx m = Ok None"
    using m(2) by (simp add: is_request_def parse_udp_rx_def const_defs)
  ultimately show ?thesis
    using m by (auto simp: is_request_def)
qed

theorem udp_proxy_roundtrip_witness:
  "\<exists>m. udp_tx_request 9 [1] 1 61631 [0x40] = Ok m \<and>
     parse_udp_rx (m\<lparr>options := path_options uri_UDP_RX\<rparr>) =
       Ok (Some \<lparr>source_address = 1, source_port = DEFAULT_MM_PORT, destination_port = 61631, udp_payload = [0x40]\<rparr>)"
  using udp_proxy_roundtrip [of "[0x40]" 9 "[1]" 1 61631] by auto

section \<open>Channel masks, petitions, datasets and listeners\<close>

abbreviation or_masks :: "ChannelMaskEntry list \<Rightarrow> u32" where
  "or_masks es \<equiv> foldl (\<lambda>m e. m OR from_be (cm_mask e)) 0 es"

lemma bit_foldl_or:
  "bit (foldl (\<lambda>m e. m OR f e) a es :: u32) n \<longleftrightarrow> bit a n \<or> (\<exists>e\<in>set es. bit (f e) n)"
  by (induction es arbitrary: a) (auto simp: bit_or_iff)

lemma page_zero_mask_Some:
  "page_zero_mask es (Some a) =
     (if list_all (\<lambda>e. length (cm_mask e) = 4) (filter (\<lambda>e. cm_page e = 0) es)
      then Ok (Some (foldl (\<lambda>m e. m OR from_be (cm_mask e)) a (filter (\<lambda>e. cm_page e = 0) es)))
      else Err (Dataset ''page-0 channel mask must be 4 bytes''))"
  by (induction es arbitrary: a) auto

lemma page_zero_mask_None:
  "page_zero_mask es None =
     (if list_all (\<lambda>e. length (cm_mask e) = 4) (filter (\<lambda>e. cm_page e = 0) es)
      then Ok (if filter (\<lambda>e. cm_page e = 0) es = [] then None else Some (or_masks (filter (\<lambda>e. cm_page e = 0) es)))
      else Err (Dataset ''page-0 channel mask must be 4 bytes''))"
  by (induction es) (auto simp: page_zero_mask_Some)

text \<open>The channel mask of a message is the union of all its page-0 entries: a channel is set in the
  result exactly when some page-0 entry of the value sets it. Entries of other pages are ignored. A
  page-0 entry that is not four bytes, or a value without a page-0 entry, is an error. Every nonzero
  mask that a request carries reads back unchanged.
\<close>

theorem channel_mask_union:
  assumes "ChannelMaskEntry_parse_all v = Ok es"
  shows "(case channel_mask_from_value v of
      Inr m \<Rightarrow> (\<exists>e\<in>set es. cm_page e = 0) \<and>
        (\<forall>n. bit m n \<longleftrightarrow> (\<exists>e\<in>set es. cm_page e = 0 \<and> bit (from_be (cm_mask e) :: u32) n))
    | Inl err \<Rightarrow> (\<exists>e\<in>set es. cm_page e = 0 \<and> length (cm_mask e) \<noteq> 4) \<or>
        (\<forall>e\<in>set es. cm_page e \<noteq> 0)) \<and>
    (w \<noteq> 0 \<longrightarrow> and_then (channel_mask_value w) channel_mask_from_value = Ok w)"
proof
  let ?z = "filter (\<lambda>e. cm_page e = 0) es"
  have r: "channel_mask_from_value v =
      (if list_all (\<lambda>e. length (cm_mask e) = 4) ?z
       then if ?z = [] then Err (Dataset ''no page-0 channel mask entry'') else Ok (or_masks ?z)
       else Err (Dataset ''page-0 channel mask must be 4 bytes''))"
    by (simp add: channel_mask_from_value_def assms page_zero_mask_None)
  show "case channel_mask_from_value v of
      Inr m \<Rightarrow> (\<exists>e\<in>set es. cm_page e = 0) \<and>
        (\<forall>n. bit m n \<longleftrightarrow> (\<exists>e\<in>set es. cm_page e = 0 \<and> bit (from_be (cm_mask e) :: u32) n))
    | Inl err \<Rightarrow> (\<exists>e\<in>set es. cm_page e = 0 \<and> length (cm_mask e) \<noteq> 4) \<or>
        (\<forall>e\<in>set es. cm_page e \<noteq> 0)"
    unfolding r by (auto simp: bit_foldl_or list_all_iff filter_empty_conv)
  show "w \<noteq> 0 \<longrightarrow> and_then (channel_mask_value w) channel_mask_from_value = Ok w"
  proof
    assume "w \<noteq> 0"
    have "ChannelMaskEntry_parse_all (0 # 4 # to_be 4 w) = Ok [\<lparr>cm_page = 0, cm_mask = to_be 4 w\<rparr>]"
      by (rule channel_mask.dec_all_enc_all) (simp_all add: ChannelMaskEntry_encode_one_def)
    then show "and_then (channel_mask_value w) channel_mask_from_value = Ok w"
      by (simp add: channel_mask_value_Ok \<open>w \<noteq> 0\<close> channel_mask_from_value_def)
  qed
qed

theorem channel_mask_union_witness:
  "ChannelMaskEntry_parse_all [0, 4, 0, 0, 8, 0, 2, 1, 9, 0, 4, 0, 0, 0x10, 0] =
     Ok [\<lparr>cm_page = 0, cm_mask = [0, 0, 8, 0]\<rparr>, \<lparr>cm_page = 2, cm_mask = [9]\<rparr>, \<lparr>cm_page = 0, cm_mask = [0, 0, 0x10, 0]\<rparr>] \<and>
   channel_mask_from_value [0, 4, 0, 0, 8, 0, 2, 1, 9, 0, 4, 0, 0, 0x10, 0] = Ok 0x1800 \<and>
   and_then (channel_mask_value 0x7fff800) channel_mask_from_value = Ok 0x7fff800"
proof -
  have p: "ChannelMaskEntry_parse_all [0, 4, 0, 0, 8, 0, 2, 1, 9, 0, 4, 0, 0, 0x10, 0] =
     Ok [\<lparr>cm_page = 0, cm_mask = [0, 0, 8, 0]\<rparr>, \<lparr>cm_page = 2, cm_mask = [9]\<rparr>, \<lparr>cm_page = 0, cm_mask = [0, 0, 0x10, 0]\<rparr>]"
    by (rule channel_mask.dec_all_enc_all) (simp_all add: ChannelMaskEntry_encode_one_def)
  show ?thesis
    using channel_mask_union [OF p, of "0x7fff800"] p
    by (simp add: channel_mask_from_value_def from_be_def)
qed

lemma MeshcopState_roundtrip: "MeshcopState_from_wire v = Ok s \<longleftrightarrow> v = MeshcopState_to_wire s"
  by (cases s) (auto simp: MeshcopState_from_wire_def)

lemma parse_state_Ok:
  "parse_state body = Ok st \<longleftrightarrow>
     (\<exists>s. TlvSet_parse body = Ok s \<and> last_value s TLV_STATE = map_option (\<lambda>x. [MeshcopState_to_wire x]) st)"
proof -
  have one: "(length v = 1 \<and> v ! 0 = w) \<longleftrightarrow> v = [w]" for v and w :: u8
    by (cases v) auto
  show ?thesis
    by (cases "TlvSet_parse body"; cases st)
      (auto simp: parse_state_def result_simps MeshcopState_roundtrip map_transpose_def one [symmetric]
        split: option.splits if_splits)
qed

text \<open>A petition response is understood exactly when it is a Changed response whose body is a TLV
  sequence with a State TLV of one byte, a legal state value, a two-byte session id if there is one,
  and a UTF-8 commissioner id if there is one; the result is then precisely those values. In
  particular an unknown state byte or an error code never reads as an accepted petition.
\<close>

theorem petition_response_exact:
  "parse_petition_response r = Ok p \<longleftrightarrow>
     coap_code r = CoapCode_CHANGED \<and>
     (\<exists>s. TlvSet_parse (coap_payload r) = Ok s \<and>
       last_value s TLV_STATE = Some [MeshcopState_to_wire (pet_state p)] \<and>
       last_value s TLV_COMMISSIONER_SESSION_ID = map_option (to_be 2) (pet_session_id p) \<and>
       last_value s TLV_COMMISSIONER_ID = existing_commissioner_id p \<and>
       pred_option valid_utf8 (existing_commissioner_id p))"
proof -
  have sid: "map_transpose tlv_read_u16 x = Ok y \<longleftrightarrow> x = map_option (to_be 2) y" for x y
    by (cases x; cases y)
      (auto simp: tlv_read_u16_def wire_read_u16_def result_simps to_be_from_be split: if_splits)
  have cid: "map_transpose (\<lambda>v. if valid_utf8 v then Ok v else Err e) x = Ok y \<longleftrightarrow> x = y \<and> pred_option valid_utf8 y"
    for x y :: "bytes option" and e :: error
    by (cases x; cases y) (auto simp: result_simps)
  show ?thesis
  proof
    assume "parse_petition_response r = Ok p"
    then show "coap_code r = CoapCode_CHANGED \<and>
     (\<exists>s. TlvSet_parse (coap_payload r) = Ok s \<and>
       last_value s TLV_STATE = Some [MeshcopState_to_wire (pet_state p)] \<and>
       last_value s TLV_COMMISSIONER_SESSION_ID = map_option (to_be 2) (pet_session_id p) \<and>
       last_value s TLV_COMMISSIONER_ID = existing_commissioner_id p \<and>
       pred_option valid_utf8 (existing_commissioner_id p))"
      unfolding parse_petition_response_def parse_state_response_def
      by (auto simp: result_simps parse_state_Ok sid cid split: if_splits)
  next
    assume a: "coap_code r = CoapCode_CHANGED \<and>
     (\<exists>s. TlvSet_parse (coap_payload r) = Ok s \<and>
       last_value s TLV_STATE = Some [MeshcopState_to_wire (pet_state p)] \<and>
       last_value s TLV_COMMISSIONER_SESSION_ID = map_option (to_be 2) (pet_session_id p) \<and>
       last_value s TLV_COMMISSIONER_ID = existing_commissioner_id p \<and>
       pred_option valid_utf8 (existing_commissioner_id p))"
    then obtain s where s: "TlvSet_parse (coap_payload r) = Ok s"
        "map_transpose tlv_read_u16 (last_value s TLV_COMMISSIONER_SESSION_ID) = Ok (pet_session_id p)"
        "map_transpose (\<lambda>v. if valid_utf8 v then Ok v else Err (Dataset ''Commissioner ID TLV is not UTF-8''))
           (last_value s TLV_COMMISSIONER_ID) = Ok (existing_commissioner_id p)"
      unfolding sid cid by blast
    have "parse_state (coap_payload r) = Ok (Some (pet_state p))"
      using a by (auto simp: parse_state_Ok)
    then show "parse_petition_response r = Ok p"
      using a s by (simp add: parse_petition_response_def parse_state_response_def)
  qed
qed

text \<open>TLVs written in front of an encoded set.\<close>

lemma parse_prefixed_set:
  assumes "TlvSet_encode ts = Ok bs" "list_all (\<lambda>x. length (snd x) \<le> 65535) kvs"
  shows "TlvSet_parse (concat (map (\<lambda>x. tlv_bytes (fst x) (snd x)) kvs) @ bs) =
    Ok \<lparr>entries = map (\<lambda>x. TlvEntry_new (fst x) (snd x)) kvs @ entries ts\<rparr>"
  using assms by (intro TlvSet_parse_encode) (auto simp: TlvSet_encode_is_Ok list_all_iff comp_def)

text \<open>A dataset set request carries the session id first and then the dataset's own TLVs, unchanged
  and in order; a secure pending set request carries the session id, the dissemination record
  (pending timestamp when the dataset has one, retrieval timer, retrieval URI) and then the dataset.
\<close>

theorem dataset_set_bodies:
  assumes "Dataset_to_bytes d = Ok bs"
    and "Dataset_pending_timestamp d = Ok pts" and "length uri \<le> 65000"
  shows "\<exists>m m'. dataset_set_request op mid tok sid d = Ok m \<and>
    uri_path m = Ok (Some (operation_uri_path op)) \<and>
    TlvSet_parse (coap_payload m) =
      Ok \<lparr>entries = TlvEntry_new TLV_COMMISSIONER_SESSION_ID (to_be 2 sid) # entries (tlvs d)\<rparr> \<and>
    secure_pending_set_request mid tok sid timer uri d = Ok m' \<and>
    uri_path m' = Ok (Some uri_MGMT_SEC_PENDING_SET) \<and>
    TlvSet_parse (coap_payload m') =
      Ok \<lparr>entries = TlvEntry_new TLV_COMMISSIONER_SESSION_ID (to_be 2 sid)
        # TlvEntry_new TLV_SECURE_DISSEMINATION
            ((case pts of None \<Rightarrow> [] | Some t \<Rightarrow> Timestamp_to_value t) @ to_be 4 timer @ uri)
        # entries (tlvs d)\<rparr>"
proof -
  let ?diss = "(case pts of None \<Rightarrow> [] | Some t \<Rightarrow> Timestamp_to_value t) @ to_be 4 timer @ uri"
  have enc: "TlvSet_encode (tlvs d) = Ok bs"
    using assms(1) by (simp add: Dataset_to_bytes_def result_simps)
  have diss: "length ?diss \<le> 65535"
    using assms(3) by (cases pts) (simp_all add: Timestamp_to_value_def)
  note cons = parse_prefixed_set [OF enc]
  show ?thesis
    using cons [of "[(TLV_COMMISSIONER_SESSION_ID, to_be 2 sid)]"]
      cons [of "[(TLV_COMMISSIONER_SESSION_ID, to_be 2 sid), (TLV_SECURE_DISSEMINATION, ?diss)]"] diss
    by (simp add: dataset_set_request_def secure_pending_set_request_def assms(1,2) build_simps
        post_request_Ok uri_path_path_options)
qed

theorem dataset_set_bodies_witness:
  "\<exists>m. dataset_set_request SetPendingDataset 3 [7] 0x0102
       \<lparr>tlvs = \<lparr>entries = [TlvEntry_new TLV_PAN_ID [0x12, 0x34]]\<rparr>\<rparr> = Ok m \<and>
     uri_path m = Ok (Some uri_MGMT_PENDING_SET) \<and>
     TlvSet_parse (coap_payload m) =
       Ok \<lparr>entries = [TlvEntry_new TLV_COMMISSIONER_SESSION_ID [1, 2], TlvEntry_new TLV_PAN_ID [0x12, 0x34]]\<rparr>"
proof -
  let ?d = "\<lparr>tlvs = \<lparr>entries = [TlvEntry_new TLV_PAN_ID [0x12, 0x34]]\<rparr>\<rparr>"
  have b: "Dataset_to_bytes ?d = Ok (tlv_bytes TLV_PAN_ID [0x12, 0x34])"
    by (simp add: Dataset_to_bytes_def TlvSet_encode_Ok)
  have t: "Dataset_pending_timestamp ?d = Ok None"
    by (simp add: Dataset_pending_timestamp_def Dataset_raw_def last_value_def const_defs)
  have s: "to_be 2 (0x0102 :: u16) = [1, 2]"
    by (simp add: to_be_unfold)
  show ?thesis
    using dataset_set_bodies [OF b t, of "[]" SetPendingDataset 3 "[7]" "0x0102" 0] by (auto simp: s)
qed

lemma is_multicast_iff: "is_multicast a \<longleftrightarrow> ucast (drop_bit 120 a) = (0xff :: u8)"
  using to_be.simps(2) [of 15 a] by (simp add: is_multicast_def numeral_eq_Suc)

lemma multicast_octets_eq:
  "multicast_octets as =
     (case find (\<lambda>a. \<not> is_multicast a) as of
        None \<Rightarrow> Ok (concat (map octets as))
      | Some a \<Rightarrow> Err (Dataset (show_ipv6 a @ '' is not an IPv6 multicast address'')))"
  by (induction as) (auto split: option.split)

lemma length_concat_octets: "length (concat (map octets as)) = 16 * length as"
  by (induction as) simp_all

text \<open>A multicast listener registration is sent exactly when the list is not empty and every address
  is multicast; the first other address is named in the error. A registration of up to 4095 addresses
  carries session id, timeout and the addresses, and the address list decodes back to the same
  addresses in the same order.
\<close>

theorem multicast_registration:
  assumes "length as \<le> 4095"
  shows "if as = [] then
      multicast_listener_request mid tok sid as timeout =
        Err (Dataset ''multicast listener request needs at least one address'')
    else case find (\<lambda>a. \<not> is_multicast a) as of
      Some a \<Rightarrow> multicast_listener_request mid tok sid as timeout =
        Err (Dataset (show_ipv6 a @ '' is not an IPv6 multicast address''))
    | None \<Rightarrow> sends (multicast_listener_request mid tok sid as timeout) Confirmable mid tok uri_MLR
        [(THREAD_TLV_COMMISSIONER_SESSION_ID, to_be 2 sid), (THREAD_TLV_TIMEOUT, to_be 4 timeout),
         (THREAD_TLV_IPV6_ADDRESSES, concat (map octets as))] \<and>
        decode_ipv6_address_list (concat (map octets as)) = Ok as"
proof (cases "as = [] \<or> find (\<lambda>a. \<not> is_multicast a) as \<noteq> None")
  case True
  then show ?thesis
    by (auto simp: multicast_listener_request_def multicast_octets_eq)
next
  case False
  have "length (concat (map octets as)) \<le> 65535"
    using assms unfolding length_concat_octets by simp
  then have "sends (multicast_listener_request mid tok sid as timeout) Confirmable mid tok uri_MLR
        [(THREAD_TLV_COMMISSIONER_SESSION_ID, to_be 2 sid), (THREAD_TLV_TIMEOUT, to_be 4 timeout),
         (THREAD_TLV_IPV6_ADDRESSES, concat (map octets as))]"
    using False by (intro sends_request)
      (simp_all add: multicast_listener_request_def multicast_octets_eq build_simps del: length_concat)
  moreover have "decode_ipv6_address_list (concat (map octets as)) = Ok as"
    unfolding decode_ipv6_address_list_def length_concat_octets
    by (simp add: chunks_concat comp_def)
  ultimately show ?thesis
    using False by simp
qed

theorem multicast_registration_witness:
  "sends (multicast_listener_request 5 [] 1 [0xFF040000000000000000000000000001] 300) Confirmable 5 [] uri_MLR
     [(THREAD_TLV_COMMISSIONER_SESSION_ID, to_be 2 (1 :: u16)), (THREAD_TLV_TIMEOUT, to_be 4 (300 :: u32)),
      (THREAD_TLV_IPV6_ADDRESSES, octets 0xFF040000000000000000000000000001)]"
proof -
  have "is_multicast 0xFF040000000000000000000000000001"
    by (simp add: is_multicast_iff)
  then show ?thesis
    using multicast_registration [of "[0xFF040000000000000000000000000001]" 5 "[]" 1 300] by simp
qed

end
