(* ===== verification/Foreign.thy ===== *)
theory Foreign
  imports Dtls_Error
begin

text \<open>
  The third-party cryptography the DTLS crate calls, as a record of functions that every
  definition using it takes as an argument: AES-128-CCM with an 8-byte tag and a 12-byte nonce
  (crates \<^verbatim>\<open>aes\<close>, \<^verbatim>\<open>ccm\<close>), HMAC-SHA-256 (\<^verbatim>\<open>hmac\<close>, \<^verbatim>\<open>sha2\<close>; \<open>None\<close> when it refuses the key)
  and SHA-256. A 32-byte digest is a 256-bit word, as its Rust type fixes the length. What the code
  relies on is stated as named predicates over that record, so that a theorem shows which of
  them it needs. A transparent stand-in, in which the ciphertext is the plaintext followed by
  eight zero bytes, shows that the predicates can hold.
\<close>

record crypto =
  ccm_encrypt :: "bytes \<Rightarrow> bytes \<Rightarrow> bytes \<Rightarrow> bytes \<Rightarrow> bytes option"
  ccm_decrypt :: "bytes \<Rightarrow> bytes \<Rightarrow> bytes \<Rightarrow> bytes \<Rightarrow> bytes option"
  hmac_sha256 :: "bytes \<Rightarrow> bytes \<Rightarrow> 256 word option"
  sha256 :: "bytes \<Rightarrow> 256 word"

text \<open>
  Decryption inverts encryption under the same key, nonce and associated data; the ciphertext
  is the plaintext's length plus the tag; encryption accepts any plaintext of a record.
\<close>

definition ccm_correct :: "crypto \<Rightarrow> bool" where
  "ccm_correct cr \<longleftrightarrow>
     (\<forall>k n a p. length k = 16 \<longrightarrow> length n = 12 \<longrightarrow> length p \<le> 65535 \<longrightarrow>
        (\<exists>c. ccm_encrypt cr k n a p = Some c \<and> length c = length p + 8 \<and>
           ccm_decrypt cr k n a c = Some p))"

text \<open>HMAC accepts a key of any length.\<close>

definition hmac_total :: "crypto \<Rightarrow> bool" where
  "hmac_total cr \<longleftrightarrow> (\<forall>k m. hmac_sha256 cr k m \<noteq> None)"

definition toy_crypto :: crypto where
  "toy_crypto =
     \<lparr>ccm_encrypt = \<lambda>k n a p. Some (p @ replicate 8 0),
      ccm_decrypt = \<lambda>k n a c. if 8 \<le> length c then Some (take (length c - 8) c) else None,
      hmac_sha256 = \<lambda>k m. Some (of_nat (length m)),
      sha256 = \<lambda>m. of_nat (length m)\<rparr>"

lemma ccm_correct_toy: "ccm_correct toy_crypto"
  by (simp add: ccm_correct_def toy_crypto_def)

lemma hmac_total_toy: "hmac_total toy_crypto"
  by (simp add: hmac_total_def toy_crypto_def)

lemma ccm_correctE:
  assumes "ccm_correct cr" "length k = 16" "length n = 12" "length p \<le> 65535"
  obtains c where "ccm_encrypt cr k n a p = Some c" "length c = length p + 8"
    "ccm_decrypt cr k n a c = Some p"
  using assms unfolding ccm_correct_def by blast

end
