(* ===== verification/Dtls_Record.thy ===== *)
theory Dtls_Record
  imports Foreign
begin

text \<open>
  DTLS records: framing (\<^verbatim>\<open>record.rs\<close>), the 24-bit helpers of \<^verbatim>\<open>util.rs\<close>, the AES-CCM nonce
  (\<^verbatim>\<open>ccm.rs\<close>) and record protection (\<^verbatim>\<open>record_protection.rs\<close>). A sequence number travels in six
  bytes, so a record with a larger number does not survive encoding; the framing is a canonical
  codec on the records whose number fits. Diagnostic tracing is left out.
\<close>

named_theorems dtls_consts \<open>numbers of the DTLS profile\<close>

definition TLS_ECJPAKE_WITH_AES_128_CCM_8 :: u16 where [dtls_consts]: "TLS_ECJPAKE_WITH_AES_128_CCM_8 = 0xc0ff"
definition TLS_EMPTY_RENEGOTIATION_INFO_SCSV :: u16 where [dtls_consts]: "TLS_EMPTY_RENEGOTIATION_INFO_SCSV = 0x00ff"
definition DTLS_1_2_VERSION :: u16 where [dtls_consts]: "DTLS_1_2_VERSION = 0xfefd"
definition TLS_COMPRESSION_NULL :: u8 where [dtls_consts]: "TLS_COMPRESSION_NULL = 0"
definition EXTENSION_SUPPORTED_GROUPS :: u16 where [dtls_consts]: "EXTENSION_SUPPORTED_GROUPS = 10"
definition EXTENSION_MAX_FRAGMENT_LENGTH :: u16 where [dtls_consts]: "EXTENSION_MAX_FRAGMENT_LENGTH = 1"
definition EXTENSION_EC_POINT_FORMATS :: u16 where [dtls_consts]: "EXTENSION_EC_POINT_FORMATS = 11"
definition EXTENSION_SIGNATURE_ALGORITHMS :: u16 where [dtls_consts]: "EXTENSION_SIGNATURE_ALGORITHMS = 13"
definition EXTENSION_ECJPAKE_KKPP :: u16 where [dtls_consts]: "EXTENSION_ECJPAKE_KKPP = 256"
definition NAMED_GROUP_SECP256R1 :: u16 where [dtls_consts]: "NAMED_GROUP_SECP256R1 = 23"
definition EC_POINT_FORMAT_UNCOMPRESSED :: u8 where [dtls_consts]: "EC_POINT_FORMAT_UNCOMPRESSED = 0"
definition TLS_CCM_FIXED_IV_LEN :: nat where [dtls_consts]: "TLS_CCM_FIXED_IV_LEN = 4"
definition TLS_CCM_EXPLICIT_NONCE_LEN :: nat where [dtls_consts]: "TLS_CCM_EXPLICIT_NONCE_LEN = 8"
definition TLS_CCM_8_TAG_LEN :: nat where [dtls_consts]: "TLS_CCM_8_TAG_LEN = 8"
definition MAX_U24 :: u32 where [dtls_consts]: "MAX_U24 = 0x00ffffff"
definition RecordHeader_LEN :: nat where [dtls_consts]: "RecordHeader_LEN = 13"

section \<open>Fixed-width integers\<close>

definition dtls_read_u16 :: "bytes \<Rightarrow> u16" where
  "dtls_read_u16 bs = from_be [bs ! 0, bs ! 1]"

definition read_u24 :: "bytes \<Rightarrow> u32" where
  "read_u24 bs =
     push_bit 16 (ucast (bs ! 0)) OR push_bit 8 (ucast (bs ! 1)) OR ucast (bs ! 2)"

text \<open>The three bytes stored by \<open>write_u24\<close>, whose output slice has length 3 at every call.\<close>

definition write_u24 :: "u32 \<Rightarrow> dtls_error + bytes" where
  "write_u24 v =
     (if v > MAX_U24 then Err (Crypto ''invalid 24-bit integer'')
      else Ok [ucast (drop_bit 16 v), ucast (drop_bit 8 v), ucast v])"

section \<open>Framing\<close>

datatype ContentType = ChangeCipherSpec | Alert | Handshake | ApplicationData

fun ContentType_as_u8 :: "ContentType \<Rightarrow> u8" where
  "ContentType_as_u8 ChangeCipherSpec = 20"
| "ContentType_as_u8 Alert = 21"
| "ContentType_as_u8 Handshake = 22"
| "ContentType_as_u8 ApplicationData = 23"

definition ContentType_try_from :: "u8 \<Rightarrow> dtls_error + ContentType" where
  "ContentType_try_from v =
     (if v = 20 then Ok ChangeCipherSpec
      else if v = 21 then Ok Alert
      else if v = 22 then Ok Handshake
      else if v = 23 then Ok ApplicationData
      else Err (Crypto ''unknown DTLS content type''))"

record RecordHeader =
  content_type :: ContentType
  rec_version :: u16
  epoch :: u16
  sequence_number :: u64
  rec_length :: u16

definition RecordHeader_parse :: "bytes \<Rightarrow> dtls_error + RecordHeader" where
  "RecordHeader_parse bs =
     (if length bs < RecordHeader_LEN then Err (Crypto ''DTLS record header is truncated'')
      else and_then (ContentType_try_from (bs ! 0))
        (\<lambda>t. Ok \<lparr>content_type = t,
                 rec_version = from_be [bs ! 1, bs ! 2],
                 epoch = from_be [bs ! 3, bs ! 4],
                 sequence_number = from_be [bs ! 5, bs ! 6, bs ! 7, bs ! 8, bs ! 9, bs ! 10],
                 rec_length = from_be [bs ! 11, bs ! 12]\<rparr>))"

definition RecordHeader_encode :: "RecordHeader \<Rightarrow> bytes" where
  "RecordHeader_encode h =
     [ContentType_as_u8 (content_type h)] @ to_be 2 (rec_version h) @ to_be 2 (epoch h)
     @ to_be 6 (sequence_number h) @ to_be 2 (rec_length h)"

definition aead_additional_data :: "RecordHeader \<Rightarrow> u16 \<Rightarrow> bytes" where
  "aead_additional_data h plaintext_len =
     to_be 2 (epoch h) @ to_be 6 (sequence_number h) @ [ContentType_as_u8 (content_type h)]
     @ to_be 2 (rec_version h) @ to_be 2 plaintext_len"

record DtlsRecord =
  rec_header :: RecordHeader
  rec_payload :: bytes

definition DtlsRecord_new :: "ContentType \<Rightarrow> u16 \<Rightarrow> u64 \<Rightarrow> bytes \<Rightarrow> dtls_error + DtlsRecord" where
  "DtlsRecord_new t ep sn body =
     and_then (if length body \<le> 65535 then Ok (of_nat (length body))
               else Err (Crypto ''DTLS record payload is too long''))
       (\<lambda>len. Ok \<lparr>rec_header = \<lparr>content_type = t, rec_version = DTLS_1_2_VERSION, epoch = ep,
                               sequence_number = sn, rec_length = len\<rparr>,
                  rec_payload = body\<rparr>)"

definition DtlsRecord_encode :: "DtlsRecord \<Rightarrow> dtls_error + bytes" where
  "DtlsRecord_encode r =
     (if length (rec_payload r) \<noteq> unat (rec_length (rec_header r))
      then Err (Crypto ''DTLS record header length does not match payload'')
      else Ok (RecordHeader_encode (rec_header r) @ rec_payload r))"

definition DtlsRecord_parse_one :: "bytes \<Rightarrow> dtls_error + DtlsRecord \<times> bytes" where
  "DtlsRecord_parse_one bs =
     and_then (RecordHeader_parse bs)
       (\<lambda>h. and_then (ok_or (checked_add_usize RecordHeader_LEN (unat (rec_length h)))
               (Crypto ''DTLS record length overflow''))
          (\<lambda>end. if length bs < end then Err (Crypto ''DTLS record payload is truncated'')
             else Ok (\<lparr>rec_header = h, rec_payload = drop RecordHeader_LEN (take end bs)\<rparr>, drop end bs)))"

lemma DtlsRecord_parse_one_shrinks:
  "DtlsRecord_parse_one bs = Inr (r, rest) \<Longrightarrow> length rest < length bs"
  by (auto simp: DtlsRecord_parse_one_def RecordHeader_parse_def result_simps dtls_consts split: if_splits)

function parse_datagram :: "bytes \<Rightarrow> dtls_error + DtlsRecord list" where
  "parse_datagram bs =
     (if bs = [] then Ok []
      else and_then (DtlsRecord_parse_one bs)
        (\<lambda>(r, rest). and_then (parse_datagram rest) (\<lambda>rs. Ok (r # rs))))"
  by pat_completeness auto
termination
  by (relation "measure length") (auto dest: DtlsRecord_parse_one_shrinks)

declare parse_datagram.simps [simp del]

fun encode_datagram :: "DtlsRecord list \<Rightarrow> dtls_error + bytes" where
  "encode_datagram [] = Ok []"
| "encode_datagram (r # rs) =
     and_then (DtlsRecord_encode r) (\<lambda>b. and_then (encode_datagram rs) (\<lambda>c. Ok (b @ c)))"

section \<open>Record protection\<close>

definition AesCcm8_encrypt :: "crypto \<Rightarrow> bytes \<Rightarrow> bytes \<Rightarrow> bytes \<Rightarrow> bytes \<Rightarrow> dtls_error + bytes" where
  "AesCcm8_encrypt cr key nonce aad plaintext =
     (if length key \<noteq> 16 then Err (Crypto ''invalid AES-CCM key'')
      else ok_or (ccm_encrypt cr key nonce aad plaintext) (Crypto ''AES-CCM encryption failed''))"

definition AesCcm8_decrypt :: "crypto \<Rightarrow> bytes \<Rightarrow> bytes \<Rightarrow> bytes \<Rightarrow> bytes \<Rightarrow> dtls_error + bytes" where
  "AesCcm8_decrypt cr key nonce aad ciphertext =
     (if length key \<noteq> 16 then Err (Crypto ''invalid AES-CCM key'')
      else ok_or (ccm_decrypt cr key nonce aad ciphertext) (Crypto ''AES-CCM authentication failed''))"

definition dtls_ccm_nonce :: "bytes \<Rightarrow> u16 \<Rightarrow> u64 \<Rightarrow> dtls_error + bytes" where
  "dtls_ccm_nonce fixed_iv ep sn =
     (if sn > 0x0000ffffffffffff then Err (Crypto ''DTLS record sequence number exceeds 48 bits'')
      else Ok (fixed_iv @ to_be 2 ep @ to_be 6 sn))"

definition protect_aes_128_ccm_8_record ::
  "crypto \<Rightarrow> ContentType \<Rightarrow> u16 \<Rightarrow> u64 \<Rightarrow> bytes \<Rightarrow> bytes \<Rightarrow> bytes \<Rightarrow> dtls_error + DtlsRecord" where
  "protect_aes_128_ccm_8_record cr t ep sn key fixed_iv plaintext =
     and_then (if length plaintext \<le> 65535 then Ok (of_nat (length plaintext))
               else Err (Crypto ''DTLS plaintext is too long''))
       (\<lambda>plaintext_len. and_then (dtls_ccm_nonce fixed_iv ep sn)
          (\<lambda>nonce.
             let h = \<lparr>content_type = t, rec_version = DTLS_1_2_VERSION, epoch = ep,
                      sequence_number = sn, rec_length = 0\<rparr>;
                 aad = aead_additional_data h plaintext_len
             in and_then (AesCcm8_encrypt cr key nonce aad plaintext)
               (\<lambda>ciphertext.
                  DtlsRecord_new t ep sn (drop TLS_CCM_FIXED_IV_LEN nonce @ ciphertext))))"

definition open_aes_128_ccm_8_record ::
  "crypto \<Rightarrow> DtlsRecord \<Rightarrow> bytes \<Rightarrow> bytes \<Rightarrow> dtls_error + bytes" where
  "open_aes_128_ccm_8_record cr r key fixed_iv =
     (if length (rec_payload r) < TLS_CCM_EXPLICIT_NONCE_LEN + TLS_CCM_8_TAG_LEN
      then Err (Crypto ''DTLS AES-CCM record payload is too short'')
      else
        let encrypted = drop TLS_CCM_EXPLICIT_NONCE_LEN (rec_payload r) in
        and_then (if TLS_CCM_8_TAG_LEN \<le> length encrypted
                  then Ok (length encrypted - TLS_CCM_8_TAG_LEN)
                  else Err (Crypto ''DTLS AES-CCM tag is missing''))
          (\<lambda>plaintext_len.
             and_then (if plaintext_len \<le> 65535 then Ok (of_nat plaintext_len)
                       else Err (Crypto ''DTLS plaintext length exceeds 16 bits''))
               (\<lambda>plaintext_len.
                  let nonce = fixed_iv @ take TLS_CCM_EXPLICIT_NONCE_LEN (rec_payload r);
                      aad = aead_additional_data (rec_header r) plaintext_len
                  in AesCcm8_decrypt cr key nonce aad encrypted)))"

section \<open>Framing is a canonical codec\<close>

lemma ContentType_try_from_u8 [simp]: "ContentType_try_from (ContentType_as_u8 t) = Ok t"
  by (cases t) (simp_all add: ContentType_try_from_def)

lemma ContentType_as_u8_try_from: "ContentType_try_from v = Inr t \<Longrightarrow> ContentType_as_u8 t = v"
  by (auto simp: ContentType_try_from_def split: if_splits)

lemma length_RecordHeader_encode [simp]: "length (RecordHeader_encode h) = 13"
  by (simp add: RecordHeader_encode_def)

lemma RecordHeader_parse_encode:
  assumes "take_bit 48 (sequence_number h) = sequence_number h"
  shows "RecordHeader_parse (RecordHeader_encode h @ rest) = Ok h"
  using assms
  by (cases h) (simp add: RecordHeader_parse_def RecordHeader_encode_def to_be_unfold to_be_6 dtls_consts)

lemma take_13:
  "13 \<le> length bs \<Longrightarrow> take 13 bs =
     [bs ! 0, bs ! 1, bs ! 2, bs ! 3, bs ! 4, bs ! 5, bs ! 6, bs ! 7, bs ! 8, bs ! 9, bs ! 10, bs ! 11, bs ! 12]"
proof -
  assume "13 \<le> length bs"
  moreover from this have "take (Suc 0) bs = [bs ! 0]"
    by (cases bs) simp_all
  ultimately show ?thesis
    by (simp add: eval_nat_numeral take_Suc_conv_app_nth)
qed

lemma RecordHeader_encode_parse:
  assumes "RecordHeader_parse bs = Inr h"
  shows "take 13 bs = RecordHeader_encode h"
    and "take_bit 48 (sequence_number h) = sequence_number h"
proof -
  have "13 \<le> length bs"
    using assms by (auto simp: RecordHeader_parse_def dtls_consts split: if_splits)
  then show "take 13 bs = RecordHeader_encode h"
    using assms
    by (auto simp: RecordHeader_parse_def RecordHeader_encode_def dtls_consts result_simps take_13
        ContentType_as_u8_try_from)
  show "take_bit 48 (sequence_number h) = sequence_number h"
    using assms by (auto simp: RecordHeader_parse_def result_simps take_bit_from_be split: if_splits)
qed

abbreviation record_wf :: "DtlsRecord \<Rightarrow> bool" where
  "record_wf r \<equiv> sequence_number (rec_header r) \<le> 0x0000ffffffffffff"

lemma DtlsRecord_parse_one_encode:
  assumes "record_wf r" "DtlsRecord_encode r = Inr bs"
  shows "DtlsRecord_parse_one (bs @ rest) = Ok (r, rest)"
proof -
  have bs: "bs = RecordHeader_encode (rec_header r) @ rec_payload r"
    "length (rec_payload r) = unat (rec_length (rec_header r))"
    using assms(2) by (auto simp: DtlsRecord_encode_def split: if_splits)
  have "RecordHeader_parse (bs @ rest) = Ok (rec_header r)"
    using RecordHeader_parse_encode assms(1) by (simp add: bs take_bit_48_iff)
  then show ?thesis
    using bs(2) by (simp add: DtlsRecord_parse_one_def dtls_consts bs(1))
qed

lemma DtlsRecord_encode_parse_one:
  assumes "DtlsRecord_parse_one bs = Inr (r, rest)"
  shows "record_wf r \<and> (\<exists>b. DtlsRecord_encode r = Inr b \<and> bs = b @ rest)"
proof -
  obtain h where h: "RecordHeader_parse bs = Inr h" "13 + unat (rec_length h) \<le> length bs"
    "r = \<lparr>rec_header = h, rec_payload = drop 13 (take (13 + unat (rec_length h)) bs)\<rparr>"
    "rest = drop (13 + unat (rec_length h)) bs"
    using assms
    by (auto simp: DtlsRecord_parse_one_def result_simps dtls_consts split: if_splits)
  then have "take 13 bs @ drop 13 (take (13 + unat (rec_length h)) bs) = take (13 + unat (rec_length h)) bs"
    by (metis append_take_drop_id min.absorb1 le_add1 take_take)
  then show ?thesis
    using h RecordHeader_encode_parse [OF h(1)]
    by (auto simp: DtlsRecord_encode_def take_bit_48_iff min_def simp flip: append_assoc)
qed

lemma parse_datagram_step:
  "bs \<noteq> [] \<Longrightarrow> parse_datagram bs = Inr zs \<longleftrightarrow>
     (\<exists>y ys rest. DtlsRecord_parse_one bs = Inr (y, rest) \<and> parse_datagram rest = Inr ys \<and> zs = y # ys)"
  by (subst parse_datagram.simps) (auto simp: result_simps)

interpretation dtls_record: canonical_codec record_wf DtlsRecord_encode DtlsRecord_parse_one
    encode_datagram parse_datagram
proof
  show "DtlsRecord_encode x \<noteq> Inr []" for x
    by (auto simp: DtlsRecord_encode_def RecordHeader_encode_def)
  show "encode_datagram (x # xs) = Inr bs \<longleftrightarrow>
      (\<exists>b c. DtlsRecord_encode x = Inr b \<and> encode_datagram xs = Inr c \<and> bs = b @ c)" for x xs bs
    by (auto simp: result_simps)
  show "parse_datagram [] = Inr []"
    by (simp add: parse_datagram.simps)
qed (simp_all add: DtlsRecord_parse_one_encode DtlsRecord_encode_parse_one parse_datagram_step)

text \<open>C22: On records whose sequence number fits in 48 bits, parsing a datagram and encoding records
  back to back are inverse: a datagram parses to exactly those records whose encoding it is.\<close>

theorem datagram_codec:
  "parse_datagram bs = Ok rs \<longleftrightarrow> (\<forall>r\<in>set rs. record_wf r) \<and> encode_datagram rs = Ok bs"
  by (rule dtls_record.codec_bij)

theorem datagram_codec_witness:
  "parse_datagram [22, 0xfe, 0xfd, 0, 0, 0, 0, 0, 0, 0, 5, 0, 2, 7, 8] =
     Ok [\<lparr>rec_header = \<lparr>content_type = Handshake, rec_version = 0xfefd, epoch = 0,
         sequence_number = 5, rec_length = 2\<rparr>, rec_payload = [7, 8]\<rparr>]"
proof -
  let ?r = "\<lparr>rec_header = \<lparr>content_type = Handshake, rec_version = 0xfefd, epoch = 0,
         sequence_number = 5, rec_length = 2\<rparr>, rec_payload = [7, 8]\<rparr>"
  have "encode_datagram [?r] = Ok [22, 0xfe, 0xfd, 0, 0, 0, 0, 0, 0, 0, 5, 0, 2, 7, 8]"
    by (simp add: DtlsRecord_encode_def RecordHeader_encode_def to_be_unfold to_be_6)
  moreover have "\<forall>r\<in>set [?r]. record_wf r"
    by simp
  ultimately show ?thesis
    using datagram_codec by blast
qed

section \<open>Nonces and protection\<close>

text \<open>C20: Under one write key and fixed IV, two records get the same AES-CCM nonce only if they have the
  same epoch and sequence number; a sequence number beyond 48 bits yields no nonce at all.\<close>

theorem ccm_nonce_unique:
  assumes "dtls_ccm_nonce iv ep sn = Ok n" "dtls_ccm_nonce iv ep' sn' = Ok n"
  shows "ep = ep' \<and> sn = sn'"
proof -
  have b: "sn \<le> 0x0000ffffffffffff" "sn' \<le> 0x0000ffffffffffff"
    and n: "to_be 2 ep @ to_be 6 sn = to_be 2 ep' @ to_be 6 sn'"
    using assms by (auto simp: dtls_ccm_nonce_def not_less split: if_splits)
  then have "to_be 2 ep = to_be 2 ep'" "to_be 6 sn = to_be 6 sn'"
    by simp_all
  moreover have "take_bit 48 w = from_be (to_be 6 w)" for w :: u64
    by (simp add: from_be_to_be)
  ultimately have "ep = ep'" "take_bit 48 sn = take_bit 48 sn'"
    using to_be_inj [of 2 ep ep'] by simp_all
  then show ?thesis
    using b by (metis take_bit_48_iff)
qed

theorem ccm_nonce_unique_witness:
  "dtls_ccm_nonce [1, 2, 3, 4] 1 7 = Ok [1, 2, 3, 4, 0, 1, 0, 0, 0, 0, 0, 7] \<and> (1 :: u16) = 1 \<and> (7 :: u64) = 7"
proof -
  have n: "dtls_ccm_nonce [1, 2, 3, 4] 1 7 = Ok [1, 2, 3, 4, 0, 1, 0, 0, 0, 0, 0, 7]"
    by (simp add: dtls_ccm_nonce_def to_be_unfold to_be_6)
  show ?thesis
    using n ccm_nonce_unique [OF n n] by simp
qed

lemma protect_eq:
  assumes "ccm_correct cr" "length key = 16" "length iv = 4" "length p + 16 \<le> 65535"
    "sn \<le> 0x0000ffffffffffff"
  obtains c where "length c = length p + 8"
    "ccm_decrypt cr key (iv @ to_be 2 ep @ to_be 6 sn)
       (aead_additional_data \<lparr>content_type = t, rec_version = DTLS_1_2_VERSION, epoch = ep,
          sequence_number = sn, rec_length = 0\<rparr> (of_nat (length p))) c = Some p"
    "protect_aes_128_ccm_8_record cr t ep sn key iv p =
       Ok \<lparr>rec_header = \<lparr>content_type = t, rec_version = DTLS_1_2_VERSION, epoch = ep,
             sequence_number = sn, rec_length = of_nat (length p + 16)\<rparr>,
           rec_payload = to_be 2 ep @ to_be 6 sn @ c\<rparr>"
proof -
  let ?n = "iv @ to_be 2 ep @ to_be 6 sn"
  let ?a = "aead_additional_data \<lparr>content_type = t, rec_version = DTLS_1_2_VERSION, epoch = ep,
      sequence_number = sn, rec_length = 0\<rparr> (of_nat (length p))"
  have "length ?n = 12" "length p \<le> 65535"
    using assms(3,4) by simp_all
  then obtain c where c: "ccm_encrypt cr key ?n ?a p = Some c" "length c = length p + 8"
    "ccm_decrypt cr key ?n ?a c = Some p"
    using ccm_correctE [OF assms(1,2)] by metis
  have "\<not> 0x0000ffffffffffff < sn"
    using assms(5) by simp
  then have "protect_aes_128_ccm_8_record cr t ep sn key iv p =
       Ok \<lparr>rec_header = \<lparr>content_type = t, rec_version = DTLS_1_2_VERSION, epoch = ep,
             sequence_number = sn, rec_length = of_nat (length p + 16)\<rparr>,
           rec_payload = to_be 2 ep @ to_be 6 sn @ c\<rparr>"
    using assms c
    by (simp add: protect_aes_128_ccm_8_record_def dtls_ccm_nonce_def AesCcm8_encrypt_def
        DtlsRecord_new_def TLS_CCM_FIXED_IV_LEN_def add.commute del: of_nat_add)
  then show ?thesis
    using c that by blast
qed

text \<open>C18: For a 16-byte key, a 4-byte IV and a plaintext that leaves room for the nonce and the tag,
  protecting a record succeeds for every 48-bit sequence number, the record keeps its type, epoch and
  number, and opening it under the same key and IV returns the plaintext.\<close>

theorem protect_open_roundtrip:
  assumes "ccm_correct cr" "length key = 16" "length iv = 4" "length p + 16 \<le> 65535"
    "sn \<le> 0x0000ffffffffffff"
  shows "\<exists>r. protect_aes_128_ccm_8_record cr t ep sn key iv p = Ok r \<and>
    content_type (rec_header r) = t \<and> epoch (rec_header r) = ep \<and> sequence_number (rec_header r) = sn \<and>
    is_ok (DtlsRecord_encode r) \<and> open_aes_128_ccm_8_record cr r key iv = Ok p"
proof -
  obtain c where c: "length c = length p + 8"
    "ccm_decrypt cr key (iv @ to_be 2 ep @ to_be 6 sn)
       (aead_additional_data \<lparr>content_type = t, rec_version = DTLS_1_2_VERSION, epoch = ep,
          sequence_number = sn, rec_length = 0\<rparr> (of_nat (length p))) c = Some p"
    "protect_aes_128_ccm_8_record cr t ep sn key iv p =
       Ok \<lparr>rec_header = \<lparr>content_type = t, rec_version = DTLS_1_2_VERSION, epoch = ep,
             sequence_number = sn, rec_length = of_nat (length p + 16)\<rparr>,
           rec_payload = to_be 2 ep @ to_be 6 sn @ c\<rparr>"
    by (rule protect_eq [OF assms])
  then show ?thesis
    using assms(2,4)
    by (simp add: open_aes_128_ccm_8_record_def AesCcm8_decrypt_def TLS_CCM_EXPLICIT_NONCE_LEN_def
        TLS_CCM_8_TAG_LEN_def aead_additional_data_def DtlsRecord_encode_def del: of_nat_add)
qed

theorem protect_open_roundtrip_witness:
  "\<exists>r. protect_aes_128_ccm_8_record toy_crypto ApplicationData 1 9 (replicate 16 0) [1, 2, 3, 4] [5, 6] = Ok r \<and>
    open_aes_128_ccm_8_record toy_crypto r (replicate 16 0) [1, 2, 3, 4] = Ok [5, 6]"
proof -
  have "(9 :: u64) \<le> 0x0000ffffffffffff" "length (replicate 16 (0 :: u8)) = 16"
    "length [1 :: u8, 2, 3, 4] = 4" "length [5 :: u8, 6] + 16 \<le> 65535"
    by simp_all
  then show ?thesis
    using protect_open_roundtrip [OF ccm_correct_toy, of "replicate 16 0" "[1, 2, 3, 4]" "[5, 6]" 9
        ApplicationData 1] by blast
qed

end
