(* ===== verification/Key_Schedule.thy ===== *)
theory Key_Schedule
  imports Foreign
begin

text \<open>
  The TLS 1.2 key schedule of the Thread DTLS profile (\<^verbatim>\<open>key_schedule.rs\<close>) over a foreign
  HMAC-SHA-256 and SHA-256. Shown: the output loop computes the pseudo-random function of
  RFC 5246, gives exactly the requested number of bytes, and the derived keys and IVs have the
  lengths their Rust array types promise. Zeroisation is not modelled.
\<close>

datatype FinishedRole = Client | Server

record Tls12Aes128Ccm8KeyBlock =
  client_write_key :: bytes
  server_write_key :: bytes
  client_write_iv :: bytes
  server_write_iv :: bytes

record ThreadDtlsKeyMaterial =
  master_secret :: bytes
  key_block :: Tls12Aes128Ccm8KeyBlock

definition dtls_hmac_sha256 :: "crypto \<Rightarrow> bytes \<Rightarrow> bytes \<Rightarrow> dtls_error + bytes" where
  "dtls_hmac_sha256 cr key msg =
     and_then (ok_or (hmac_sha256 cr key msg) (Crypto ''invalid HMAC key'')) (\<lambda>d. Ok (to_be 32 d))"

lemma length_dtls_hmac: "dtls_hmac_sha256 cr key msg = Inr d \<Longrightarrow> length d = 32"
  by (auto simp: dtls_hmac_sha256_def result_simps)

function prf_loop :: "crypto \<Rightarrow> bytes \<Rightarrow> bytes \<Rightarrow> nat \<Rightarrow> bytes \<Rightarrow> bytes \<Rightarrow> dtls_error + bytes" where
  "prf_loop cr secret label_seed out_len a out =
     (if length out < out_len then
        and_then (dtls_hmac_sha256 cr secret (a @ label_seed))
          (\<lambda>block. and_then (dtls_hmac_sha256 cr secret a)
             (\<lambda>next_a. prf_loop cr secret label_seed out_len next_a (out @ block)))
      else Ok out)"
  by pat_completeness auto
termination
  by (relation "measure (\<lambda>(cr, secret, label_seed, out_len, a, out). out_len - length out)")
    (auto dest: length_dtls_hmac)

declare prf_loop.simps [simp del]

definition tls12_prf :: "crypto \<Rightarrow> bytes \<Rightarrow> bytes \<Rightarrow> bytes \<Rightarrow> nat \<Rightarrow> dtls_error + bytes" where
  "tls12_prf cr secret label seed out_len =
     (let label_seed = label @ seed in
      and_then (dtls_hmac_sha256 cr secret label_seed)
        (\<lambda>a. and_then (prf_loop cr secret label_seed out_len a []) (\<lambda>out. Ok (take out_len out))))"

definition derive_master_secret :: "crypto \<Rightarrow> bytes \<Rightarrow> bytes \<Rightarrow> bytes \<Rightarrow> dtls_error + bytes" where
  "derive_master_secret cr pre_master_secret client_random server_random =
     tls12_prf cr pre_master_secret (str ''master secret'') (client_random @ server_random) 48"

definition derive_aes_128_ccm_8_key_block ::
  "crypto \<Rightarrow> bytes \<Rightarrow> bytes \<Rightarrow> bytes \<Rightarrow> dtls_error + Tls12Aes128Ccm8KeyBlock" where
  "derive_aes_128_ccm_8_key_block cr ms client_random server_random =
     and_then (tls12_prf cr ms (str ''key expansion'') (server_random @ client_random) 40)
       (\<lambda>bs. Ok \<lparr>client_write_key = take 16 bs,
                 server_write_key = take 16 (drop 16 bs),
                 client_write_iv = take 4 (drop 32 bs),
                 server_write_iv = take 4 (drop 36 bs)\<rparr>)"

definition derive_joiner_router_kek :: "crypto \<Rightarrow> bytes \<Rightarrow> bytes \<Rightarrow> bytes \<Rightarrow> dtls_error + bytes" where
  "derive_joiner_router_kek cr ms client_random server_random =
     and_then (tls12_prf cr ms (str ''key expansion'') (server_random @ client_random) 40)
       (\<lambda>bs. Ok (take 16 (to_be 32 (sha256 cr bs))))"

definition finished_verify_data :: "crypto \<Rightarrow> bytes \<Rightarrow> FinishedRole \<Rightarrow> bytes \<Rightarrow> dtls_error + bytes" where
  "finished_verify_data cr ms role handshake_hash =
     tls12_prf cr ms
       (case role of Client \<Rightarrow> str ''client finished'' | Server \<Rightarrow> str ''server finished'')
       handshake_hash 12"

section \<open>The pseudo-random function\<close>

text \<open>The reference: \<open>A(0)\<close> is the seed, \<open>A(i+1) = HMAC(A(i))\<close>, and the output is the concatenation of
  \<open>HMAC(A(i) \<parallel> seed)\<close> for \<open>i = 1, 2, \<dots>\<close>.\<close>

definition hmac_bytes :: "crypto \<Rightarrow> bytes \<Rightarrow> bytes \<Rightarrow> bytes" where
  "hmac_bytes cr key msg = to_be 32 (the (hmac_sha256 cr key msg))"

primrec prf_A :: "crypto \<Rightarrow> bytes \<Rightarrow> bytes \<Rightarrow> nat \<Rightarrow> bytes" where
  "prf_A cr secret seed 0 = seed"
| "prf_A cr secret seed (Suc i) = hmac_bytes cr secret (prf_A cr secret seed i)"

definition p_hash :: "crypto \<Rightarrow> bytes \<Rightarrow> bytes \<Rightarrow> nat \<Rightarrow> bytes" where
  "p_hash cr secret seed blocks =
     concat (map (\<lambda>i. hmac_bytes cr secret (prf_A cr secret seed (Suc i) @ seed)) [0..<blocks])"

lemma dtls_hmac_total: "hmac_total cr \<Longrightarrow> dtls_hmac_sha256 cr key msg = Ok (hmac_bytes cr key msg)"
  by (auto simp: hmac_total_def dtls_hmac_sha256_def hmac_bytes_def ok_or_def split: option.splits)

lemma length_hmac_bytes [simp]: "length (hmac_bytes cr key msg) = 32"
  by (simp add: hmac_bytes_def)

lemma length_p_hash [simp]: "length (p_hash cr secret seed n) = 32 * n"
  by (induction n) (simp_all add: p_hash_def)

lemma p_hash_Suc:
  "p_hash cr secret seed (Suc n) =
     p_hash cr secret seed n @ hmac_bytes cr secret (prf_A cr secret seed (Suc n) @ seed)"
  by (simp add: p_hash_def)

lemma prf_loop_p_hash:
  assumes "hmac_total cr"
  shows "\<exists>m. prf_loop cr secret seed n (prf_A cr secret seed (Suc k)) (p_hash cr secret seed k)
      = Ok (p_hash cr secret seed m) \<and> n \<le> 32 * m"
proof (induction "n - 32 * k" arbitrary: k rule: less_induct)
  case less
  show ?case
  proof (cases "32 * k < n")
    case True
    then have "prf_loop cr secret seed n (prf_A cr secret seed (Suc k)) (p_hash cr secret seed k)
      = prf_loop cr secret seed n (prf_A cr secret seed (Suc (Suc k))) (p_hash cr secret seed (Suc k))"
      using assms
      by (subst prf_loop.simps) (simp add: dtls_hmac_total p_hash_Suc)
    then show ?thesis
      using less [of "Suc k"] True by (simp del: prf_A.simps)
  next
    case False
    then have "prf_loop cr secret seed n (prf_A cr secret seed (Suc k)) (p_hash cr secret seed k)
        = Ok (p_hash cr secret seed k)"
      by (subst prf_loop.simps) simp
    then show ?thesis
      using False by (intro exI [of _ k]) simp
  qed
qed

lemma take_p_hash: "n \<le> 32 * m \<Longrightarrow> m \<le> k \<Longrightarrow> take n (p_hash cr secret seed k) = take n (p_hash cr secret seed m)"
proof (induction k)
  case (Suc k)
  then show ?case
    by (cases "m = Suc k") (auto simp: p_hash_Suc)
qed simp

lemma tls12_prf_p_hash:
  assumes "hmac_total cr" "n \<le> 32 * m"
  shows "tls12_prf cr secret label seed n = Ok (take n (p_hash cr secret (label @ seed) m))"
proof -
  obtain k where k: "prf_loop cr secret (label @ seed) n (prf_A cr secret (label @ seed) (Suc 0))
      (p_hash cr secret (label @ seed) 0) = Ok (p_hash cr secret (label @ seed) k)" "n \<le> 32 * k"
    using prf_loop_p_hash [OF assms(1), of secret "label @ seed" n 0] by blast
  have "take n (p_hash cr secret (label @ seed) k) = take n (p_hash cr secret (label @ seed) m)"
    using take_p_hash [OF k(2), of m] take_p_hash [OF assms(2), of k] by (metis nat_le_linear)
  then show ?thesis
    using k(1) assms(1) by (simp add: tls12_prf_def dtls_hmac_total Let_def) (simp add: p_hash_def)
qed

text \<open>C34: The key-derivation loop computes the TLS 1.2 pseudo-random function: it always returns, and its
  output is the first \<open>n\<close> bytes of the P-SHA-256 expansion of the label and seed, however many blocks
  beyond the needed ones the reference expands.\<close>

theorem prf_correct:
  assumes "hmac_total cr" "n \<le> 32 * m"
  shows "tls12_prf cr secret label seed n = Ok (take n (p_hash cr secret (label @ seed) m)) \<and>
    length (take n (p_hash cr secret (label @ seed) m)) = n"
  using tls12_prf_p_hash [OF assms] assms(2) by simp

theorem prf_correct_witness:
  "tls12_prf toy_crypto [1] [2] [3] 12 = Ok (take 12 (p_hash toy_crypto [1] [2, 3] 1))"
proof -
  have "(12 :: nat) \<le> 32 * 1"
    by simp
  then show ?thesis
    using prf_correct [OF hmac_total_toy, of 12 1 "[1]" "[2]" "[3]"] by simp
qed

lemma key_block_lengths:
  assumes "hmac_total cr"
  obtains kb where "derive_aes_128_ccm_8_key_block cr ms crnd srnd = Ok kb"
    "length (client_write_key kb) = 16" "length (server_write_key kb) = 16"
    "length (client_write_iv kb) = 4" "length (server_write_iv kb) = 4"
  using tls12_prf_p_hash [OF assms, of 40 2]
  by (simp add: derive_aes_128_ccm_8_key_block_def)

end
