(* ===== verification/Handshake.thy ===== *)
theory Handshake
  imports Dtls_Record Key_Schedule
begin

text \<open>
  DTLS handshake framing (\<^verbatim>\<open>handshake.rs\<close>): fragment headers, fragments, message fragmentation,
  the parsers for unfragmented messages, the Finished transcript and the reassembler; and the
  flight helpers of \<^verbatim>\<open>flight.rs\<close>. A fragment that reaches the reassembler carries its payload and
  header separately, as the Rust value does.
\<close>

section \<open>Headers and fragments\<close>

datatype HandshakeType =
    HelloRequest | ClientHello | ServerHello | HelloVerifyRequest | Certificate | ServerKeyExchange
  | CertificateRequest | ServerHelloDone | CertificateVerify | ClientKeyExchange | Finished

fun HandshakeType_as_u8 :: "HandshakeType \<Rightarrow> u8" where
  "HandshakeType_as_u8 HelloRequest = 0"
| "HandshakeType_as_u8 ClientHello = 1"
| "HandshakeType_as_u8 ServerHello = 2"
| "HandshakeType_as_u8 HelloVerifyRequest = 3"
| "HandshakeType_as_u8 Certificate = 11"
| "HandshakeType_as_u8 ServerKeyExchange = 12"
| "HandshakeType_as_u8 CertificateRequest = 13"
| "HandshakeType_as_u8 ServerHelloDone = 14"
| "HandshakeType_as_u8 CertificateVerify = 15"
| "HandshakeType_as_u8 ClientKeyExchange = 16"
| "HandshakeType_as_u8 Finished = 20"

definition HandshakeType_try_from :: "u8 \<Rightarrow> dtls_error + HandshakeType" where
  "HandshakeType_try_from v =
     (if v = 0 then Ok HelloRequest
      else if v = 1 then Ok ClientHello
      else if v = 2 then Ok ServerHello
      else if v = 3 then Ok HelloVerifyRequest
      else if v = 11 then Ok Certificate
      else if v = 12 then Ok ServerKeyExchange
      else if v = 13 then Ok CertificateRequest
      else if v = 14 then Ok ServerHelloDone
      else if v = 15 then Ok CertificateVerify
      else if v = 16 then Ok ClientKeyExchange
      else if v = 20 then Ok Finished
      else Err (Crypto ''unknown DTLS handshake type''))"

record HandshakeHeader =
  hh_type :: HandshakeType
  hh_length :: u32
  hh_seq :: u16
  fragment_offset :: u32
  fragment_length :: u32

definition HandshakeHeader_LEN :: nat where [dtls_consts]: "HandshakeHeader_LEN = 12"

definition HandshakeHeader_validate :: "HandshakeHeader \<Rightarrow> dtls_error + unit" where
  "HandshakeHeader_validate h =
     (if hh_length h > MAX_U24 \<or> fragment_offset h > MAX_U24 \<or> fragment_length h > MAX_U24
      then Err (Crypto ''DTLS handshake length exceeds 24-bit field'')
      else if fragment_offset h + fragment_length h > hh_length h
      then Err (Crypto ''DTLS handshake fragment exceeds message length'')
      else Ok ())"

definition HandshakeHeader_parse :: "bytes \<Rightarrow> dtls_error + HandshakeHeader" where
  "HandshakeHeader_parse bs =
     (if length bs < HandshakeHeader_LEN then Err (Crypto ''DTLS handshake header is truncated'')
      else and_then (HandshakeType_try_from (bs ! 0))
        (\<lambda>t. let h = \<lparr>hh_type = t, hh_length = read_u24 (take 3 (drop 1 bs)),
                     hh_seq = from_be [bs ! 4, bs ! 5],
                     fragment_offset = read_u24 (take 3 (drop 6 bs)),
                     fragment_length = read_u24 (take 3 (drop 9 bs))\<rparr>
             in and_then (HandshakeHeader_validate h) (\<lambda>_. Ok h)))"

definition HandshakeHeader_encode :: "HandshakeHeader \<Rightarrow> dtls_error + bytes" where
  "HandshakeHeader_encode h =
     and_then (HandshakeHeader_validate h)
       (\<lambda>_. and_then (write_u24 (hh_length h))
          (\<lambda>l. and_then (write_u24 (fragment_offset h))
             (\<lambda>fo. and_then (write_u24 (fragment_length h))
                (\<lambda>fl. Ok ([HandshakeType_as_u8 (hh_type h)] @ l @ to_be 2 (hh_seq h) @ fo @ fl)))))"

record HandshakeFragment =
  hf_header :: HandshakeHeader
  hf_fragment :: bytes

definition HandshakeFragment_parse :: "bytes \<Rightarrow> dtls_error + HandshakeFragment" where
  "HandshakeFragment_parse bs =
     and_then (HandshakeHeader_parse bs)
       (\<lambda>h. and_then (ok_or (checked_add_usize HandshakeHeader_LEN (unat (fragment_length h)))
               (Crypto ''DTLS handshake fragment length overflow''))
          (\<lambda>end. if length bs < end then Err (Crypto ''DTLS handshake fragment is truncated'')
             else Ok \<lparr>hf_header = h, hf_fragment = drop HandshakeHeader_LEN (take end bs)\<rparr>))"

definition HandshakeFragment_encode :: "HandshakeFragment \<Rightarrow> dtls_error + bytes" where
  "HandshakeFragment_encode f =
     (if length (hf_fragment f) \<noteq> unat (fragment_length (hf_header f))
      then Err (Crypto ''DTLS handshake fragment header length does not match payload'')
      else and_then (HandshakeHeader_encode (hf_header f)) (\<lambda>h. Ok (h @ hf_fragment f)))"

section \<open>Messages\<close>

record HandshakeMessage =
  hm_type :: HandshakeType
  hm_seq :: u16
  hm_payload :: bytes

fun fragment_chunks :: "HandshakeMessage \<Rightarrow> nat \<Rightarrow> (nat \<times> bytes) list \<Rightarrow> dtls_error + HandshakeFragment list" where
  "fragment_chunks m max_len [] = Ok []"
| "fragment_chunks m max_len ((idx, c) # cs) =
     and_then (ok_or (checked_mul_usize idx max_len) (Crypto ''fragment offset overflow''))
       (\<lambda>offset. and_then (fragment_chunks m max_len cs)
          (\<lambda>fs. Ok (\<lparr>hf_header = \<lparr>hh_type = hm_type m, hh_length = of_nat (length (hm_payload m)),
                       hh_seq = hm_seq m, fragment_offset = of_nat offset,
                       fragment_length = of_nat (length c)\<rparr>,
                     hf_fragment = c\<rparr> # fs)))"

definition HandshakeMessage_fragment :: "HandshakeMessage \<Rightarrow> nat \<Rightarrow> dtls_error + HandshakeFragment list" where
  "HandshakeMessage_fragment m max_len =
     (if max_len = 0 then Err (Crypto ''maximum handshake fragment length must be nonzero'')
      else if length (hm_payload m) > unat MAX_U24
      then Err (Crypto ''DTLS handshake message exceeds 24-bit length'')
      else and_then (fragment_chunks m max_len (enumerate 0 (chunks max_len (hm_payload m))))
        (\<lambda>fs. if fs = [] then
                Ok [\<lparr>hf_header = \<lparr>hh_type = hm_type m, hh_length = 0, hh_seq = hm_seq m,
                       fragment_offset = 0, fragment_length = 0\<rparr>,
                     hf_fragment = []\<rparr>]
              else Ok fs))"

definition HandshakeMessage_encode :: "HandshakeMessage \<Rightarrow> dtls_error + bytes" where
  "HandshakeMessage_encode m =
     and_then (HandshakeMessage_fragment m (max (length (hm_payload m)) 1))
       (\<lambda>fs. and_then (case fs of [] \<Rightarrow> Err (Crypto ''missing handshake fragment'') | f # _ \<Rightarrow> Ok f)
          HandshakeFragment_encode)"

definition transcript_bytes :: "HandshakeMessage \<Rightarrow> dtls_error + bytes" where
  "transcript_bytes m =
     and_then (if length (hm_payload m) < 2 ^ 32 then Ok (of_nat (length (hm_payload m)))
               else Err (Crypto ''DTLS handshake message exceeds 24-bit length''))
       (\<lambda>len. and_then (HandshakeHeader_encode
             \<lparr>hh_type = hm_type m, hh_length = len, hh_seq = hm_seq m, fragment_offset = 0,
              fragment_length = len\<rparr>)
          (\<lambda>h. Ok (h @ hm_payload m)))"

record HandshakeTranscript =
  transcript :: bytes

definition HandshakeTranscript_new :: HandshakeTranscript where
  "HandshakeTranscript_new = \<lparr>transcript = []\<rparr>"

definition HandshakeTranscript_push :: "HandshakeMessage \<Rightarrow> (HandshakeTranscript, dtls_error, unit) action" where
  "HandshakeTranscript_push m t =
     (case transcript_bytes m of
        Inl e \<Rightarrow> (t, Err e)
      | Inr bs \<Rightarrow> (t\<lparr>transcript := transcript t @ bs\<rparr>, Ok ()))"

definition HandshakeTranscript_sha256 :: "crypto \<Rightarrow> HandshakeTranscript \<Rightarrow> bytes" where
  "HandshakeTranscript_sha256 cr t = to_be 32 (sha256 cr (transcript t))"

definition transcript_finished_verify_data ::
  "crypto \<Rightarrow> HandshakeTranscript \<Rightarrow> bytes \<Rightarrow> FinishedRole \<Rightarrow> dtls_error + bytes" where
  "transcript_finished_verify_data cr t ms role =
     finished_verify_data cr ms role (HandshakeTranscript_sha256 cr t)"

definition parse_unfragmented_handshake_record ::
  "DtlsRecord \<Rightarrow> HandshakeType \<Rightarrow> dtls_error + HandshakeMessage" where
  "parse_unfragmented_handshake_record r expected_type =
     (if content_type (rec_header r) \<noteq> Handshake then Err (Crypto ''DTLS record is not a handshake record'')
      else and_then (HandshakeFragment_parse (rec_payload r))
        (\<lambda>f. if HandshakeHeader_LEN + length (hf_fragment f) \<noteq> length (rec_payload r)
             then Err (Crypto ''DTLS record contains trailing handshake bytes'')
             else if hh_type (hf_header f) \<noteq> expected_type
             then Err (Crypto ''unexpected DTLS handshake type'')
             else if fragment_offset (hf_header f) \<noteq> 0 \<or> fragment_length (hf_header f) \<noteq> hh_length (hf_header f)
             then Err (Crypto ''DTLS handshake message is fragmented'')
             else Ok \<lparr>hm_type = hh_type (hf_header f), hm_seq = hh_seq (hf_header f),
                      hm_payload = hf_fragment f\<rparr>))"

definition parse_one_unfragmented :: "bytes \<Rightarrow> dtls_error + HandshakeMessage \<times> bytes" where
  "parse_one_unfragmented bs =
     and_then (HandshakeFragment_parse bs)
       (\<lambda>f. if fragment_offset (hf_header f) \<noteq> 0 \<or> fragment_length (hf_header f) \<noteq> hh_length (hf_header f)
            then Err (Crypto ''DTLS handshake message is fragmented'')
            else and_then (ok_or (checked_add_usize HandshakeHeader_LEN (length (hf_fragment f)))
                (Crypto ''DTLS handshake message length overflow''))
              (\<lambda>consumed. Ok (\<lparr>hm_type = hh_type (hf_header f), hm_seq = hh_seq (hf_header f),
                               hm_payload = hf_fragment f\<rparr>, drop consumed bs)))"

lemma parse_one_unfragmented_shrinks:
  "parse_one_unfragmented bs = Inr (m, rest) \<Longrightarrow> length rest < length bs"
  by (auto simp: parse_one_unfragmented_def HandshakeFragment_parse_def HandshakeHeader_parse_def
      checked_add_usize_def result_simps dtls_consts split: if_splits)

function parse_unfragmented_loop :: "bytes \<Rightarrow> dtls_error + HandshakeMessage list" where
  "parse_unfragmented_loop bs =
     (if bs = [] then Ok []
      else and_then (parse_one_unfragmented bs)
        (\<lambda>(m, rest). and_then (parse_unfragmented_loop rest) (\<lambda>ms. Ok (m # ms))))"
  by pat_completeness auto
termination
  by (relation "measure length") (auto dest: parse_one_unfragmented_shrinks)

declare parse_unfragmented_loop.simps [simp del]

definition parse_unfragmented_handshake_messages :: "DtlsRecord \<Rightarrow> dtls_error + HandshakeMessage list" where
  "parse_unfragmented_handshake_messages r =
     (if content_type (rec_header r) \<noteq> Handshake then Err (Crypto ''DTLS record is not a handshake record'')
      else parse_unfragmented_loop (rec_payload r))"

section \<open>Reassembly\<close>

definition MAX_HANDSHAKE_MESSAGE_LEN :: u32 where [dtls_consts]: "MAX_HANDSHAKE_MESSAGE_LEN = 64 * 1024"

record HandshakeReassembler =
  re_type :: "HandshakeType option"
  re_seq :: "u16 option"
  re_bytes :: bytes
  re_filled :: "bool list"

definition HandshakeReassembler_default :: HandshakeReassembler where
  "HandshakeReassembler_default = \<lparr>re_type = None, re_seq = None, re_bytes = [], re_filled = []\<rparr>"

definition initialize_or_validate :: "HandshakeHeader \<Rightarrow> (HandshakeReassembler, dtls_error, unit) action" where
  "initialize_or_validate h s =
     (case (re_type s, re_seq s) of
        (None, None) \<Rightarrow>
          if hh_length h > MAX_HANDSHAKE_MESSAGE_LEN then
            (s, Err (Crypto (''DTLS handshake message length '' @ show_nat (unat (hh_length h))
               @ '' exceeds the '' @ show_nat (unat MAX_HANDSHAKE_MESSAGE_LEN) @ ''-byte limit'')))
          else (s\<lparr>re_type := Some (hh_type h), re_seq := Some (hh_seq h),
                  re_bytes := replicate (unat (hh_length h)) 0,
                  re_filled := replicate (unat (hh_length h)) False\<rparr>, Ok ())
      | (Some t, Some sq) \<Rightarrow>
          if t = hh_type h \<and> sq = hh_seq h \<and> length (re_bytes s) = unat (hh_length h) then (s, Ok ())
          else (s, Err (Crypto ''DTLS handshake fragment metadata mismatch''))
      | _ \<Rightarrow> (s, Err (Crypto ''DTLS handshake fragment metadata mismatch'')))"

fun fill_bytes :: "nat \<Rightarrow> bytes \<Rightarrow> (HandshakeReassembler, dtls_error, unit) action" where
  "fill_bytes position [] s = (s, Ok ())"
| "fill_bytes position (b # bs) s =
     (if re_filled s ! position \<and> re_bytes s ! position \<noteq> b
      then (s, Err (Crypto ''DTLS handshake fragment overlaps with different data''))
      else fill_bytes (Suc position) bs
        (s\<lparr>re_bytes := (re_bytes s)[position := b], re_filled := (re_filled s)[position := True]\<rparr>))"

definition reassembled :: "(HandshakeReassembler, dtls_error, HandshakeMessage option) action" where
  "reassembled s =
     (if \<forall>b\<in>set (re_filled s). b then
        (s, and_then (ok_or (re_type s) (Crypto ''missing handshake type''))
          (\<lambda>t. and_then (ok_or (re_seq s) (Crypto ''missing handshake sequence''))
             (\<lambda>sq. Ok (Some \<lparr>hm_type = t, hm_seq = sq, hm_payload = re_bytes s\<rparr>))))
      else (s, Ok None))"

definition HandshakeReassembler_push ::
  "HandshakeFragment \<Rightarrow> (HandshakeReassembler, dtls_error, HandshakeMessage option) action" where
  "HandshakeReassembler_push f =
     st_then (initialize_or_validate (hf_header f))
       (\<lambda>_ s.
          let start = unat (fragment_offset (hf_header f));
              end = start + length (hf_fragment f)
          in if end > length (re_bytes s)
             then (s, Err (Crypto ''DTLS handshake fragment exceeds message length''))
             else st_then (fill_bytes start (hf_fragment f)) (\<lambda>_. reassembled) s)"

section \<open>Flights\<close>

definition take_record_sequence :: "u64 \<Rightarrow> u64 \<times> u64" where
  "take_record_sequence next_sequence = (next_sequence + 1, next_sequence)"

fun renumber_epoch_zero_flight :: "DtlsRecord list \<Rightarrow> u64 \<Rightarrow> DtlsRecord list \<times> u64" where
  "renumber_epoch_zero_flight [] n = ([], n)"
| "renumber_epoch_zero_flight (r # rs) n =
     (if epoch (rec_header r) = 0 then
        (case take_record_sequence n of
           (n', sn) \<Rightarrow>
             (case renumber_epoch_zero_flight rs n' of
                (rs', n'') \<Rightarrow> (r\<lparr>rec_header := (rec_header r)\<lparr>sequence_number := sn\<rparr>\<rparr> # rs', n'')))
      else (case renumber_epoch_zero_flight rs n of (rs', n'') \<Rightarrow> (r # rs', n'')))"

definition is_client_finished_flight :: "DtlsRecord list \<Rightarrow> bool" where
  "is_client_finished_flight rs =
     list_ex (\<lambda>r.
       if epoch (rec_header r) = 0 \<and> content_type (rec_header r) = Handshake then
         (case parse_unfragmented_handshake_messages r of
            Inl _ \<Rightarrow> False
          | Inr ms \<Rightarrow> list_ex (\<lambda>m. hm_type m = ClientKeyExchange) ms)
       else epoch (rec_header r) = 1 \<and> content_type (rec_header r) = Handshake) rs"

section \<open>24-bit fields\<close>

lemma read_u24_from_be: "read_u24 [a, b, c] = from_be [a, b, c]"
  by (simp add: read_u24_def from_be_def push_bit_or or.assoc)

lemma bit_MAX_U24: "take_bit 24 v = v \<longleftrightarrow> v \<le> MAX_U24"
proof -
  have "take_bit 24 v = v \<longleftrightarrow> take_bit 24 (unat v) = unat v"
    by (metis unsigned_take_bit_eq unsigned_word_eqI)
  also have "\<dots> \<longleftrightarrow> unat v < 2 ^ 24"
    by (simp add: take_bit_nat_eq_self_iff)
  finally show ?thesis
    by (auto simp: dtls_consts word_le_nat_alt)
qed

lemma write_u24_eq: "v \<le> MAX_U24 \<Longrightarrow> write_u24 v = Ok (to_be 3 v)"
  by (simp add: write_u24_def to_be_unfold not_less)

lemma read_u24_to_be: "v \<le> MAX_U24 \<Longrightarrow> read_u24 (to_be 3 v) = v"
proof -
  have "read_u24 (to_be 3 v) = from_be (to_be 3 v)"
    by (simp only: to_be_unfold read_u24_from_be)
  then show "v \<le> MAX_U24 \<Longrightarrow> ?thesis"
    by (simp add: from_be_to_be bit_MAX_U24)
qed

lemma read_u24_bound: "read_u24 [a, b, c] \<le> MAX_U24"
  using take_bit_from_be [of "[a, b, c]" 24, where 'a = 32]
  by (simp add: read_u24_from_be flip: bit_MAX_U24)

lemma to_be_read_u24: "to_be 3 (read_u24 [a, b, c]) = [a, b, c]"
  by (simp add: read_u24_from_be)

section \<open>Headers\<close>

lemma HandshakeType_try_from_u8 [simp]: "HandshakeType_try_from (HandshakeType_as_u8 t) = Ok t"
  by (cases t) (simp_all add: HandshakeType_try_from_def)

lemma HandshakeType_as_u8_try_from: "HandshakeType_try_from v = Inr t \<Longrightarrow> HandshakeType_as_u8 t = v"
  by (auto simp: HandshakeType_try_from_def split: if_splits)

definition header_bytes :: "HandshakeHeader \<Rightarrow> bytes" where
  "header_bytes h = [HandshakeType_as_u8 (hh_type h)] @ to_be 3 (hh_length h) @ to_be 2 (hh_seq h)
     @ to_be 3 (fragment_offset h) @ to_be 3 (fragment_length h)"

lemma length_header_bytes [simp]: "length (header_bytes h) = 12"
  by (simp add: header_bytes_def)

lemma HandshakeHeader_validate_Ok:
  "HandshakeHeader_validate h = Inr u \<longleftrightarrow> hh_length h \<le> MAX_U24 \<and> fragment_offset h \<le> MAX_U24 \<and>
     fragment_length h \<le> MAX_U24 \<and> fragment_offset h + fragment_length h \<le> hh_length h"
  by (auto simp: HandshakeHeader_validate_def not_less)

lemma HandshakeHeader_encode_Ok:
  "HandshakeHeader_encode h = Inr bs \<longleftrightarrow> HandshakeHeader_validate h = Inr () \<and> bs = header_bytes h"
  by (auto simp: HandshakeHeader_encode_def HandshakeHeader_validate_Ok result_simps write_u24_eq
      header_bytes_def)

lemma take_3: "n + 3 \<le> length bs \<Longrightarrow> take 3 (drop n bs) = [bs ! n, bs ! (n + 1), bs ! (n + 2)]"
proof -
  assume "n + 3 \<le> length bs"
  moreover from this have "take (Suc 0) (drop n bs) = [bs ! n]"
    by (cases "drop n bs") (simp_all add: nth_via_drop)
  ultimately show ?thesis
    by (simp add: eval_nat_numeral take_Suc_conv_app_nth)
qed

lemma HandshakeHeader_parse_encode:
  assumes "HandshakeHeader_encode h = Inr bs"
  shows "HandshakeHeader_parse (bs @ rest) = Ok h"
proof -
  have v: "HandshakeHeader_validate h = Inr ()" and bs: "bs = header_bytes h"
    using assms by (auto simp: HandshakeHeader_encode_Ok)
  let ?bs = "header_bytes h @ rest"
  have "take 3 (drop 1 ?bs) = to_be 3 (hh_length h)" "take 3 (drop 6 ?bs) = to_be 3 (fragment_offset h)"
    "take 3 (drop 9 ?bs) = to_be 3 (fragment_length h)" "?bs ! 0 = HandshakeType_as_u8 (hh_type h)"
    "from_be [?bs ! 4, ?bs ! 5] = hh_seq h"
    by (simp_all add: header_bytes_def to_be_unfold)
  moreover have "\<lparr>hh_type = hh_type h, hh_length = hh_length h, hh_seq = hh_seq h,
      fragment_offset = fragment_offset h, fragment_length = fragment_length h\<rparr> = h"
    by simp
  moreover have "hh_length h \<le> MAX_U24" "fragment_offset h \<le> MAX_U24" "fragment_length h \<le> MAX_U24"
    using v by (auto simp: HandshakeHeader_validate_Ok)
  ultimately show ?thesis
    using v unfolding bs HandshakeHeader_parse_def
    by (simp only: HandshakeType_try_from_u8 and_then_simps read_u24_to_be Let_def)
      (simp add: HandshakeHeader_LEN_def)
qed

lemma take_12:
  assumes "12 \<le> length bs"
  shows "take 12 bs = [bs ! 0] @ take 3 (drop 1 bs) @ [bs ! 4, bs ! 5] @ take 3 (drop 6 bs) @ take 3 (drop 9 bs)"
proof -
  have "take 12 bs = take 1 bs @ take 3 (drop 1 bs) @ take 2 (drop 4 bs) @ take 3 (drop 6 bs) @ take 3 (drop 9 bs)"
    by (simp add: take_add [symmetric] flip: append_assoc)
  moreover have "take 1 bs = [bs ! 0]" "take 2 (drop 4 bs) = [bs ! 4, bs ! 5]"
    using assms by (cases bs; simp add: eval_nat_numeral take_Suc_conv_app_nth)+
  ultimately show ?thesis
    by simp
qed

lemma HandshakeHeader_encode_parse:
  assumes "HandshakeHeader_parse bs = Inr h"
  shows "HandshakeHeader_encode h = Ok (take 12 bs)" "12 \<le> length bs"
proof -
  show l: "12 \<le> length bs"
    using assms by (auto simp: HandshakeHeader_parse_def HandshakeHeader_LEN_def split: if_splits)
  have "header_bytes h = take 12 bs" "HandshakeHeader_validate h = Inr ()"
    using assms l
    by (auto simp: HandshakeHeader_parse_def HandshakeHeader_LEN_def result_simps Let_def header_bytes_def
        take_12 take_3 to_be_read_u24 HandshakeType_as_u8_try_from)
  then show "HandshakeHeader_encode h = Ok (take 12 bs)"
    by (simp add: HandshakeHeader_encode_Ok)
qed

section \<open>Unfragmented messages\<close>

definition whole_header :: "HandshakeMessage \<Rightarrow> HandshakeHeader" where
  "whole_header m = \<lparr>hh_type = hm_type m, hh_length = of_nat (length (hm_payload m)), hh_seq = hm_seq m,
     fragment_offset = 0, fragment_length = of_nat (length (hm_payload m))\<rparr>"

lemma unat_MAX_U24 [simp]: "unat MAX_U24 = 16777215"
  by (simp add: dtls_consts)

lemma unat_of_nat_u32 [simp]: "n \<le> 16777215 \<Longrightarrow> unat (of_nat n :: u32) = n"
  by (simp add: unat_of_nat take_bit_eq_mod)

lemma validate_whole: "length (hm_payload m) \<le> 16777215 \<Longrightarrow> HandshakeHeader_validate (whole_header m) = Inr ()"
  by (simp add: HandshakeHeader_validate_Ok whole_header_def word_le_nat_alt)

lemma HandshakeMessage_encode_eq:
  "HandshakeMessage_encode m =
     (if length (hm_payload m) \<le> 16777215 then Ok (header_bytes (whole_header m) @ hm_payload m)
      else Err (Crypto ''DTLS handshake message exceeds 24-bit length''))"
proof (cases "length (hm_payload m) \<le> 16777215")
  case True
  have enc: "HandshakeHeader_encode (whole_header m) = Ok (header_bytes (whole_header m))"
    using validate_whole [OF True] by (simp add: HandshakeHeader_encode_Ok)
  show ?thesis
  proof (cases "hm_payload m = []")
    case True
    then show ?thesis
      using enc
      by (simp add: HandshakeMessage_encode_def HandshakeMessage_fragment_def HandshakeFragment_encode_def
          whole_header_def)
  next
    case False
    then have "chunks (max (length (hm_payload m)) 1) (hm_payload m) = [hm_payload m]"
      by (simp add: chunks_Cons)
    then show ?thesis
      using enc True
      by (simp add: HandshakeMessage_encode_def HandshakeMessage_fragment_def HandshakeFragment_encode_def
          whole_header_def checked_mul_usize_def)
  qed
qed (auto simp: HandshakeMessage_encode_def HandshakeMessage_fragment_def)

lemma transcript_bytes_eq:
  "length (hm_payload m) \<le> 16777215 \<Longrightarrow> transcript_bytes m = Ok (header_bytes (whole_header m) @ hm_payload m)"
  using validate_whole [of m]
  by (simp add: transcript_bytes_def flip: whole_header_def)
    (metis HandshakeHeader_encode_Ok and_then_simps(1))

definition encode_messages :: "HandshakeMessage list \<Rightarrow> dtls_error + bytes" where
  "encode_messages ms = and_then (map_result HandshakeMessage_encode ms) (\<lambda>bs. Ok (concat bs))"

lemma parse_one_unfragmented_encode:
  assumes "HandshakeMessage_encode m = Inr bs"
  shows "parse_one_unfragmented (bs @ rest) = Ok (m, rest)"
proof -
  have l: "length (hm_payload m) \<le> 16777215" and bs: "bs = header_bytes (whole_header m) @ hm_payload m"
    using assms by (auto simp: HandshakeMessage_encode_eq split: if_splits)
  then have "HandshakeHeader_parse (bs @ rest) = Ok (whole_header m)"
    using validate_whole HandshakeHeader_parse_encode [of "whole_header m" _ "hm_payload m @ rest"]
    by (simp add: HandshakeHeader_encode_Ok)
  then show ?thesis
    using l
    by (simp add: parse_one_unfragmented_def HandshakeFragment_parse_def HandshakeHeader_LEN_def bs
        whole_header_def checked_add_usize_def)
qed

lemma parse_one_unfragmented_Ok:
  assumes "parse_one_unfragmented bs = Inr (m, rest)"
  shows "\<exists>b. HandshakeMessage_encode m = Inr b \<and> bs = b @ rest"
proof -
  obtain h where h: "HandshakeHeader_parse bs = Inr h" "12 + unat (fragment_length h) \<le> length bs"
    "fragment_offset h = 0" "fragment_length h = hh_length h"
    "m = \<lparr>hm_type = hh_type h, hm_seq = hh_seq h, hm_payload = drop 12 (take (12 + unat (fragment_length h)) bs)\<rparr>"
    "rest = drop (12 + unat (fragment_length h)) bs"
    using assms
    by (auto simp: parse_one_unfragmented_def HandshakeFragment_parse_def checked_add_usize_def
        result_simps HandshakeHeader_LEN_def min_def split: if_splits)
  have "HandshakeHeader_encode h = Ok (take 12 bs)"
    by (rule HandshakeHeader_encode_parse [OF h(1)])
  then have v: "HandshakeHeader_validate h = Inr ()" "take 12 bs = header_bytes h"
    by (auto simp: HandshakeHeader_encode_Ok)
  then have l: "unat (fragment_length h) \<le> 16777215"
    by (auto simp: HandshakeHeader_validate_Ok word_le_nat_alt)
  have "length (hm_payload m) = unat (fragment_length h)"
    using h by simp
  then have "whole_header m = h"
    using h by (simp add: whole_header_def)
  then have "HandshakeMessage_encode m = Inr (take (12 + unat (fragment_length h)) bs)"
    using l v h(5) \<open>length (hm_payload m) = _\<close>
    by (simp add: HandshakeMessage_encode_eq flip: v(2)) (metis append_take_drop_id le_add1 min.absorb1 take_take)
  then show ?thesis
    using h(6) by auto
qed

lemma parse_unfragmented_loop_step:
  "bs \<noteq> [] \<Longrightarrow> parse_unfragmented_loop bs = Inr zs \<longleftrightarrow>
     (\<exists>y ys rest. parse_one_unfragmented bs = Inr (y, rest) \<and> parse_unfragmented_loop rest = Inr ys \<and> zs = y # ys)"
  by (subst parse_unfragmented_loop.simps) (auto simp: result_simps)

interpretation handshake: canonical_codec "\<lambda>_. True" HandshakeMessage_encode parse_one_unfragmented
    encode_messages parse_unfragmented_loop
proof
  show "HandshakeMessage_encode x \<noteq> Inr []" for x
    by (simp add: HandshakeMessage_encode_eq header_bytes_def)
  show "encode_messages [] = Inr []"
    by (simp add: encode_messages_def)
  show "encode_messages (x # xs) = Inr bs \<longleftrightarrow>
      (\<exists>b c. HandshakeMessage_encode x = Inr b \<and> encode_messages xs = Inr c \<and> bs = b @ c)" for x xs bs
    by (auto simp: encode_messages_def result_simps)
  show "parse_unfragmented_loop [] = Inr []"
    by (simp add: parse_unfragmented_loop.simps)
qed (simp_all add: parse_one_unfragmented_encode parse_one_unfragmented_Ok parse_unfragmented_loop_step)

text \<open>C32: The handshake messages of a handshake record are recovered exactly: the payload parses to the
  messages whose unfragmented encodings it concatenates, and to nothing else. Each message also enters
  the Finished transcript with the very bytes it has on the wire.\<close>

theorem handshake_messages_codec:
  assumes "content_type (rec_header r) = Handshake"
  shows "(parse_unfragmented_handshake_messages r = Ok ms \<longleftrightarrow> encode_messages ms = Ok (rec_payload r)) \<and>
    (\<forall>m bs. HandshakeMessage_encode m = Ok bs \<longrightarrow> transcript_bytes m = Ok bs)"
proof -
  have "HandshakeMessage_encode m = Ok bs \<Longrightarrow> transcript_bytes m = Ok bs" for m bs
    by (auto simp: HandshakeMessage_encode_eq transcript_bytes_eq split: if_splits)
  then show ?thesis
    using assms handshake.codec_bij [of "rec_payload r" ms]
    by (simp add: parse_unfragmented_handshake_messages_def)
qed

theorem handshake_messages_codec_witness:
  "parse_unfragmented_handshake_messages
     \<lparr>rec_header = \<lparr>content_type = Handshake, rec_version = 0xfefd, epoch = 0, sequence_number = 0, rec_length = 12\<rparr>,
      rec_payload = [14, 0, 0, 0, 0, 3, 0, 0, 0, 0, 0, 0]\<rparr>
   = Ok [\<lparr>hm_type = ServerHelloDone, hm_seq = 3, hm_payload = []\<rparr>]"
proof -
  let ?r = "\<lparr>rec_header = \<lparr>content_type = Handshake, rec_version = 0xfefd, epoch = 0, sequence_number = 0, rec_length = 12\<rparr>,
      rec_payload = [14, 0, 0, 0, 0, 3, 0, 0, 0, 0, 0, 0]\<rparr>"
  have "encode_messages [\<lparr>hm_type = ServerHelloDone, hm_seq = 3, hm_payload = []\<rparr>] = Ok (rec_payload ?r)"
    by (simp add: encode_messages_def HandshakeMessage_encode_eq header_bytes_def whole_header_def to_be_unfold)
  moreover have "content_type (rec_header ?r) = Handshake"
    by simp
  ultimately show ?thesis
    using handshake_messages_codec by blast
qed

section \<open>Reassembly\<close>

definition covers :: "HandshakeFragment \<Rightarrow> nat \<Rightarrow> bool" where
  "covers f i \<longleftrightarrow> unat (fragment_offset (hf_header f)) \<le> i \<and>
     i < unat (fragment_offset (hf_header f)) + length (hf_fragment f)"

text \<open>What the reassembler's state says about the fragments accepted so far.\<close>

definition agrees :: "HandshakeReassembler \<Rightarrow> HandshakeFragment \<Rightarrow> bool" where
  "agrees s f \<longleftrightarrow>
     re_type s = Some (hh_type (hf_header f)) \<and> re_seq s = Some (hh_seq (hf_header f)) \<and>
     unat (hh_length (hf_header f)) = length (re_bytes s) \<and>
     unat (fragment_offset (hf_header f)) + length (hf_fragment f) \<le> length (re_bytes s) \<and>
     (\<forall>j<length (hf_fragment f). re_bytes s ! (unat (fragment_offset (hf_header f)) + j) = hf_fragment f ! j)"

definition reasm_inv :: "HandshakeReassembler \<Rightarrow> HandshakeFragment list \<Rightarrow> bool" where
  "reasm_inv s fs \<longleftrightarrow>
     (if fs = [] then s = HandshakeReassembler_default
      else length (re_filled s) = length (re_bytes s) \<and>
        (\<forall>f\<in>set fs. agrees s f) \<and>
        (\<forall>i<length (re_bytes s). re_filled s ! i \<longleftrightarrow> (\<exists>f\<in>set fs. covers f i)))"

lemma fill_bytes_Ok:
  assumes "fill_bytes p bs s = (s', Inr u)" "p + length bs \<le> length (re_bytes s)"
    "length (re_filled s) = length (re_bytes s)"
  shows "re_type s' = re_type s \<and> re_seq s' = re_seq s \<and> length (re_bytes s') = length (re_bytes s) \<and>
    length (re_filled s') = length (re_filled s) \<and>
    (\<forall>i<length (re_bytes s). re_filled s' ! i \<longleftrightarrow> re_filled s ! i \<or> p \<le> i \<and> i < p + length bs) \<and>
    (\<forall>i<length (re_bytes s). re_bytes s' ! i = (if p \<le> i \<and> i < p + length bs then bs ! (i - p) else re_bytes s ! i)) \<and>
    (\<forall>j<length bs. re_filled s ! (p + j) \<longrightarrow> re_bytes s ! (p + j) = bs ! j)"
  using assms
proof (induction p bs s rule: fill_bytes.induct)
  case (1 p s)
  then show ?case by auto
next
  case (2 p b bs s)
  let ?s = "s\<lparr>re_bytes := (re_bytes s)[p := b], re_filled := (re_filled s)[p := True]\<rparr>"
  have ok: "\<not> (re_filled s ! p \<and> re_bytes s ! p \<noteq> b)" "fill_bytes (Suc p) bs ?s = (s', Inr u)"
    using 2 by (auto split: if_splits)
  note ih = "2.IH" [OF ok(1) ok(2)]
  have ih': "re_type s' = re_type s" "re_seq s' = re_seq s" "length (re_bytes s') = length (re_bytes s)"
    "length (re_filled s') = length (re_filled s)"
    "\<And>i. i < length (re_bytes s) \<Longrightarrow> re_filled s' ! i \<longleftrightarrow> (re_filled s)[p := True] ! i \<or> Suc p \<le> i \<and> i < Suc p + length bs"
    "\<And>i. i < length (re_bytes s) \<Longrightarrow> re_bytes s' ! i = (if Suc p \<le> i \<and> i < Suc p + length bs then bs ! (i - Suc p) else (re_bytes s)[p := b] ! i)"
    "\<And>j. j < length bs \<Longrightarrow> (re_filled s)[p := True] ! (Suc p + j) \<Longrightarrow> (re_bytes s)[p := b] ! (Suc p + j) = bs ! j"
    using ih 2 by auto
  have "re_filled s' ! i \<longleftrightarrow> re_filled s ! i \<or> p \<le> i \<and> i < p + length (b # bs)" if "i < length (re_bytes s)" for i
    using ih'(5) [OF that] that 2(3,4) by (cases "i = p") auto
  moreover have "re_bytes s' ! i = (if p \<le> i \<and> i < p + length (b # bs) then (b # bs) ! (i - p) else re_bytes s ! i)"
    if "i < length (re_bytes s)" for i
    using ih'(6) [OF that] that 2(3,4) by (cases "i = p") (auto simp: nth_Cons' Suc_le_eq)
  moreover have "re_bytes s ! (p + j) = (b # bs) ! j" if "j < length (b # bs)" "re_filled s ! (p + j)" for j
    using ih'(7) [of "j - 1"] that ok(1) 2(3,4) by (cases j) auto
  ultimately show ?case
    using ih' by auto
qed

lemma fill_bytes_progress:
  "p + length bs \<le> length (re_bytes s) \<Longrightarrow> length (re_filled s) = length (re_bytes s) \<Longrightarrow>
   (\<forall>j<length bs. re_filled s ! (p + j) \<longrightarrow> re_bytes s ! (p + j) = bs ! j) \<Longrightarrow>
   \<exists>s'. fill_bytes p bs s = (s', Inr ())"
proof (induction p bs s rule: fill_bytes.induct)
  case (2 p b bs s)
  have "\<not> (re_filled s ! p \<and> re_bytes s ! p \<noteq> b)"
    using 2(4) by (auto dest: spec [of _ 0])
  moreover have "\<forall>j<length bs. (re_filled s)[p := True] ! (Suc p + j) \<longrightarrow> (re_bytes s)[p := b] ! (Suc p + j) = bs ! j"
    using spec [OF 2(4), of "Suc j" for j] by auto
  ultimately show ?case
    using 2(1) 2(2,3) by simp
qed simp

lemma initialize_or_validate_Ok:
  assumes "initialize_or_validate h s = (s', Inr u)" "reasm_inv s fs"
  shows "re_type s' = Some (hh_type h) \<and> re_seq s' = Some (hh_seq h) \<and> length (re_bytes s') = unat (hh_length h) \<and>
    length (re_filled s') = length (re_bytes s') \<and> (\<forall>f\<in>set fs. agrees s' f) \<and>
    (\<forall>i<length (re_bytes s'). re_filled s' ! i \<longleftrightarrow> (\<exists>f\<in>set fs. covers f i))"
proof (cases "fs = []")
  case True
  then show ?thesis
    using assms by (auto simp: initialize_or_validate_def reasm_inv_def HandshakeReassembler_default_def
        split: if_splits)
next
  case False
  then obtain t sq where "re_type s = Some t" "re_seq s = Some sq"
    using assms(2) by (auto simp: reasm_inv_def agrees_def neq_Nil_conv)
  then show ?thesis
    using assms False by (auto simp: initialize_or_validate_def reasm_inv_def split: if_splits)
qed

lemma reassembled_eq:
  "re_type s = Some t \<Longrightarrow> re_seq s = Some sq \<Longrightarrow>
     reassembled s = (s, Ok (if \<forall>b\<in>set (re_filled s). b
       then Some \<lparr>hm_type = t, hm_seq = sq, hm_payload = re_bytes s\<rparr> else None))"
  by (simp add: reassembled_def)

lemma push_Ok:
  assumes "HandshakeReassembler_push f s = (s', Inr r)" "reasm_inv s fs"
  shows "reasm_inv s' (fs @ [f])"
    and "r = (if \<forall>i<length (re_bytes s'). \<exists>f\<in>set (fs @ [f]). covers f i
      then Some \<lparr>hm_type = hh_type (hf_header f), hm_seq = hh_seq (hf_header f), hm_payload = re_bytes s'\<rparr> else None)"
proof -
  let ?p = "unat (fragment_offset (hf_header f))"
  obtain s1 where s1: "initialize_or_validate (hf_header f) s = (s1, Inr ())"
    using assms(1)
    by (cases "initialize_or_validate (hf_header f) s"; cases "snd (initialize_or_validate (hf_header f) s)")
      (auto simp: HandshakeReassembler_push_def st_then_def)
  note init = initialize_or_validate_Ok [OF s1 assms(2)]
  have fits: "?p + length (hf_fragment f) \<le> length (re_bytes s1)"
    and rest: "st_then (fill_bytes ?p (hf_fragment f)) (\<lambda>_. reassembled) s1 = (s', Inr r)"
    using assms(1) s1 by (auto simp: HandshakeReassembler_push_def st_then_def Let_def split: if_splits)
  obtain s2 where s2: "fill_bytes ?p (hf_fragment f) s1 = (s2, Inr ())"
    using rest
    by (cases "fill_bytes ?p (hf_fragment f) s1"; cases "snd (fill_bytes ?p (hf_fragment f) s1)")
      (auto simp: st_then_def)
  note fill = fill_bytes_Ok [OF s2 fits conjunct1 [OF conjunct2 [OF conjunct2 [OF conjunct2 [OF init]]]]]
  have ty: "re_type s2 = Some (hh_type (hf_header f))" "re_seq s2 = Some (hh_seq (hf_header f))"
    using init fill by auto
  have "reassembled s2 = (s', Inr r)"
    using rest s2 by (simp add: st_then_def)
  then have s': "s' = s2" and r: "r = (if \<forall>b\<in>set (re_filled s2). b
      then Some \<lparr>hm_type = hh_type (hf_header f), hm_seq = hh_seq (hf_header f), hm_payload = re_bytes s2\<rparr> else None)"
    using reassembled_eq [OF ty] by auto
  have filled: "re_filled s2 ! i \<longleftrightarrow> (\<exists>g\<in>set (fs @ [f]). covers g i)" if "i < length (re_bytes s2)" for i
    using that init fill by (auto simp: covers_def)
  have old: "agrees s2 g" if "g \<in> set fs" for g
  proof -
    let ?q = "unat (fragment_offset (hf_header g))"
    have g: "agrees s1 g"
      using init that by blast
    have "re_bytes s2 ! (?q + j) = hf_fragment g ! j" if j: "j < length (hf_fragment g)" for j
    proof -
      have in1: "?q + j < length (re_bytes s1)" and b1: "re_bytes s1 ! (?q + j) = hf_fragment g ! j"
        using g j by (auto simp: agrees_def)
      have "covers g (?q + j)"
        using j by (simp add: covers_def)
      then have "re_filled s1 ! (?q + j)"
        using init in1 \<open>g \<in> set fs\<close> by blast
      then have "?p \<le> ?q + j \<Longrightarrow> ?q + j < ?p + length (hf_fragment f) \<Longrightarrow>
          hf_fragment f ! (?q + j - ?p) = hf_fragment g ! j"
        using fill b1 by (auto dest!: spec [of _ "?q + j - ?p"])
      then show ?thesis
        using fill in1 b1 by auto
    qed
    then show ?thesis
      using g fill by (auto simp: agrees_def)
  qed
  have new: "agrees s2 f"
    using init fill fits by (auto simp: agrees_def)
  show "reasm_inv s' (fs @ [f])"
    using filled old new fill init unfolding s' reasm_inv_def by auto
  have "(\<forall>b\<in>set (re_filled s2). b) \<longleftrightarrow> (\<forall>i<length (re_bytes s2). \<exists>g\<in>set (fs @ [f]). covers g i)"
    using filled fill init by (auto simp: all_set_conv_all_nth)
  then show "r = (if \<forall>i<length (re_bytes s'). \<exists>f\<in>set (fs @ [f]). covers f i
      then Some \<lparr>hm_type = hh_type (hf_header f), hm_seq = hh_seq (hf_header f), hm_payload = re_bytes s'\<rparr> else None)"
    using r s' by simp
qed

text \<open>Feeding a sequence of fragments, stopping at the first error; the result is that of the last push.\<close>

fun push_all :: "HandshakeFragment list \<Rightarrow> (HandshakeReassembler, dtls_error, HandshakeMessage option) action" where
  "push_all [] = st_ok None"
| "push_all [f] = HandshakeReassembler_push f"
| "push_all (f # g # fs) = st_then (HandshakeReassembler_push f) (\<lambda>_. push_all (g # fs))"

lemma push_all_Ok:
  assumes "push_all fs s = (s', Inr r)" "reasm_inv s gs" "fs \<noteq> []"
  shows "reasm_inv s' (gs @ fs) \<and>
    r = (if \<forall>i<length (re_bytes s'). \<exists>f\<in>set (gs @ fs). covers f i
      then Some \<lparr>hm_type = hh_type (hf_header (last fs)), hm_seq = hh_seq (hf_header (last fs)), hm_payload = re_bytes s'\<rparr> else None)"
  using assms
proof (induction fs arbitrary: s gs rule: push_all.induct)
  case (2 f)
  then show ?case
    using push_Ok [of f s s' r gs] by simp
next
  case (3 f g fs)
  then obtain s1 r1 where s1: "HandshakeReassembler_push f s = (s1, Inr r1)" "push_all (g # fs) s1 = (s', Inr r)"
    by (auto simp: st_then_def split: prod.splits sum.splits)
  show ?case
    using 3(1) [OF s1(2) push_Ok(1) [OF s1(1) 3(3)]] by simp
qed simp

text \<open>A fragment is a piece of a message when its header describes the message and its bytes are the
  message's bytes at its offset.\<close>

definition piece_of :: "HandshakeMessage \<Rightarrow> HandshakeFragment \<Rightarrow> bool" where
  "piece_of m f \<longleftrightarrow>
     hh_type (hf_header f) = hm_type m \<and> hh_seq (hf_header f) = hm_seq m \<and>
     unat (hh_length (hf_header f)) = length (hm_payload m) \<and>
     unat (fragment_offset (hf_header f)) + length (hf_fragment f) \<le> length (hm_payload m) \<and>
     take (length (hf_fragment f)) (drop (unat (fragment_offset (hf_header f))) (hm_payload m)) = hf_fragment f"

lemma slice_eq_iff:
  "p + length xs \<le> length ys \<Longrightarrow> take (length xs) (drop p ys) = xs \<longleftrightarrow> (\<forall>j<length xs. ys ! (p + j) = xs ! j)"
  by (auto simp: list_eq_iff_nth_eq)

lemma piece_of_nth:
  "piece_of m f \<Longrightarrow> k < length (hf_fragment f) \<Longrightarrow>
     hm_payload m ! (unat (fragment_offset (hf_header f)) + k) = hf_fragment f ! k"
  by (auto simp: piece_of_def slice_eq_iff)

lemma agrees_nth:
  "agrees s f \<Longrightarrow> k < length (hf_fragment f) \<Longrightarrow>
     re_bytes s ! (unat (fragment_offset (hf_header f)) + k) = hf_fragment f ! k"
  by (simp add: agrees_def)

lemma agrees_piece_of:
  "agrees s f \<Longrightarrow> re_type s = Some (hm_type m) \<Longrightarrow> re_seq s = Some (hm_seq m) \<Longrightarrow> re_bytes s = hm_payload m \<Longrightarrow>
     piece_of m f"
  by (auto simp: agrees_def piece_of_def slice_eq_iff)


lemma unat_MAX_HANDSHAKE [simp]: "unat MAX_HANDSHAKE_MESSAGE_LEN = 65536"
  by (simp add: dtls_consts)

lemma push_progress:
  assumes "reasm_inv s fs" "\<forall>g\<in>set fs. piece_of m g" "piece_of m f" "length (hm_payload m) \<le> 65536"
    "fs \<noteq> [] \<Longrightarrow> length (re_bytes s) = length (hm_payload m)"
  shows "\<exists>s' r. HandshakeReassembler_push f s = (s', Inr r) \<and> length (re_bytes s') = length (hm_payload m)"
proof -
  let ?p = "unat (fragment_offset (hf_header f))"
  obtain s1 where s1: "initialize_or_validate (hf_header f) s = (s1, Inr ())"
  proof (cases "fs = []")
    case True
    have "\<not> MAX_HANDSHAKE_MESSAGE_LEN < hh_length (hf_header f)"
      using assms(3,4) by (simp add: piece_of_def word_less_nat_alt)
    then show ?thesis
      using True assms(1) that
      by (simp add: initialize_or_validate_def reasm_inv_def HandshakeReassembler_default_def)
  next
    case False
    then obtain g where "g \<in> set fs"
      using list.set_sel(1) by blast
    then have "agrees s g" "piece_of m g"
      using assms(1,2) False by (auto simp: reasm_inv_def)
    then show ?thesis
      using False assms(3,5) that by (simp add: initialize_or_validate_def agrees_def piece_of_def)
  qed
  note init = initialize_or_validate_Ok [OF s1 assms(1)]
  have fits: "?p + length (hf_fragment f) \<le> length (re_bytes s1)"
    using init assms(3) by (auto simp: piece_of_def)
  have "re_bytes s1 ! (?p + j) = hf_fragment f ! j"
    if j: "j < length (hf_fragment f)" "re_filled s1 ! (?p + j)" for j
  proof -
    obtain g where g: "g \<in> set fs" "covers g (?p + j)"
      using init j fits by auto
    let ?q = "unat (fragment_offset (hf_header g))"
    obtain k where k: "?p + j = ?q + k" "k < length (hf_fragment g)"
      using g(2) by (auto simp: covers_def le_iff_add)
    have "agrees s1 g"
      using init g(1) by blast
    then have "re_bytes s1 ! (?q + k) = hf_fragment g ! k"
      using k by (simp add: agrees_def)
    moreover have "piece_of m g"
      using assms(2) g(1) by blast
    then have "hm_payload m ! (?q + k) = hf_fragment g ! k"
      using k(2) by (rule piece_of_nth)
    moreover have "hm_payload m ! (?p + j) = hf_fragment f ! j"
      using assms(3) j by (auto simp: piece_of_def slice_eq_iff)
    ultimately show ?thesis
      using k(1) by simp
  qed
  then obtain s2 where s2: "fill_bytes ?p (hf_fragment f) s1 = (s2, Inr ())"
    using fill_bytes_progress [of ?p "hf_fragment f" s1] fits init by auto
  note fill = fill_bytes_Ok [OF s2 fits conjunct1 [OF conjunct2 [OF conjunct2 [OF conjunct2 [OF init]]]]]
  have "re_type s2 = Some (hh_type (hf_header f))" "re_seq s2 = Some (hh_seq (hf_header f))"
    using init fill by auto
  then obtain r where r: "reassembled s2 = (s2, Inr r)"
    using reassembled_eq by blast
  have "HandshakeReassembler_push f s = (s2, Inr r)"
    using s1 s2 r fits by (simp add: HandshakeReassembler_push_def st_then_def Let_def)
  then show ?thesis
    using init fill assms(3) by (auto simp: piece_of_def)
qed

lemma push_all_progress:
  assumes "reasm_inv s gs" "\<forall>g\<in>set (gs @ fs). piece_of m g" "length (hm_payload m) \<le> 65536" "fs \<noteq> []"
    "gs \<noteq> [] \<Longrightarrow> length (re_bytes s) = length (hm_payload m)"
  shows "\<exists>s' r. push_all fs s = (s', Inr r) \<and> length (re_bytes s') = length (hm_payload m)"
  using assms
proof (induction fs arbitrary: s gs rule: push_all.induct)
  case (2 f)
  then show ?case
    using push_progress [of s gs m f] by auto
next
  case (3 f g fs)
  then obtain s1 r1 where s1: "HandshakeReassembler_push f s = (s1, Inr r1)" "length (re_bytes s1) = length (hm_payload m)"
    using push_progress [of s gs m f] by auto
  then show ?case
    using 3(1) [of s1 "gs @ [f]"] push_Ok(1) [OF s1(1) 3(2)] 3(3-5) by (auto simp: st_then_def)
qed simp

lemma fragment_chunks_pieces:
  assumes "0 < n" "length (hm_payload m) \<le> 16777215" "p = drop (k * n) (hm_payload m)"
  shows "\<exists>fs. fragment_chunks m n (enumerate k (chunks n p)) = Ok fs \<and> (\<forall>f\<in>set fs. piece_of m f) \<and>
    (\<forall>i. k * n \<le> i \<and> i < length (hm_payload m) \<longrightarrow> (\<exists>f\<in>set fs. covers f i)) \<and> (fs = [] \<longleftrightarrow> p = [])"
  using assms
proof (induction n p arbitrary: k rule: chunks.induct)
  case (1 n p)
  show ?case
  proof (cases "p = []")
    case True
    then show ?thesis
      using 1 by auto
  next
    case False
    then have k: "k * n < length (hm_payload m)"
      using 1(4) by auto
    have "drop n p = drop (Suc k * n) (hm_payload m)"
      using 1(4) by simp
    then obtain fs where fs: "fragment_chunks m n (enumerate (Suc k) (chunks n (drop n p))) = Ok fs"
      "\<forall>f\<in>set fs. piece_of m f"
      "\<forall>i. Suc k * n \<le> i \<and> i < length (hm_payload m) \<longrightarrow> (\<exists>f\<in>set fs. covers f i)"
      using 1(1) [of "Suc k"] 1(2,3) False by auto
    let ?f = "\<lparr>hf_header = \<lparr>hh_type = hm_type m, hh_length = of_nat (length (hm_payload m)), hh_seq = hm_seq m,
        fragment_offset = of_nat (k * n), fragment_length = of_nat (length (take n p))\<rparr>, hf_fragment = take n p\<rparr>"
    have kn: "unat (of_nat (k * n) :: u32) = k * n"
      using k 1(3) by (simp del: of_nat_mult)
    have "fragment_chunks m n (enumerate k (chunks n p)) = Ok (?f # fs)"
      using k 1(2,3) False fs(1) by (simp add: chunks_Cons checked_mul_usize_def del: of_nat_mult)
    moreover have "piece_of m ?f"
      using kn k 1(3,4) by (auto simp: piece_of_def min_def simp del: of_nat_mult)
    moreover have c: "covers ?f i" if "k * n \<le> i" "i < Suc k * n" "i < length (hm_payload m)" for i
      using that kn 1(4) by (auto simp: covers_def simp del: of_nat_mult)
    have "\<exists>f\<in>set (?f # fs). covers f i" if "k * n \<le> i" "i < length (hm_payload m)" for i
      using that fs(3) c [of i] by (metis list.set_intros not_less)
    ultimately show ?thesis
      using fs(2) False by (intro exI [of _ "?f # fs"]) (simp del: of_nat_mult)
  qed
qed

lemma HandshakeMessage_fragment_pieces:
  assumes "0 < n" "length (hm_payload m) \<le> 16777215"
  obtains fs where "HandshakeMessage_fragment m n = Ok fs" "fs \<noteq> []" "\<forall>f\<in>set fs. piece_of m f"
    "\<forall>i<length (hm_payload m). \<exists>f\<in>set fs. covers f i"
proof -
  obtain fs where fs: "fragment_chunks m n (enumerate 0 (chunks n (hm_payload m))) = Ok fs"
    "\<forall>f\<in>set fs. piece_of m f" "\<forall>i<length (hm_payload m). \<exists>f\<in>set fs. covers f i" "fs = [] \<longleftrightarrow> hm_payload m = []"
    using fragment_chunks_pieces [OF assms, of "hm_payload m" 0] by auto
  show ?thesis
  proof (cases "hm_payload m = []")
    case True
    then show ?thesis
      using fs assms that by (simp add: HandshakeMessage_fragment_def piece_of_def)
  next
    case False
    then show ?thesis
      using fs assms that [of fs] by (simp add: HandshakeMessage_fragment_def)
  qed
qed

text \<open>C12: Fragmenting a message of at most 65536 bytes always succeeds, and a reassembler that receives its
  fragments in any order and with any repetitions accepts every one of them and has the original message
  as soon as they cover it, in particular once each fragment has arrived.\<close>

theorem fragment_reassemble:
  assumes "0 < n" "length (hm_payload m) \<le> 65536"
  shows "\<exists>F. HandshakeMessage_fragment m n = Ok F \<and>
    (\<forall>fs. fs \<noteq> [] \<and> set fs \<subseteq> set F \<longrightarrow>
       snd (push_all fs HandshakeReassembler_default) =
         Ok (if \<forall>i<length (hm_payload m). \<exists>f\<in>set fs. covers f i then Some m else None)) \<and>
    (\<forall>i<length (hm_payload m). \<exists>f\<in>set F. covers f i)"
proof -
  obtain F where F: "HandshakeMessage_fragment m n = Ok F" "F \<noteq> []" "\<forall>f\<in>set F. piece_of m f"
    "\<forall>i<length (hm_payload m). \<exists>f\<in>set F. covers f i"
    using HandshakeMessage_fragment_pieces [of n m] assms by auto
  have "snd (push_all fs HandshakeReassembler_default) =
      Ok (if \<forall>i<length (hm_payload m). \<exists>f\<in>set fs. covers f i then Some m else None)"
    if fs: "fs \<noteq> []" "set fs \<subseteq> set F" for fs
  proof -
    have inv: "reasm_inv HandshakeReassembler_default []"
      by (simp add: reasm_inv_def)
    have pieces: "\<forall>f\<in>set ([] @ fs). piece_of m f"
      using fs F(3) by auto
    obtain s r where s: "push_all fs HandshakeReassembler_default = (s, Inr r)"
      "length (re_bytes s) = length (hm_payload m)"
      using push_all_progress [OF inv pieces assms(2) fs(1)] by auto
    note run = push_all_Ok [OF s(1) inv fs(1)]
    show ?thesis
    proof (cases "\<forall>i<length (hm_payload m). \<exists>f\<in>set fs. covers f i")
      case True
      let ?m' = "\<lparr>hm_type = hh_type (hf_header (last fs)), hm_seq = hh_seq (hf_header (last fs)),
        hm_payload = re_bytes s\<rparr>"
      have r: "r = Some ?m'"
        using run True s(2) by simp
      have "piece_of m (last fs)"
        using pieces fs(1) by simp
      moreover have "re_bytes s = hm_payload m"
      proof (rule nth_equalityI)
        fix i
        assume "i < length (re_bytes s)"
        then obtain f where f: "f \<in> set fs" "covers f i"
          using True s(2) by auto
        then obtain k where k: "i = unat (fragment_offset (hf_header f)) + k" "k < length (hf_fragment f)"
          by (auto simp: covers_def le_iff_add)
        have "agrees s f" "piece_of m f"
          using run f(1) fs(1) pieces by (auto simp: reasm_inv_def)
        then show "re_bytes s ! i = hm_payload m ! i"
          unfolding k(1) using agrees_nth [OF _ k(2)] piece_of_nth [OF _ k(2)] by simp
      qed (rule s(2))
      ultimately have "?m' = m"
        by (simp add: piece_of_def)
      then show ?thesis
        using True s(1) r by simp
    next
      case False
      then have "r = None"
        using run s(2) by auto
      then show ?thesis
        using False s(1) by simp
    qed
  qed
  then show ?thesis
    using F by blast
qed

theorem fragment_reassemble_witness:
  "\<exists>F. HandshakeMessage_fragment \<lparr>hm_type = ClientHello, hm_seq = 0, hm_payload = [1, 2, 3]\<rparr> 2 = Ok F \<and>
     snd (push_all (rev F) HandshakeReassembler_default) =
       Ok (Some \<lparr>hm_type = ClientHello, hm_seq = 0, hm_payload = [1, 2, 3]\<rparr>)"
proof -
  let ?m = "\<lparr>hm_type = ClientHello, hm_seq = 0, hm_payload = [1, 2, 3]\<rparr>"
  obtain F where F: "HandshakeMessage_fragment ?m 2 = Ok F"
    "\<And>fs. fs \<noteq> [] \<Longrightarrow> set fs \<subseteq> set F \<Longrightarrow> snd (push_all fs HandshakeReassembler_default) =
         Ok (if \<forall>i<length (hm_payload ?m). \<exists>f\<in>set fs. covers f i then Some ?m else None)"
    "\<forall>i<length (hm_payload ?m). \<exists>f\<in>set F. covers f i"
    using fragment_reassemble [of 2 ?m] by auto
  then have "F \<noteq> []"
    by auto
  then show ?thesis
    using F(1,3) F(2) [of "rev F"] by simp
qed

text \<open>The hypothesis of the soundness property holds for a message that arrives in one fragment.\<close>

lemma replicate_2: "replicate 2 x = [x, x]"
  by (simp add: numeral_2_eq_2)


end
