(* ===== verification/Replay.thy ===== *)
theory Replay
  imports Prelude
begin

text \<open>
  The DTLS anti-replay window (\<^verbatim>\<open>replay.rs\<close>): a 64-bit map of the records seen up to the newest
  one. The window refines the set of sequence numbers marked so far, and it is a replay filter:
  a receiver that checks before and marks after accepting a record accepts each number at most
  once.
\<close>

record ReplayWindow =
  newest_sequence :: "u64 option"
  seen :: u64

definition ReplayWindow_new :: ReplayWindow where
  "ReplayWindow_new = \<lparr>newest_sequence = None, seen = 0\<rparr>"

definition has_seen :: "ReplayWindow \<Rightarrow> u64 \<Rightarrow> bool" where
  "has_seen w s =
     (case newest_sequence w of
        None \<Rightarrow> False
      | Some newest \<Rightarrow>
          if s > newest then False
          else let offset = newest - s in
            offset \<ge> 64 \<or> drop_bit (unat offset) (seen w) AND 1 = 1)"

definition mark_seen :: "u64 \<Rightarrow> ReplayWindow \<Rightarrow> ReplayWindow" where
  "mark_seen s w =
     (case newest_sequence w of
        None \<Rightarrow> w\<lparr>newest_sequence := Some s, seen := 1\<rparr>
      | Some newest \<Rightarrow>
          if s > newest then
            let shift = s - newest in
            w\<lparr>seen := (if shift \<ge> 64 then 1 else push_bit (unat shift) (seen w) OR 1),
              newest_sequence := Some s\<rparr>
          else
            let offset = newest - s in
            if offset < 64 then w\<lparr>seen := seen w OR push_bit (unat offset) 1\<rparr> else w)"

section \<open>Refinement of the set of marked numbers\<close>

text \<open>
  Bit \<open>k\<close> of the window records whether the number \<open>k\<close> below the newest was marked.
\<close>

definition window_rel :: "ReplayWindow \<Rightarrow> u64 set \<Rightarrow> bool" where
  "window_rel w S \<longleftrightarrow>
     (case newest_sequence w of
        None \<Rightarrow> S = {}
      | Some n \<Rightarrow> n \<in> S \<and> (\<forall>s\<in>S. s \<le> n) \<and>
          (\<forall>s\<le>n. unat n - unat s < 64 \<longrightarrow> (bit (seen w) (unat n - unat s) \<longleftrightarrow> s \<in> S)))"

lemma and_1_eq_bit: "drop_bit k (w :: u64) AND 1 = 1 \<longleftrightarrow> bit w k"
  unfolding bit_eq_iff by (auto simp: bit_and_iff bit_drop_bit_eq bit_1_iff dest: spec [of _ 0])

lemma window_rel_new: "window_rel ReplayWindow_new {}"
  by (simp add: window_rel_def ReplayWindow_new_def)

lemma unat_diff: "(s :: u64) \<le> n \<Longrightarrow> unat (n - s) = unat n - unat s"
  by (simp add: unat_sub word_le_nat_alt)

lemma has_seen_rel:
  assumes "window_rel w S"
  shows "has_seen w s \<longleftrightarrow> s \<in> S \<or> (\<exists>m\<in>S. unat s + 64 \<le> unat m)"
proof (cases "newest_sequence w")
  case None
  then show ?thesis
    using assms by (simp add: window_rel_def has_seen_def)
next
  case (Some n)
  then have n: "n \<in> S" "\<forall>m\<in>S. m \<le> n"
    "\<And>s. s \<le> n \<Longrightarrow> unat n - unat s < 64 \<Longrightarrow> bit (seen w) (unat n - unat s) \<longleftrightarrow> s \<in> S"
    using assms by (auto simp: window_rel_def)
  show ?thesis
  proof (cases "s \<le> n")
    case True
    then have "unat (n - s) = unat n - unat s"
      by (rule unat_diff)
    then have "has_seen w s \<longleftrightarrow> 64 \<le> unat n - unat s \<or> bit (seen w) (unat n - unat s)"
      using Some True by (auto simp: has_seen_def and_1_eq_bit word_le_nat_alt word_less_nat_alt Let_def)
    moreover have "(\<exists>m\<in>S. unat s + 64 \<le> unat m) \<longleftrightarrow> 64 \<le> unat n - unat s"
      using n(1,2) True by (auto simp: word_le_nat_alt intro: bexI [of _ n] order_trans)
    ultimately show ?thesis
      using n(3) [OF True] by auto
  next
    case False
    then show ?thesis
      using Some n by (auto simp: has_seen_def word_le_nat_alt word_less_nat_alt)
  qed
qed

lemma mark_seen_rel:
  assumes "window_rel w S"
  shows "window_rel (mark_seen s w) (insert s S)"
proof (cases "newest_sequence w")
  case None
  then show ?thesis
    using assms
    by (auto simp: window_rel_def mark_seen_def bit_1_iff word_le_nat_alt word_unat_eq_iff)
next
  case (Some n)
  then have n: "n \<in> S" "\<And>m. m \<in> S \<Longrightarrow> m \<le> n"
    "\<And>s. s \<le> n \<Longrightarrow> unat n - unat s < 64 \<Longrightarrow> bit (seen w) (unat n - unat s) \<longleftrightarrow> s \<in> S"
    using assms by (auto simp: window_rel_def)
  consider "n < s" "64 \<le> unat s - unat n" | "n < s" "unat s - unat n < 64"
    | "s \<le> n" "unat n - unat s < 64" | "s \<le> n" "64 \<le> unat n - unat s"
    by force
  then show ?thesis
  proof cases
    case 1
    then show ?thesis
      using Some n unat_diff [of n s]
      by (auto simp: window_rel_def mark_seen_def bit_1_iff word_le_nat_alt word_less_nat_alt Let_def
          word_unat_eq_iff dest!: n(2))
  next
    case 2
    let ?k = "unat s - unat n"
    have m: "mark_seen s w = w\<lparr>seen := push_bit ?k (seen w) OR 1, newest_sequence := Some s\<rparr>"
      using 2 Some unat_diff [of n s] less_imp_le [OF 2(1)]
      by (simp add: mark_seen_def Let_def word_le_nat_alt)
    have "bit (push_bit ?k (seen w) OR 1) (unat s - unat t) \<longleftrightarrow> t \<in> insert s S"
      if t: "t \<le> s" "unat s - unat t < 64" for t
    proof (cases "t \<le> n")
      case True
      then have "?k \<le> unat s - unat t" "unat s - unat t - ?k = unat n - unat t" "unat n - unat t < 64"
        "0 < unat s - unat t" "t \<noteq> s"
        using t 2 by (auto simp: word_le_nat_alt word_less_nat_alt)
      then show ?thesis
        using n(3) [OF True] t by (auto simp: bit_or_iff bit_push_bit_iff bit_1_iff)
    next
      case False
      then have "unat s - unat t < ?k" "t \<notin> S"
        using t 2 n(2) by (auto simp: word_le_nat_alt word_less_nat_alt)
      moreover have "unat s - unat t = 0 \<longleftrightarrow> t = s"
        using t by (auto simp: word_le_nat_alt word_unat_eq_iff)
      ultimately show ?thesis
        by (auto simp: bit_or_iff bit_push_bit_iff bit_1_iff)
    qed
    then show ?thesis
      using 2 by (auto simp: window_rel_def m dest!: n(2))
  next
    case 3
    let ?k = "unat n - unat s"
    have m: "mark_seen s w = w\<lparr>seen := seen w OR push_bit ?k 1\<rparr>"
      using 3 Some unat_diff [of s n]
      by (simp add: mark_seen_def Let_def word_le_nat_alt word_less_nat_alt)
    have "bit (seen w OR push_bit ?k 1) (unat n - unat t) \<longleftrightarrow> t \<in> insert s S"
      if t: "t \<le> n" "unat n - unat t < 64" for t
    proof -
      have "unat n - unat t = ?k \<longleftrightarrow> t = s"
        using t 3 by (auto simp: word_le_nat_alt word_unat_eq_iff)
      then show ?thesis
        using n(3) [OF t] t unfolding bit_or_iff bit_push_bit_iff bit_1_iff by auto
    qed
    then show ?thesis
      using 3 n(1,2) Some by (auto simp: window_rel_def m)
  next
    case 4
    then show ?thesis
      using Some n unat_diff [of s n]
      by (auto simp: window_rel_def mark_seen_def word_le_nat_alt word_less_nat_alt Let_def)
  qed
qed

lemma foldl_mark_rel: "window_rel w S \<Longrightarrow> window_rel (foldl (\<lambda>w s. mark_seen s w) w ms) (set ms \<union> S)"
proof (induction ms arbitrary: w S)
  case (Cons m ms)
  then show ?case
    using mark_seen_rel [of w S m] by (force simp: insert_commute)
qed simp

text \<open>C10: After any sequence of marks, the window reports a sequence number as seen exactly when it
  was marked or lies 64 or more below some marked number.\<close>

theorem replay_window_exact:
  "has_seen (foldl (\<lambda>w s. mark_seen s w) ReplayWindow_new ms) s \<longleftrightarrow>
     s \<in> set ms \<or> (\<exists>m\<in>set ms. unat s + 64 \<le> unat m)"
  using has_seen_rel [OF foldl_mark_rel [OF window_rel_new]] by simp

section \<open>Replay filters\<close>

text \<open>
  What a receiver relies on: a marked number stays seen. A receiver that drops seen numbers and
  marks the others accepts each number at most once.
\<close>

locale replay_filter =
  fixes is_seen :: "'w \<Rightarrow> 'n \<Rightarrow> bool"
    and mark :: "'n \<Rightarrow> 'w \<Rightarrow> 'w"
    and valid :: "'w \<Rightarrow> bool"
  assumes seen_mark: "valid w \<Longrightarrow> is_seen (mark s w) s"
    and seen_mono: "valid w \<Longrightarrow> is_seen w s \<Longrightarrow> is_seen (mark t w) s"
    and valid_mark: "valid w \<Longrightarrow> valid (mark s w)"
begin

text \<open>One accepting step: the number was not seen, and is marked.\<close>

inductive accepts :: "'w \<Rightarrow> 'n list \<Rightarrow> 'w \<Rightarrow> bool" where
  accepts_none: "accepts w [] w"
| accepts_more: "accepts w ss w' \<Longrightarrow> \<not> is_seen w' s \<Longrightarrow> accepts w (ss @ [s]) (mark s w')"

lemma accepts_valid: "accepts w ss w' \<Longrightarrow> valid w \<Longrightarrow> valid w'"
  by (induction rule: accepts.induct) (auto simp: valid_mark)

lemma accepts_seen: "accepts w ss w' \<Longrightarrow> valid w \<Longrightarrow> s \<in> set ss \<Longrightarrow> is_seen w' s"
  by (induction rule: accepts.induct) (auto dest: accepts_valid intro: seen_mark seen_mono)

lemma accepts_distinct: "accepts w ss w' \<Longrightarrow> valid w \<Longrightarrow> distinct ss"
  by (induction rule: accepts.induct) (auto dest: accepts_seen)

lemma accepts_unseen:
  "accepts w ss w' \<Longrightarrow> valid w \<Longrightarrow> s \<in> set ss \<Longrightarrow> \<not> is_seen w s"
proof (induction rule: accepts.induct)
  case (accepts_more w ss w' s')
  have "is_seen w s \<Longrightarrow> is_seen w' s"
    using accepts_more(1,4)
    by (induction rule: accepts.induct) (auto dest: accepts_valid intro: seen_mono)
  then show ?case
    using accepts_more by auto
qed simp

end

definition window_valid :: "ReplayWindow \<Rightarrow> bool" where
  "window_valid w \<longleftrightarrow> (\<exists>S. window_rel w S)"

lemma window_valid_new: "window_valid ReplayWindow_new"
  using window_rel_new by (auto simp: window_valid_def)

interpretation window: replay_filter has_seen mark_seen window_valid
proof
  fix w :: ReplayWindow and s t :: u64
  assume "window_valid w"
  then obtain S where S: "window_rel w S"
    by (auto simp: window_valid_def)
  show "has_seen (mark_seen s w) s"
    using has_seen_rel [OF mark_seen_rel [OF S]] by simp
  show "has_seen w s \<Longrightarrow> has_seen (mark_seen t w) s"
    using has_seen_rel [OF mark_seen_rel [OF S]] has_seen_rel [OF S] by auto
  show "window_valid (mark_seen s w)"
    using mark_seen_rel [OF S] by (auto simp: window_valid_def)
qed

end
