(* ===== verification/Session.thy ===== *)
theory Session
  imports Handshake Replay
begin

text \<open>
  The runtime-neutral session driver (\<^verbatim>\<open>driver.rs\<close>): retransmission schedule and duplicate
  budget, the established session's record state with its replay window, alert decoding, the
  datagram receive loop and the chunked delay. The transport is a list of receive events; a
  loop that has consumed them all is waiting, which is the result \<open>None\<close>. Durations are
  nanosecond counts.
\<close>

definition MAX_DATAGRAM_SIZE :: nat where [dtls_consts]: "MAX_DATAGRAM_SIZE = 4096"
definition INITIAL_RETRANSMIT_TIMEOUT :: nat where [dtls_consts]: "INITIAL_RETRANSMIT_TIMEOUT = 1000000000"
definition MAX_RETRANSMIT_TIMEOUT :: nat where [dtls_consts]: "MAX_RETRANSMIT_TIMEOUT = 60 * 1000000000"
definition MAX_DUPLICATE_RETRANSMISSIONS :: u8 where [dtls_consts]: "MAX_DUPLICATE_RETRANSMISSIONS = 4"
definition ALERT_CLOSE_NOTIFY :: u8 where [dtls_consts]: "ALERT_CLOSE_NOTIFY = 0"

datatype 'e driver_error = Protocol dtls_error | Transport 'e | DriverTimeout

section \<open>Retransmission timers\<close>

record RetransmitSchedule =
  rs_timeout :: nat

definition RetransmitSchedule_new :: RetransmitSchedule where
  "RetransmitSchedule_new = \<lparr>rs_timeout = INITIAL_RETRANSMIT_TIMEOUT\<rparr>"

text \<open>\<open>Duration::saturating_mul\<close> saturates far above the cap, so the minimum is exact.\<close>

definition back_off :: "RetransmitSchedule \<Rightarrow> RetransmitSchedule" where
  "back_off s = s\<lparr>rs_timeout := min (rs_timeout s * 2) MAX_RETRANSMIT_TIMEOUT\<rparr>"

record DuplicateRetransmitBudget =
  used :: u8

definition DuplicateRetransmitBudget_new :: DuplicateRetransmitBudget where
  "DuplicateRetransmitBudget_new = \<lparr>used = 0\<rparr>"

definition budget_take :: "DuplicateRetransmitBudget \<Rightarrow> DuplicateRetransmitBudget \<times> bool" where
  "budget_take b =
     (if used b \<ge> MAX_DUPLICATE_RETRANSMISSIONS then (b, False)
      else (b\<lparr>used := saturating_inc (used b)\<rparr>, True))"

section \<open>Session state\<close>

datatype SessionRole = ClientRole | ServerRole

record SessionState =
  ss_key_material :: ThreadDtlsKeyMaterial
  ss_role :: SessionRole
  next_application_sequence :: u64
  application_replay :: ReplayWindow
  unread_records :: "DtlsRecord list"

definition with_next_application_sequence ::
  "ThreadDtlsKeyMaterial \<Rightarrow> SessionRole \<Rightarrow> u64 \<Rightarrow> SessionState" where
  "with_next_application_sequence km role n =
     \<lparr>ss_key_material = km, ss_role = role, next_application_sequence = n,
      application_replay = ReplayWindow_new, unread_records = []\<rparr>"

definition SessionState_new :: "ThreadDtlsKeyMaterial \<Rightarrow> SessionRole \<Rightarrow> SessionState" where
  "SessionState_new km role = with_next_application_sequence km role 1"

definition during_handshake :: "ThreadDtlsKeyMaterial \<Rightarrow> SessionRole \<Rightarrow> SessionState" where
  "during_handshake km role = with_next_application_sequence km role 0"

definition protect_record ::
  "crypto \<Rightarrow> ContentType \<Rightarrow> bytes \<Rightarrow> (SessionState, dtls_error, DtlsRecord) action" where
  "protect_record cr t plaintext s =
     (let kb = key_block (ss_key_material s);
          (key, iv) = (case ss_role s of
             ClientRole \<Rightarrow> (client_write_key kb, client_write_iv kb)
           | ServerRole \<Rightarrow> (server_write_key kb, server_write_iv kb))
      in case protect_aes_128_ccm_8_record cr t 1 (next_application_sequence s) key iv plaintext of
           Inl e \<Rightarrow> (s, Err e)
         | Inr r \<Rightarrow> (s\<lparr>next_application_sequence := next_application_sequence s + 1\<rparr>, Ok r))"

definition protect_application_data ::
  "crypto \<Rightarrow> bytes \<Rightarrow> (SessionState, dtls_error, DtlsRecord) action" where
  "protect_application_data cr plaintext = protect_record cr ApplicationData plaintext"

definition open_protected_record ::
  "crypto \<Rightarrow> DtlsRecord \<Rightarrow> (SessionState, dtls_error, bytes option) action" where
  "open_protected_record cr r s =
     (if has_seen (application_replay s) (sequence_number (rec_header r)) then (s, Ok None)
      else
        let kb = key_block (ss_key_material s);
            (key, iv) = (case ss_role s of
               ClientRole \<Rightarrow> (server_write_key kb, server_write_iv kb)
             | ServerRole \<Rightarrow> (client_write_key kb, client_write_iv kb))
        in case open_aes_128_ccm_8_record cr r key iv of
             Inl e \<Rightarrow> (s, Err e)
           | Inr plaintext \<Rightarrow>
               (s\<lparr>application_replay := mark_seen (sequence_number (rec_header r)) (application_replay s)\<rparr>,
                Ok (Some plaintext)))"

definition receive_datagram :: "DtlsRecord list \<Rightarrow> SessionState \<Rightarrow> SessionState" where
  "receive_datagram rs s = s\<lparr>unread_records := unread_records s @ rs\<rparr>"

definition decode_alert_error :: "RecordHeader \<Rightarrow> bytes \<Rightarrow> dtls_error" where
  "decode_alert_error h body =
     (case body of
        level # description # _ \<Rightarrow>
          Crypto (''DTLS alert epoch='' @ show_nat (unat (epoch h)) @ '' seq='' @ show_nat (unat (sequence_number h))
            @ '' level='' @ show_nat (unat level) @ '' description='' @ show_nat (unat description))
      | _ \<Rightarrow>
          Crypto (''DTLS alert epoch='' @ show_nat (unat (epoch h)) @ '' seq='' @ show_nat (unat (sequence_number h))
            @ '' received''))"

definition decode_authenticated_alert :: "RecordHeader \<Rightarrow> bytes \<Rightarrow> dtls_error" where
  "decode_authenticated_alert h body =
     (case body of
        _ # description # _ \<Rightarrow> if description = ALERT_CLOSE_NOTIFY then PeerClosed else decode_alert_error h body
      | _ \<Rightarrow> decode_alert_error h body)"

lemma open_protected_unread:
  "open_protected_record cr r s = (s', x) \<Longrightarrow> unread_records s' = unread_records s"
  by (auto simp: open_protected_record_def Let_def split: prod.splits sum.splits if_splits)

function open_next_record :: "crypto \<Rightarrow> SessionState \<Rightarrow> SessionState \<times> (dtls_error + bytes) option" where
  "open_next_record cr s =
     (case unread_records s of
        [] \<Rightarrow> (s, None)
      | r # rs \<Rightarrow>
          let s = s\<lparr>unread_records := rs\<rparr> in
          if epoch (rec_header r) \<noteq> 1 then open_next_record cr s
          else if content_type (rec_header r) \<noteq> ApplicationData \<and> content_type (rec_header r) \<noteq> Alert
          then open_next_record cr s
          else
            (case open_protected_record cr r s of
               (s, Inr (Some plaintext)) \<Rightarrow>
                 (s, Some (if content_type (rec_header r) = Alert
                           then Err (decode_authenticated_alert (rec_header r) plaintext)
                           else Ok plaintext))
             | (s, _) \<Rightarrow> open_next_record cr s))"
  by pat_completeness auto
termination
  by (relation "measure (length \<circ> unread_records \<circ> snd)")
    (auto dest: open_protected_unread [OF sym])

declare open_next_record.simps [simp del]

section \<open>Receiving and waiting\<close>

record 'a recv_event =
  re_len :: nat
  re_data :: bytes
  re_local :: 'a
  re_remote :: 'a

text \<open>
  The receive loop over the outcomes of \<open>receive_into\<close>: a transport failure, or a datagram with
  the length the transport reports.
\<close>

fun recv_parsed_datagram ::
  "'a option \<Rightarrow> ('e + 'a recv_event) list \<Rightarrow>
     ('e + 'a recv_event) list \<times> ('e driver_error + DtlsRecord list \<times> 'a \<times> 'a) option" where
  "recv_parsed_datagram peer [] = ([], None)"
| "recv_parsed_datagram peer (Inl e # evs) = (evs, Some (Err (Transport e)))"
| "recv_parsed_datagram peer (Inr d # evs) =
     (if (case peer of None \<Rightarrow> False | Some p \<Rightarrow> p \<noteq> re_remote d) then recv_parsed_datagram peer evs
      else if re_len d > MAX_DATAGRAM_SIZE then recv_parsed_datagram peer evs
      else
        (case parse_datagram (take (re_len d) (re_data d)) of
           Inr rs \<Rightarrow> (evs, Some (Ok (rs, re_local d, re_remote d)))
         | Inl _ \<Rightarrow> recv_parsed_datagram peer evs))"

lemma recv_parsed_datagram_shrinks:
  "recv_parsed_datagram peer evs = (evs', Some r) \<Longrightarrow> length evs' < length evs"
  by (induction peer evs rule: recv_parsed_datagram.induct) (auto split: if_splits sum.splits)

text \<open>\<open>recv_application_data\<close> without its deadline: open queued records, else receive more.\<close>

function recv_application_data ::
  "crypto \<Rightarrow> 'a \<Rightarrow> SessionState \<Rightarrow> ('e + 'a recv_event) list \<Rightarrow>
     SessionState \<times> ('e + 'a recv_event) list \<times> ('e driver_error + bytes) option" where
  "recv_application_data cr peer s evs =
     (case open_next_record cr s of
        (s, Some r) \<Rightarrow> (s, evs, Some (map_err Protocol r))
      | (s, None) \<Rightarrow>
          (case recv_parsed_datagram (Some peer) evs of
             (evs, None) \<Rightarrow> (s, evs, None)
           | (evs, Some (Inl e)) \<Rightarrow> (s, evs, Some (Err e))
           | (evs, Some (Inr (rs, _, _))) \<Rightarrow> recv_application_data cr peer (receive_datagram rs s) evs))"
  by pat_completeness auto
termination
  by (relation "measure (\<lambda>(cr, peer, s, evs). length evs)")
    (auto dest: recv_parsed_datagram_shrinks [OF sym])

declare recv_application_data.simps [simp del]

text \<open>The \<open>delay_ns\<close> calls of \<open>delay_duration\<close>, in order.\<close>

definition MAX_DELAY_NANOSECONDS :: nat where "MAX_DELAY_NANOSECONDS = 2 ^ 32 - 1"

definition delay_duration :: "nat \<Rightarrow> nat list" where
  "delay_duration nanoseconds =
     replicate (nanoseconds div MAX_DELAY_NANOSECONDS) MAX_DELAY_NANOSECONDS
     @ (let remainder = nanoseconds mod MAX_DELAY_NANOSECONDS in if remainder \<noteq> 0 then [remainder] else [])"

section \<open>Timers and budgets\<close>

lemma saturating_inc_unat: "b \<noteq> 0xff \<Longrightarrow> unat (saturating_inc b) = unat b + 1"
proof -
  assume "b \<noteq> 0xff"
  then have "unat b \<noteq> 255"
    by (metis unsigned_word_eqI unat_0xff)
  then have "unat b + 1 < 256"
    using unat_u8_le [of b] by linarith
  then show ?thesis
    using \<open>b \<noteq> 0xff\<close> by (simp add: saturating_inc_def unat_word_ariths)
qed

interpretation duplicate_budget: budget budget_take "\<lambda>b. 4 - unat (used b)"
proof
  fix s s' :: DuplicateRetransmitBudget and g
  assume t: "budget_take s = (s', g)"
  have "used s < 4 \<Longrightarrow> unat (saturating_inc (used s)) = unat (used s) + 1"
    by (rule saturating_inc_unat) auto
  then show "g = (0 < 4 - unat (used s)) \<and> 4 - unat (used s') = 4 - unat (used s) - 1"
    using t by (auto simp: budget_take_def dtls_consts word_le_nat_alt word_less_nat_alt split: if_splits)
qed

lemma back_off_funpow:
  "rs_timeout ((back_off ^^ k) RetransmitSchedule_new) = min (2 ^ k * INITIAL_RETRANSMIT_TIMEOUT) MAX_RETRANSMIT_TIMEOUT"
  by (induction k) (auto simp: RetransmitSchedule_new_def back_off_def dtls_consts min_def)

lemma sum_delay_duration: "sum_list (delay_duration n) = n"
  using div_mult_mod_eq [of n MAX_DELAY_NANOSECONDS]
  by (auto simp: delay_duration_def Let_def sum_list_replicate)

lemma delay_duration_fits: "x \<in> set (delay_duration n) \<Longrightarrow> 0 < x \<and> x \<le> MAX_DELAY_NANOSECONDS"
proof -
  have "0 < MAX_DELAY_NANOSECONDS"
    by (simp add: MAX_DELAY_NANOSECONDS_def)
  then show "x \<in> set (delay_duration n) \<Longrightarrow> ?thesis"
    using mod_less_divisor [of MAX_DELAY_NANOSECONDS n]
    by (auto simp: delay_duration_def Let_def split: if_splits)
qed

text \<open>C36: The retransmission timer after \<open>k\<close> expiries is one second doubled \<open>k\<close> times and capped at
  sixty; of any number of duplicate flights in one wait, exactly the first four are answered; and
  a delay is split into timer calls that each fit 32 bits and add up to it.\<close>

theorem retransmission_bounds:
  "rs_timeout ((back_off ^^ k) RetransmitSchedule_new) = min (2 ^ k * 1000000000) 60000000000 \<and>
   duplicate_budget.grants n DuplicateRetransmitBudget_new = min n 4 \<and>
   sum_list (delay_duration d) = d \<and> list_all (\<lambda>x. 0 < x \<and> x < 2 ^ 32) (delay_duration d)"
proof -
  have "list_all (\<lambda>x. 0 < x \<and> x < 2 ^ 32) (delay_duration d)"
    using delay_duration_fits by (fastforce simp: list_all_iff MAX_DELAY_NANOSECONDS_def)
  then show ?thesis
    using back_off_funpow [of k]
    by (simp add: duplicate_budget.grants_eq DuplicateRetransmitBudget_new_def dtls_consts sum_delay_duration)
qed

section \<open>Session runs\<close>

text \<open>
  Everything that can happen to a session's record state, with the sequence numbers it sent and
  the ones it accepted: protecting a record, opening one (accepted, replayed or rejected), queueing
  a datagram and dropping a queued record.
\<close>

inductive session_run :: "crypto \<Rightarrow> SessionState \<Rightarrow> u64 list \<Rightarrow> u64 list \<Rightarrow> SessionState \<Rightarrow> bool"
  for cr :: crypto where
  run_start: "session_run cr s [] [] s"
| run_send: "session_run cr s sent acc s1 \<Longrightarrow> protect_record cr t p s1 = (s2, Ok r) \<Longrightarrow>
    session_run cr s (sent @ [sequence_number (rec_header r)]) acc s2"
| run_send_failed: "session_run cr s sent acc s1 \<Longrightarrow> protect_record cr t p s1 = (s2, Err e) \<Longrightarrow>
    session_run cr s sent acc s2"
| run_accept: "session_run cr s sent acc s1 \<Longrightarrow> open_protected_record cr r s1 = (s2, Ok (Some p)) \<Longrightarrow>
    session_run cr s sent (acc @ [sequence_number (rec_header r)]) s2"
| run_refuse: "session_run cr s sent acc s1 \<Longrightarrow> open_protected_record cr r s1 = (s2, x) \<Longrightarrow>
    \<forall>p. x \<noteq> Ok (Some p) \<Longrightarrow> session_run cr s sent acc s2"
| run_receive: "session_run cr s sent acc s1 \<Longrightarrow> session_run cr s sent acc (receive_datagram rs s1)"
| run_drop: "session_run cr s sent acc s1 \<Longrightarrow> session_run cr s sent acc (s1\<lparr>unread_records := rs\<rparr>)"

lemma protect_record_Ok:
  assumes "protect_record cr t p s = (s', Inr r)"
  shows "sequence_number (rec_header r) = next_application_sequence s \<and>
    next_application_sequence s \<le> 0x0000ffffffffffff \<and>
    s' = s\<lparr>next_application_sequence := next_application_sequence s + 1\<rparr>"
proof -
  obtain key iv where "protect_aes_128_ccm_8_record cr t 1 (next_application_sequence s) key iv p = Inr r"
    "s' = s\<lparr>next_application_sequence := next_application_sequence s + 1\<rparr>"
    using assms by (auto simp: protect_record_def Let_def split: sum.splits SessionRole.splits)
  then show ?thesis
    by (auto simp: protect_aes_128_ccm_8_record_def dtls_ccm_nonce_def DtlsRecord_new_def result_simps
        Let_def not_less split: if_splits)
qed

lemma protect_record_Err: "protect_record cr t p s = (s', Inl e) \<Longrightarrow> s' = s"
  by (auto simp: protect_record_def Let_def split: sum.splits prod.splits)

lemma open_protected_record_accept:
  "open_protected_record cr r s = (s', Inr (Some p)) \<Longrightarrow>
     \<not> has_seen (application_replay s) (sequence_number (rec_header r)) \<and>
     s' = s\<lparr>application_replay := mark_seen (sequence_number (rec_header r)) (application_replay s)\<rparr>"
  by (auto simp: open_protected_record_def Let_def split: if_splits prod.splits sum.splits)

lemma open_protected_record_refuse:
  "open_protected_record cr r s = (s', x) \<Longrightarrow> \<forall>p. x \<noteq> Ok (Some p) \<Longrightarrow> s' = s"
  by (auto simp: open_protected_record_def Let_def split: if_splits prod.splits sum.splits)

text \<open>The accepted numbers form a run of the replay filter.\<close>

lemma session_run_accepts:
  "session_run cr s sent acc s' \<Longrightarrow> window.accepts (application_replay s) acc (application_replay s')"
proof (induction rule: session_run.induct)
  case (run_accept s sent acc s1 r s2 p)
  then show ?case
    using open_protected_record_accept [of cr r s1 s2 p] window.accepts_more by auto
qed (auto simp: receive_datagram_def window.accepts_none
    dest!: protect_record_Ok protect_record_Err open_protected_record_refuse)

text \<open>The sent numbers are the counter's values, which never wrap around.\<close>

lemma session_run_sent:
  "session_run cr s sent acc s' \<Longrightarrow> next_application_sequence s \<le> 0x0001000000000000 \<Longrightarrow>
     next_application_sequence s' \<le> 0x0001000000000000 \<and> sorted_wrt (<) sent \<and>
     (\<forall>x\<in>set sent. x < next_application_sequence s' \<and> x \<le> 0x0000ffffffffffff)"
proof (induction rule: session_run.induct)
  case (run_send s sent acc s1 t p s2 r)
  let ?n = "next_application_sequence s1"
  have n: "sequence_number (rec_header r) = ?n" "?n \<le> 0x0000ffffffffffff" "next_application_sequence s2 = ?n + 1"
    using protect_record_Ok [OF run_send(2)] by auto
  have "?n < ?n + 1" "?n + 1 \<le> 0x0001000000000000"
    using n(2) by (simp_all add: word_le_nat_alt word_less_nat_alt unat_word_ariths)
  then show ?case
    using run_send n by (auto simp: sorted_wrt_append intro: less_trans)
qed (auto simp: receive_datagram_def dest!: protect_record_Err open_protected_record_refuse
    open_protected_record_accept)

text \<open>C1: Over any run of a DTLS session, no sequence number is used for two sent records and none is
  accepted from the peer twice; the counter stops at 48 bits instead of wrapping around.\<close>

theorem session_sequences_distinct:
  assumes "session_run cr (with_next_application_sequence km role n) sent acc s" "n \<le> 1"
  shows "distinct sent \<and> distinct acc \<and> (\<forall>x\<in>set sent. x \<le> 0x0000ffffffffffff)"
proof -
  have "n \<le> 0x0001000000000000"
    using assms(2) by (rule order_trans) simp
  then have sent: "sorted_wrt (<) sent \<and> (\<forall>x\<in>set sent. x \<le> 0x0000ffffffffffff)"
    using session_run_sent [OF assms(1)] by (auto simp: with_next_application_sequence_def)
  have "distinct acc"
    using window.accepts_distinct [OF session_run_accepts [OF assms(1)]] window_valid_new
    by (simp add: with_next_application_sequence_def)
  then show ?thesis
    using sent strict_sorted_iff by (auto simp: strict_sorted_iff)
qed

theorem session_sequences_distinct_witness:
  "\<exists>sent acc s. sent \<noteq> [] \<and> distinct sent \<and> distinct acc \<and>
     session_run toy_crypto (SessionState_new
       \<lparr>master_secret = [], key_block = \<lparr>client_write_key = replicate 16 0, server_write_key = replicate 16 0,
         client_write_iv = replicate 4 0, server_write_iv = replicate 4 0\<rparr>\<rparr> ClientRole) sent acc s"
proof -
  let ?km = "\<lparr>master_secret = [], key_block = \<lparr>client_write_key = replicate 16 0, server_write_key = replicate 16 0,
         client_write_iv = replicate 4 0, server_write_iv = replicate 4 0\<rparr>\<rparr>"
  let ?s = "with_next_application_sequence ?km ClientRole 1"
  obtain r where "protect_record toy_crypto ApplicationData [] ?s = (?s\<lparr>next_application_sequence := 1 + 1\<rparr>, Ok r)"
    by (simp add: protect_record_def with_next_application_sequence_def protect_aes_128_ccm_8_record_def
        dtls_ccm_nonce_def AesCcm8_encrypt_def DtlsRecord_new_def toy_crypto_def dtls_consts)
  then have run: "session_run toy_crypto ?s ([] @ [sequence_number (rec_header r)]) [] (?s\<lparr>next_application_sequence := 1 + 1\<rparr>)"
    by (rule session_run.run_send [OF session_run.run_start])
  then have "distinct ([] @ [sequence_number (rec_header r)]) \<and> distinct ([] :: u64 list)"
    using session_sequences_distinct [OF run] by simp
  with run show ?thesis
    unfolding SessionState_new_def by blast
qed

section \<open>Receiving application data\<close>

lemma session_run_trans:
  "session_run cr s2 sent' acc' s3 \<Longrightarrow> session_run cr s1 sent acc s2 \<Longrightarrow>
     session_run cr s1 (sent @ sent') (acc @ acc') s3"
  by (induction rule: session_run.induct)
    (auto simp flip: append_assoc intro: session_run.intros)

definition usable :: "DtlsRecord \<Rightarrow> bool" where
  "usable r \<longleftrightarrow> epoch (rec_header r) = 1 \<and>
     (content_type (rec_header r) = ApplicationData \<or> content_type (rec_header r) = Alert)"

lemma open_next_record_Nil: "unread_records s = [] \<Longrightarrow> open_next_record cr s = (s, None)"
  by (simp add: open_next_record.simps)

lemma open_next_record_skip:
  assumes "unread_records s = r # rs"
    and "usable r \<Longrightarrow> \<forall>p. snd (open_protected_record cr r (s\<lparr>unread_records := rs\<rparr>)) \<noteq> Ok (Some p)"
  shows "open_next_record cr s = open_next_record cr (s\<lparr>unread_records := rs\<rparr>)"
proof (cases "usable r")
  case True
  obtain y where y: "open_protected_record cr r (s\<lparr>unread_records := rs\<rparr>) = (s\<lparr>unread_records := rs\<rparr>, y)"
    "\<forall>p. y \<noteq> Ok (Some p)"
    using assms(2) [OF True] open_protected_record_refuse
    by (cases "open_protected_record cr r (s\<lparr>unread_records := rs\<rparr>)") auto
  then show ?thesis
    using assms(1) True
    by (subst open_next_record.simps) (auto simp: usable_def split: sum.splits option.splits)
next
  case False
  then show ?thesis
    using assms(1) by (subst open_next_record.simps) (auto simp: usable_def Let_def)
qed

lemma open_next_record_take:
  assumes "unread_records s = r # rs" "usable r"
    and "open_protected_record cr r (s\<lparr>unread_records := rs\<rparr>) = (s1, Ok (Some p))"
  shows "open_next_record cr s = (s1, Some (if content_type (rec_header r) = Alert
    then Err (decode_authenticated_alert (rec_header r) p) else Ok p))"
  using assms by (subst open_next_record.simps) (auto simp: usable_def)

text \<open>What was returned came from one usable queued record; the state changed by accepting it.\<close>

lemma open_next_record_origin:
  assumes "open_next_record cr s = (s', Some x)"
  shows "\<exists>r rs p. r \<in> set (unread_records s) \<and> usable r \<and>
       open_protected_record cr r (s\<lparr>unread_records := rs\<rparr>) = (s', Ok (Some p)) \<and>
       x = (if content_type (rec_header r) = Alert
            then Err (decode_authenticated_alert (rec_header r) p) else Ok p)"
  using assms
proof (induction "unread_records s" arbitrary: s)
  case Nil
  then show ?case
    by (simp add: open_next_record_Nil)
next
  case (Cons r rs)
  let ?s = "s\<lparr>unread_records := rs\<rparr>"
  show ?case
  proof (cases "usable r \<and> (\<exists>p. snd (open_protected_record cr r ?s) = Ok (Some p))")
    case True
    then obtain s1 p where o1: "open_protected_record cr r ?s = (s1, Ok (Some p))"
      by (metis prod.collapse)
    then show ?thesis
      using True Cons.prems open_next_record_take [OF Cons(2) [symmetric] _ o1] Cons(2) [symmetric]
      by (intro exI [of _ r] exI [of _ rs] exI [of _ p]) auto
  next
    case False
    then have "open_next_record cr ?s = (s', Some x)"
      using Cons.prems open_next_record_skip [OF Cons(2) [symmetric]] by metis
    then obtain r' rs' p where "r' \<in> set rs" "usable r'"
      "open_protected_record cr r' (?s\<lparr>unread_records := rs'\<rparr>) = (s', Ok (Some p))"
      "x = (if content_type (rec_header r') = Alert
            then Err (decode_authenticated_alert (rec_header r') p) else Ok p)"
      using Cons(1) [of ?s] by auto
    then show ?thesis
      using Cons(2) [symmetric] by (intro exI [of _ r'] exI [of _ rs'] exI [of _ p]) auto
  qed
qed

lemma open_next_record_none:
  assumes "open_next_record cr s = (s', None)"
  shows "s' = s\<lparr>unread_records := []\<rparr>"
  using assms
proof (induction "unread_records s" arbitrary: s)
  case (Cons r rs)
  let ?s = "s\<lparr>unread_records := rs\<rparr>"
  have "\<not> (usable r \<and> (\<exists>p. snd (open_protected_record cr r ?s) = Ok (Some p)))"
    using Cons.prems open_next_record_take [OF Cons(2) [symmetric], of cr]
    by (metis option.distinct(1) prod.collapse prod.inject)
  then have "open_next_record cr ?s = (s', None)"
    using Cons.prems open_next_record_skip [OF Cons(2) [symmetric]] by metis
  then show ?case
    using Cons(1) [of ?s] by simp
qed (simp add: open_next_record_Nil)

text \<open>Opening the next queued record is a run that accepts the one record it returns, if any.\<close>

lemma open_next_record_run:
  assumes "open_next_record cr s = (s', x)"
  shows "\<exists>acc. session_run cr s [] acc s' \<and> length acc = of_bool (x \<noteq> None)"
proof (cases x)
  case None
  then have "s' = s\<lparr>unread_records := []\<rparr>"
    using open_next_record_none assms by blast
  then have "session_run cr s [] [] s'"
    by (simp add: session_run.run_drop session_run.run_start)
  then show ?thesis
    using None by (intro exI [of _ "[]"]) simp
next
  case (Some y)
  then obtain r rs p where "open_protected_record cr r (s\<lparr>unread_records := rs\<rparr>) = (s', Ok (Some p))"
    using open_next_record_origin assms by blast
  then have "session_run cr s [] ([] @ [sequence_number (rec_header r)]) s'"
    by (rule session_run.run_accept [OF session_run.run_drop [OF session_run.run_start]])
  then show ?thesis
    using Some by (intro exI [of _ "[sequence_number (rec_header r)]"]) simp
qed

text \<open>C8: Application data that a session delivers was opened from a queued epoch-1 application-data record
  under the peer's write key, the record's sequence number had not been accepted before, and it is
  marked as accepted afterwards.\<close>

theorem delivered_data_authentic:
  assumes "open_next_record cr s = (s', Some (Ok p))" "window_valid (application_replay s)"
  shows "\<exists>r\<in>set (unread_records s). epoch (rec_header r) = 1 \<and> content_type (rec_header r) = ApplicationData \<and>
    (let kb = key_block (ss_key_material s) in
     open_aes_128_ccm_8_record cr r
       (case ss_role s of ClientRole \<Rightarrow> server_write_key kb | ServerRole \<Rightarrow> client_write_key kb)
       (case ss_role s of ClientRole \<Rightarrow> server_write_iv kb | ServerRole \<Rightarrow> client_write_iv kb) = Ok p) \<and>
    \<not> has_seen (application_replay s) (sequence_number (rec_header r)) \<and>
    has_seen (application_replay s') (sequence_number (rec_header r))"
proof -
  obtain r rs where r: "r \<in> set (unread_records s)" "epoch (rec_header r) = 1"
    "content_type (rec_header r) = ApplicationData"
    "open_protected_record cr r (s\<lparr>unread_records := rs\<rparr>) = (s', Ok (Some p))"
    using open_next_record_origin [OF assms(1)] by (auto simp: usable_def split: if_splits)
  note acc = open_protected_record_accept [OF r(4)]
  have "let kb = key_block (ss_key_material s) in
     open_aes_128_ccm_8_record cr r
       (case ss_role s of ClientRole \<Rightarrow> server_write_key kb | ServerRole \<Rightarrow> client_write_key kb)
       (case ss_role s of ClientRole \<Rightarrow> server_write_iv kb | ServerRole \<Rightarrow> client_write_iv kb) = Ok p"
    using r(4) acc
    by (auto simp: open_protected_record_def Let_def split: SessionRole.splits sum.splits)
  moreover have "has_seen (application_replay s') (sequence_number (rec_header r))"
    using acc window.seen_mark [OF assms(2)] by simp
  ultimately show ?thesis
    using r(1-3) acc by (intro bexI [of _ r]) simp_all
qed

text \<open>C4: Two endpoints that share key material understand each other: what one side protects as application
  data, the other side, in the opposite role, delivers unchanged when the record arrives, provided the
  sequence number is fresh.\<close>

theorem session_transfer:
  assumes "ccm_correct cr"
    and "length (client_write_key (key_block km)) = 16" "length (server_write_key (key_block km)) = 16"
    and "length (client_write_iv (key_block km)) = 4" "length (server_write_iv (key_block km)) = 4"
    and "ss_key_material a = km" "ss_key_material b = km" "ss_role a \<noteq> ss_role b"
    and "length p + 16 \<le> 65535" "next_application_sequence a \<le> 0x0000ffffffffffff"
    and "unread_records b = []" "\<not> has_seen (application_replay b) (next_application_sequence a)"
  shows "\<exists>a' r wire. protect_application_data cr p a = (a', Ok r) \<and> encode_datagram [r] = Ok wire \<and>
    parse_datagram wire = Ok [r] \<and> snd (open_next_record cr (receive_datagram [r] b)) = Some (Ok p)"
proof -
  let ?kb = "key_block km"
  define key where "key = (case ss_role a of ClientRole \<Rightarrow> client_write_key ?kb | ServerRole \<Rightarrow> server_write_key ?kb)"
  define iv where "iv = (case ss_role a of ClientRole \<Rightarrow> client_write_iv ?kb | ServerRole \<Rightarrow> server_write_iv ?kb)"
  have l: "length key = 16" "length iv = 4"
    using assms(2-5) by (simp_all add: key_def iv_def split: SessionRole.split)
  obtain r where r: "protect_aes_128_ccm_8_record cr ApplicationData 1 (next_application_sequence a) key iv p = Ok r"
    "content_type (rec_header r) = ApplicationData" "epoch (rec_header r) = 1"
    "sequence_number (rec_header r) = next_application_sequence a" "is_ok (DtlsRecord_encode r)"
    "open_aes_128_ccm_8_record cr r key iv = Ok p"
    using protect_open_roundtrip [OF assms(1) l assms(9,10)] by metis
  have "protect_application_data cr p a = (a\<lparr>next_application_sequence := next_application_sequence a + 1\<rparr>, Ok r)"
    using r(1) assms(6)
    by (cases "ss_role a") (simp_all add: protect_application_data_def protect_record_def key_def iv_def)
  moreover obtain wire where w: "encode_datagram [r] = Ok wire"
    using r(5) by (auto simp: is_ok_ex)
  moreover have "parse_datagram wire = Ok [r]"
    using dtls_record.dec_all_enc_all [OF _ w] r(4) assms(10) by simp
  moreover have "snd (open_protected_record cr r b) = Ok (Some p)"
    using r(4,6) assms(7,8,12)
    by (cases "ss_role a"; cases "ss_role b")
      (simp_all add: open_protected_record_def key_def iv_def Let_def)
  then obtain b1 where "open_protected_record cr r b = (b1, Ok (Some p))"
    by (metis prod.collapse)
  then have "open_protected_record cr r (receive_datagram [r] b\<lparr>unread_records := []\<rparr>) = (b1, Ok (Some p))"
    using assms(11) by (cases b) (simp add: receive_datagram_def)
  then have "snd (open_next_record cr (receive_datagram [r] b)) = Some (Ok p)"
    using r(2,3) assms(11) open_next_record_take [of "receive_datagram [r] b" r "[]" cr b1 p]
    by (simp add: receive_datagram_def usable_def)
  ultimately show ?thesis
    by blast
qed

definition toy_keys :: ThreadDtlsKeyMaterial where
  "toy_keys = \<lparr>master_secret = [], key_block = \<lparr>client_write_key = replicate 16 0,
     server_write_key = replicate 16 0, client_write_iv = replicate 4 0, server_write_iv = replicate 4 0\<rparr>\<rparr>"

theorem session_transfer_witness:
  "\<exists>a' r wire. protect_application_data toy_crypto [1, 2, 3] (SessionState_new toy_keys ClientRole) = (a', Ok r) \<and>
     encode_datagram [r] = Ok wire \<and> parse_datagram wire = Ok [r] \<and>
     snd (open_next_record toy_crypto (receive_datagram [r] (SessionState_new toy_keys ServerRole))) = Some (Ok [1, 2, 3])"
  by (rule session_transfer [OF ccm_correct_toy, of toy_keys])
    (simp_all add: toy_keys_def SessionState_new_def with_next_application_sequence_def has_seen_def
      ReplayWindow_new_def)

theorem delivered_data_authentic_witness:
  "\<exists>s' (r :: DtlsRecord). snd (open_next_record toy_crypto s') = Some (Ok [7]) \<and> epoch (rec_header r) = 1 \<and>
     \<not> has_seen ReplayWindow_new (sequence_number (rec_header r))"
proof -
  let ?r = "\<lparr>rec_header = \<lparr>content_type = ApplicationData, rec_version = 0xfefd, epoch = 1, sequence_number = 1,
      rec_length = 17\<rparr>, rec_payload = [0, 0, 0, 0, 0, 0, 0, 0, 7, 0, 0, 0, 0, 0, 0, 0, 0]\<rparr>"
  let ?s = "receive_datagram [?r] (SessionState_new toy_keys ServerRole)"
  let ?s1 = "?s\<lparr>unread_records := []\<rparr>"
  have "open_protected_record toy_crypto ?r ?s1 = (?s1\<lparr>application_replay := mark_seen 1 ReplayWindow_new\<rparr>, Ok (Some [7]))"
    by (simp add: open_protected_record_def SessionState_new_def with_next_application_sequence_def
        receive_datagram_def has_seen_def ReplayWindow_new_def open_aes_128_ccm_8_record_def
        TLS_CCM_EXPLICIT_NONCE_LEN_def TLS_CCM_8_TAG_LEN_def AesCcm8_decrypt_def toy_crypto_def toy_keys_def)
  then have d: "open_next_record toy_crypto ?s =
      (?s1\<lparr>application_replay := mark_seen 1 ReplayWindow_new\<rparr>, Some (Ok [7]))"
    by (subst open_next_record_take [of _ ?r "[]"])
      (simp_all add: receive_datagram_def SessionState_new_def with_next_application_sequence_def usable_def)
  have w: "application_replay ?s = ReplayWindow_new"
    by (simp add: receive_datagram_def SessionState_new_def with_next_application_sequence_def)
  then have v: "window_valid (application_replay ?s)"
    using window_valid_new by simp
  obtain r :: DtlsRecord where r: "epoch (rec_header r) = 1" "\<not> has_seen (application_replay ?s) (sequence_number (rec_header r))"
    using delivered_data_authentic [OF d v] by blast
  have "snd (open_next_record toy_crypto ?s) = Some (Ok [7])"
    by (simp only: d snd_conv)
  then show ?thesis
    using r unfolding w by blast
qed

end
