(* ===== verification/Cursor.thy ===== *)
theory Cursor
  imports Dtls_Error
begin

text \<open>
  Length-checked cursors over a byte slice, as the hello codec (\<^verbatim>\<open>hello.rs\<close>, \<^verbatim>\<open>Cursor\<close>) and the
  EC J-PAKE codec (\<^verbatim>\<open>ecjpake/codec.rs\<close>, \<^verbatim>\<open>TlsEcJpakeCursor\<close>) both have one. The interface is a
  locale over the operation that reads an exact number of bytes; the codecs' own reading operations
  are related to the bytes they consume by one predicate, which composes along the structure.
\<close>

record Cursor =
  cur_bytes :: bytes
  cur_offset :: nat

definition Cursor_new :: "bytes \<Rightarrow> Cursor" where
  "Cursor_new bs = \<lparr>cur_bytes = bs, cur_offset = 0\<rparr>"

definition remaining :: "Cursor \<Rightarrow> nat" where
  "remaining c = length (cur_bytes c) - cur_offset c"

text \<open>
  \<open>reads a v x\<close>: wherever the cursor stands in a slice, if the bytes ahead begin with \<open>v\<close>, then
  \<open>a\<close> consumes exactly \<open>v\<close> and returns \<open>x\<close>. Offsets are machine words, so slices are shorter
  than \<open>2^64\<close> bytes.
\<close>

definition reads :: "(Cursor, dtls_error, 'a) action \<Rightarrow> bytes \<Rightarrow> 'a \<Rightarrow> bool" where
  "reads a v x \<longleftrightarrow>
     (\<forall>pre rest. length pre + length v < 2 ^ 64 \<longrightarrow>
        a \<lparr>cur_bytes = pre @ v @ rest, cur_offset = length pre\<rparr> =
          (\<lparr>cur_bytes = pre @ v @ rest, cur_offset = length pre + length v\<rparr>, Ok x))"

lemma readsD:
  "reads a v x \<Longrightarrow> length pre + length v < 2 ^ 64 \<Longrightarrow>
     a \<lparr>cur_bytes = pre @ v @ rest, cur_offset = length pre\<rparr> =
       (\<lparr>cur_bytes = pre @ v @ rest, cur_offset = length pre + length v\<rparr>, Ok x)"
  by (simp only: reads_def simp_thms)

lemma reads_ok: "reads (st_ok x) [] x"
  by (simp add: reads_def st_ok_def)

lemma reads_lift: "r = Inr x \<Longrightarrow> reads (st_lift r) [] x"
  by (simp add: reads_def st_lift_def)

lemma reads_then:
  assumes "reads a v x" and "reads (f x) w y"
  shows "reads (st_then a f) (v @ w) y"
  unfolding reads_def
proof (intro allI impI)
  fix pre rest :: bytes
  assume l: "length pre + length (v @ w) < 2 ^ 64"
  have 1: "a \<lparr>cur_bytes = pre @ v @ (w @ rest), cur_offset = length pre\<rparr> =
      (\<lparr>cur_bytes = pre @ v @ (w @ rest), cur_offset = length pre + length v\<rparr>, Ok x)"
    using l by (intro readsD [OF assms(1)]) simp
  have 2: "f x \<lparr>cur_bytes = (pre @ v) @ w @ rest, cur_offset = length (pre @ v)\<rparr> =
      (\<lparr>cur_bytes = (pre @ v) @ w @ rest, cur_offset = length (pre @ v) + length w\<rparr>, Ok y)"
    using l by (intro readsD [OF assms(2)]) simp
  show "st_then a f \<lparr>cur_bytes = pre @ (v @ w) @ rest, cur_offset = length pre\<rparr> =
      (\<lparr>cur_bytes = pre @ (v @ w) @ rest, cur_offset = length pre + length (v @ w)\<rparr>, Ok y)"
    using 1 2 by (simp add: st_then_def add.assoc)
qed

text \<open>The same for an action that also sees the end of the slice.\<close>

definition reads_end :: "(Cursor, dtls_error, 'a) action \<Rightarrow> bytes \<Rightarrow> 'a \<Rightarrow> bool" where
  "reads_end a v x \<longleftrightarrow>
     (\<forall>pre. length pre + length v < 2 ^ 64 \<longrightarrow>
        snd (a \<lparr>cur_bytes = pre @ v, cur_offset = length pre\<rparr>) = Ok x)"

lemma reads_end_then:
  assumes "reads a v x" and "reads_end (f x) w y"
  shows "reads_end (st_then a f) (v @ w) y"
  unfolding reads_end_def
proof (intro allI impI)
  fix pre :: bytes
  assume l: "length pre + length (v @ w) < 2 ^ 64"
  have 1: "a \<lparr>cur_bytes = pre @ v @ w, cur_offset = length pre\<rparr> =
      (\<lparr>cur_bytes = pre @ v @ w, cur_offset = length pre + length v\<rparr>, Ok x)"
    using l by (intro readsD [OF assms(1)]) simp
  have "length (pre @ v) + length w < 2 ^ 64"
    using l by simp
  then have "snd (f x \<lparr>cur_bytes = (pre @ v) @ w, cur_offset = length (pre @ v)\<rparr>) = Ok y"
    using assms(2) unfolding reads_end_def by blast
  with 1 show "snd (st_then a f \<lparr>cur_bytes = pre @ v @ w, cur_offset = length pre\<rparr>) = Ok y"
    by (simp add: st_then_def)
qed

lemma reads_end_whole: "reads_end a v x \<Longrightarrow> length v < 2 ^ 64 \<Longrightarrow> snd (a (Cursor_new v)) = Ok x"
  unfolding reads_end_def by (drule spec [of _ "[]"]) (simp add: Cursor_new_def)

text \<open>What a codec relies on when it reads bytes.\<close>

locale byte_cursor =
  fixes read_n :: "nat \<Rightarrow> (Cursor, dtls_error, bytes) action"
  assumes exact: "reads (read_n (length v)) v v"
    and in_bounds: "read_n n c = (c', Inr v) \<Longrightarrow>
      cur_bytes c' = cur_bytes c \<and> cur_offset c' = cur_offset c + n \<and>
      cur_offset c' \<le> length (cur_bytes c) \<and> v = take n (drop (cur_offset c) (cur_bytes c))"
begin

lemma shrinks: "read_n n c = (c', Inr v) \<Longrightarrow> 0 < n \<Longrightarrow> remaining c' < remaining c"
  using in_bounds [of n c c' v] by (auto simp: remaining_def)

lemma read_length: "read_n n c = (c', Inr v) \<Longrightarrow> length v = n"
  using in_bounds [of n c c' v] by auto

end

end
