(* ===== verification/Hello.thy ===== *)
theory Hello
  imports Cursor Handshake
begin

text \<open>
  Hello messages and the cookie retry (\<^verbatim>\<open>hello.rs\<close>): ClientHello, ServerHello and
  HelloVerifyRequest with their extensions, the profile checks, and the client's hello state.
  Shown: the three codecs are inverse to their encoders, and a HelloVerifyRequest makes the next
  ClientHello carry the server's cookie under the next sequence numbers. Fixed-size arrays are byte
  lists whose length is a hypothesis where it matters.
\<close>

section \<open>Reading\<close>

definition read_exact :: "nat \<Rightarrow> (Cursor, dtls_error, bytes) action" where
  "read_exact len c =
     (case checked_add_usize (cur_offset c) len of
        None \<Rightarrow> (c, Err (Crypto ''DTLS cursor offset overflow''))
      | Some end \<Rightarrow>
          if length (cur_bytes c) < end then (c, Err (Crypto ''DTLS structure is truncated''))
          else (c\<lparr>cur_offset := end\<rparr>, Ok (drop (cur_offset c) (take end (cur_bytes c)))))"

interpretation hello_cursor: byte_cursor read_exact
proof
  show "reads (read_exact (length v)) v v" for v
    by (simp add: reads_def read_exact_def checked_add_usize_def)
  show "cur_bytes c' = cur_bytes c \<and> cur_offset c' = cur_offset c + n \<and>
      cur_offset c' \<le> length (cur_bytes c) \<and> v = take n (drop (cur_offset c) (cur_bytes c))"
    if "read_exact n c = (c', Inr v)" for n c c' v
    using that
    by (auto simp: read_exact_def checked_add_usize_def take_drop add.commute split: if_splits option.splits)
qed

definition cursor_read_u8 :: "(Cursor, dtls_error, u8) action" where
  "cursor_read_u8 = st_then (read_exact 1) (\<lambda>bs. st_ok (bs ! 0))"

definition cursor_read_u16 :: "(Cursor, dtls_error, u16) action" where
  "cursor_read_u16 = st_then (read_exact 2) (\<lambda>bs. st_ok (dtls_read_u16 bs))"

definition read_array_32 :: "(Cursor, dtls_error, bytes) action" where
  "read_array_32 = read_exact 32"

definition read_vec_u8 :: "(Cursor, dtls_error, bytes) action" where
  "read_vec_u8 = st_then cursor_read_u8 (\<lambda>len. read_exact (unat len))"

definition read_vec_u16 :: "(Cursor, dtls_error, bytes) action" where
  "read_vec_u16 = st_then cursor_read_u16 (\<lambda>len. read_exact (unat len))"

record TlsExtension =
  extension_type :: u16
  ext_data :: bytes

lemma cursor_read_u16_shrinks: "cursor_read_u16 c = (c', Inr t) \<Longrightarrow> remaining c' < remaining c"
  by (auto simp: cursor_read_u16_def st_then_def st_ok_def dest: hello_cursor.shrinks split: prod.splits sum.splits)

lemma read_vec_u16_shrinks: "read_vec_u16 c = (c', Inr d) \<Longrightarrow> remaining c' < remaining c"
proof -
  assume "read_vec_u16 c = (c', Inr d)"
  then obtain c1 len where 1: "cursor_read_u16 c = (c1, Inr len)" and 2: "read_exact (unat len) c1 = (c', Inr d)"
    by (auto simp: read_vec_u16_def st_then_def split: prod.splits sum.splits)
  have "remaining c' \<le> remaining c1"
    using hello_cursor.in_bounds [OF 2] by (auto simp: remaining_def)
  with cursor_read_u16_shrinks [OF 1] show ?thesis by simp
qed

function read_extension_list :: "Cursor \<Rightarrow> dtls_error + TlsExtension list" where
  "read_extension_list c =
     (if remaining c > 0 then
        (case cursor_read_u16 c of
           (c1, Inl e) \<Rightarrow> Err e
         | (c1, Inr t) \<Rightarrow>
             (case read_vec_u16 c1 of
                (c2, Inl e) \<Rightarrow> Err e
              | (c2, Inr d) \<Rightarrow>
                  and_then (read_extension_list c2)
                    (\<lambda>es. Ok (\<lparr>extension_type = t, ext_data = d\<rparr> # es))))
      else Ok [])"
  by pat_completeness auto
termination
  by (relation "measure remaining") (fastforce dest: cursor_read_u16_shrinks [OF sym] read_vec_u16_shrinks [OF sym])+

declare read_extension_list.simps [simp del]

definition read_extensions :: "(Cursor, dtls_error, TlsExtension list) action" where
  "read_extensions c =
     (if remaining c = 0 then (c, Ok [])
      else st_then read_vec_u16
        (\<lambda>bs. st_lift (read_extension_list (Cursor_new bs))) c)"

definition cursor_finish :: "(Cursor, dtls_error, unit) action" where
  "cursor_finish c =
     (if remaining c = 0 then (c, Ok ()) else (c, Err (Crypto ''trailing bytes after DTLS structure'')))"

section \<open>Writing\<close>

definition validate_u8_len :: "nat \<Rightarrow> string \<Rightarrow> dtls_error + unit" where
  "validate_u8_len len field = (if len > 255 then Err (Crypto (field @ '' exceeds 255 bytes'')) else Ok ())"

definition validate_u16_len :: "nat \<Rightarrow> string \<Rightarrow> dtls_error + unit" where
  "validate_u16_len len field = (if len > 65535 then Err (Crypto (field @ '' exceeds 65535 bytes'')) else Ok ())"

fun encode_extension_list :: "TlsExtension list \<Rightarrow> dtls_error + bytes" where
  "encode_extension_list [] = Ok []"
| "encode_extension_list (x # xs) =
     and_then (validate_u16_len (length (ext_data x)) ''TLS extension'')
       (\<lambda>_. and_then (encode_extension_list xs)
          (\<lambda>bs. Ok (to_be 2 (extension_type x) @ to_be 2 (of_nat (length (ext_data x)) :: u16)
                    @ ext_data x @ bs)))"

definition append_extensions :: "TlsExtension list \<Rightarrow> (bytes, dtls_error, unit) action" where
  "append_extensions xs =
     st_then (st_lift (encode_extension_list xs))
       (\<lambda>encoded. st_then (st_lift (validate_u16_len (length encoded) ''TLS extensions''))
          (\<lambda>_. st_modify (\<lambda>out. out @ to_be 2 (of_nat (length encoded) :: u16) @ encoded)))"

definition find_extension :: "TlsExtension list \<Rightarrow> u16 \<Rightarrow> bytes option" where
  "find_extension xs t = map_option ext_data (find (\<lambda>x. extension_type x = t) xs)"

definition supported_groups_extension :: TlsExtension where
  "supported_groups_extension =
     \<lparr>extension_type = EXTENSION_SUPPORTED_GROUPS,
      ext_data = [0x00, 0x02, ucast (drop_bit 8 NAMED_GROUP_SECP256R1), ucast NAMED_GROUP_SECP256R1]\<rparr>"

definition signature_algorithms_extension :: TlsExtension where
  "signature_algorithms_extension =
     \<lparr>extension_type = EXTENSION_SIGNATURE_ALGORITHMS, ext_data = [0x00, 0x02, 0x04, 0x03]\<rparr>"

definition ec_point_formats_extension :: TlsExtension where
  "ec_point_formats_extension =
     \<lparr>extension_type = EXTENSION_EC_POINT_FORMATS, ext_data = [0x01, EC_POINT_FORMAT_UNCOMPRESSED]\<rparr>"

definition max_fragment_length_extension :: TlsExtension where
  "max_fragment_length_extension =
     \<lparr>extension_type = EXTENSION_MAX_FRAGMENT_LENGTH, ext_data = [0x02]\<rparr>"

section \<open>ClientHello\<close>

record ClientHello =
  ch_random :: bytes
  ch_session_id :: bytes
  ch_cookie :: bytes
  cipher_suites :: "u16 list"
  compression_methods :: bytes
  ch_extensions :: "TlsExtension list"

definition thread_profile :: "bytes \<Rightarrow> bytes \<Rightarrow> ClientHello" where
  "thread_profile random cookie =
     \<lparr>ch_random = random, ch_session_id = [], ch_cookie = cookie,
      cipher_suites = [TLS_ECJPAKE_WITH_AES_128_CCM_8, TLS_EMPTY_RENEGOTIATION_INFO_SCSV],
      compression_methods = [TLS_COMPRESSION_NULL],
      ch_extensions = [supported_groups_extension, signature_algorithms_extension, ec_point_formats_extension]\<rparr>"

definition ClientHello_set_ecjpake_kkpp :: "bytes \<Rightarrow> ClientHello \<Rightarrow> ClientHello" where
  "ClientHello_set_ecjpake_kkpp kkpp h =
     h\<lparr>ch_extensions :=
       filter (\<lambda>x. \<not> (extension_type x = EXTENSION_ECJPAKE_KKPP \<or> extension_type x = EXTENSION_MAX_FRAGMENT_LENGTH))
         (ch_extensions h)
       @ [\<lparr>extension_type = EXTENSION_ECJPAKE_KKPP, ext_data = kkpp\<rparr>]
       @ [max_fragment_length_extension]\<rparr>"

definition thread_profile_with_ecjpake :: "bytes \<Rightarrow> bytes \<Rightarrow> bytes \<Rightarrow> ClientHello" where
  "thread_profile_with_ecjpake random cookie kkpp =
     ClientHello_set_ecjpake_kkpp kkpp (thread_profile random cookie)"

definition ClientHello_ecjpake_kkpp :: "ClientHello \<Rightarrow> bytes option" where
  "ClientHello_ecjpake_kkpp h = find_extension (ch_extensions h) EXTENSION_ECJPAKE_KKPP"

definition ClientHello_encode :: "ClientHello \<Rightarrow> dtls_error + bytes" where
  "ClientHello_encode h =
     and_then (validate_u8_len (length (ch_session_id h)) ''ClientHello session_id'')
       (\<lambda>_. and_then (validate_u8_len (length (ch_cookie h)) ''ClientHello cookie'')
       (\<lambda>_. and_then (validate_u8_len (length (compression_methods h)) ''ClientHello compression methods'')
       (\<lambda>_. and_then (ok_or (checked_mul_usize (length (cipher_suites h)) 2)
                (Crypto ''ClientHello cipher-suite length overflow''))
       (\<lambda>cipher_len. and_then (validate_u16_len cipher_len ''ClientHello cipher suites'')
       (\<lambda>_. let out = to_be 2 DTLS_1_2_VERSION @ ch_random h
                 @ [of_nat (length (ch_session_id h))] @ ch_session_id h
                 @ [of_nat (length (ch_cookie h))] @ ch_cookie h
                 @ to_be 2 (of_nat cipher_len :: u16) @ concat (map (to_be 2) (cipher_suites h))
                 @ [of_nat (length (compression_methods h))] @ compression_methods h
            in case append_extensions (ch_extensions h) out of
                 (out, r) \<Rightarrow> and_then r (\<lambda>_. Ok out))))))"

definition ClientHello_decode :: "bytes \<Rightarrow> dtls_error + ClientHello" where
  "ClientHello_decode bs = snd (
     (st_then cursor_read_u16
       (\<lambda>version. if version \<noteq> DTLS_1_2_VERSION then st_err (Crypto ''ClientHello version is not DTLS 1.2'')
        else st_then read_array_32
       (\<lambda>random. st_then read_vec_u8
       (\<lambda>session_id. st_then read_vec_u8
       (\<lambda>cookie. st_then read_vec_u16
       (\<lambda>cipher_bytes.
          if length cipher_bytes mod 2 \<noteq> 0
          then st_err (Crypto ''ClientHello cipher-suite vector has odd length'')
          else st_then read_vec_u8
       (\<lambda>compression. st_then read_extensions
       (\<lambda>extensions. st_then cursor_finish
       (\<lambda>_. st_ok \<lparr>ch_random = random, ch_session_id = session_id, ch_cookie = cookie,
                   cipher_suites = map (\<lambda>s. from_be [s ! 0, s ! 1]) (chunks 2 cipher_bytes),
                   compression_methods = compression, ch_extensions = extensions\<rparr>))))))))) (Cursor_new bs))"

section \<open>HelloVerifyRequest\<close>

record HelloVerifyRequest =
  hv_server_version :: u16
  hv_cookie :: bytes

definition HelloVerifyRequest_encode :: "HelloVerifyRequest \<Rightarrow> dtls_error + bytes" where
  "HelloVerifyRequest_encode h =
     and_then (validate_u8_len (length (hv_cookie h)) ''HelloVerifyRequest cookie'')
       (\<lambda>_. Ok (to_be 2 (hv_server_version h) @ [of_nat (length (hv_cookie h))] @ hv_cookie h))"

definition HelloVerifyRequest_decode :: "bytes \<Rightarrow> dtls_error + HelloVerifyRequest" where
  "HelloVerifyRequest_decode bs = snd (
     (st_then cursor_read_u16
       (\<lambda>version. st_then read_vec_u8
       (\<lambda>cookie. st_then cursor_finish
       (\<lambda>_. st_ok \<lparr>hv_server_version = version, hv_cookie = cookie\<rparr>)))) (Cursor_new bs))"

section \<open>ServerHello\<close>

record ServerHello =
  sh_random :: bytes
  sh_session_id :: bytes
  cipher_suite :: u16
  compression_method :: u8
  sh_extensions :: "TlsExtension list"

definition validate_thread_profile :: "ServerHello \<Rightarrow> dtls_error + unit" where
  "validate_thread_profile h =
     (if cipher_suite h \<noteq> TLS_ECJPAKE_WITH_AES_128_CCM_8
      then Err (Crypto ''ServerHello selected an unsupported cipher suite'')
      else if compression_method h \<noteq> TLS_COMPRESSION_NULL
      then Err (Crypto ''ServerHello selected an unsupported compression method'')
      else Ok ())"

definition ServerHello_ecjpake_kkpp :: "ServerHello \<Rightarrow> bytes option" where
  "ServerHello_ecjpake_kkpp h = find_extension (sh_extensions h) EXTENSION_ECJPAKE_KKPP"

definition ServerHello_encode :: "ServerHello \<Rightarrow> dtls_error + bytes" where
  "ServerHello_encode h =
     and_then (validate_u8_len (length (sh_session_id h)) ''ServerHello session_id'')
       (\<lambda>_. let out = to_be 2 DTLS_1_2_VERSION @ sh_random h
                 @ [of_nat (length (sh_session_id h))] @ sh_session_id h
                 @ to_be 2 (cipher_suite h) @ [compression_method h]
            in case append_extensions (sh_extensions h) out of
                 (out, r) \<Rightarrow> and_then r (\<lambda>_. Ok out))"

definition ServerHello_decode :: "bytes \<Rightarrow> dtls_error + ServerHello" where
  "ServerHello_decode bs = snd (
     (st_then cursor_read_u16
       (\<lambda>version. if version \<noteq> DTLS_1_2_VERSION then st_err (Crypto ''ServerHello version is not DTLS 1.2'')
        else st_then read_array_32
       (\<lambda>random. st_then read_vec_u8
       (\<lambda>session_id. st_then cursor_read_u16
       (\<lambda>suite. st_then cursor_read_u8
       (\<lambda>compression. st_then read_extensions
       (\<lambda>extensions. st_then cursor_finish
       (\<lambda>_. st_ok \<lparr>sh_random = random, sh_session_id = session_id, cipher_suite = suite,
                   compression_method = compression, sh_extensions = extensions\<rparr>)))))))) (Cursor_new bs))"

section \<open>The client's hello state\<close>

record DtlsClientHelloState =
  hs_random :: bytes
  hs_cookie :: bytes
  hs_ecjpake_kkpp :: "bytes option"
  next_record_sequence :: u64
  next_message_sequence :: u16
  last_client_hello_sequence :: "u16 option"

definition DtlsClientHelloState_new :: "bytes \<Rightarrow> DtlsClientHelloState" where
  "DtlsClientHelloState_new random =
     \<lparr>hs_random = random, hs_cookie = [], hs_ecjpake_kkpp = None, next_record_sequence = 0,
      next_message_sequence = 0, last_client_hello_sequence = None\<rparr>"

definition with_ecjpake_kkpp :: "bytes \<Rightarrow> bytes \<Rightarrow> DtlsClientHelloState" where
  "with_ecjpake_kkpp random kkpp = (DtlsClientHelloState_new random)\<lparr>hs_ecjpake_kkpp := Some kkpp\<rparr>"

definition state_set_ecjpake_kkpp :: "bytes \<Rightarrow> DtlsClientHelloState \<Rightarrow> DtlsClientHelloState" where
  "state_set_ecjpake_kkpp kkpp s = s\<lparr>hs_ecjpake_kkpp := Some kkpp\<rparr>"

definition next_client_hello_record :: "(DtlsClientHelloState, dtls_error, DtlsRecord) action" where
  "next_client_hello_record s =
     (let client_hello = (case hs_ecjpake_kkpp s of
             Some kkpp \<Rightarrow> thread_profile_with_ecjpake (hs_random s) (hs_cookie s) kkpp
           | None \<Rightarrow> thread_profile (hs_random s) (hs_cookie s));
          seq = next_message_sequence s;
          s = s\<lparr>next_message_sequence := next_message_sequence s + 1,
                last_client_hello_sequence := Some seq\<rparr>
      in st_then
           (st_lift (and_then (ClientHello_encode client_hello)
              (\<lambda>body. and_then (HandshakeMessage_encode
                   \<lparr>hm_type = HandshakeType.ClientHello, hm_seq = seq, hm_payload = body\<rparr>)
                 (DtlsRecord_new Handshake 0 (next_record_sequence s)))))
           (\<lambda>r. st_then (st_modify (\<lambda>s. s\<lparr>next_record_sequence := next_record_sequence s + 1\<rparr>))
              (\<lambda>_. st_ok r)) s)"

definition handle_hello_verify_request ::
  "DtlsRecord \<Rightarrow> (DtlsClientHelloState, dtls_error, HelloVerifyRequest) action" where
  "handle_hello_verify_request r s =
     (case and_then (parse_unfragmented_handshake_record r HandshakeType.HelloVerifyRequest)
         (\<lambda>m. if Some (hm_seq m) \<noteq> last_client_hello_sequence s
              then Err (Crypto ''HelloVerifyRequest sequence does not match ClientHello'')
              else and_then (HelloVerifyRequest_decode (hm_payload m))
                (\<lambda>v. if hv_server_version v \<noteq> DTLS_1_2_VERSION
                     then Err (Crypto ''HelloVerifyRequest version is not DTLS 1.2'')
                     else Ok v)) of
        Inl e \<Rightarrow> (s, Err e)
      | Inr v \<Rightarrow> (s\<lparr>hs_cookie := hv_cookie v\<rparr>, Ok v))"

section \<open>Round trips\<close>

lemma reads_u8: "reads cursor_read_u8 [b] b"
  using reads_then [OF hello_cursor.exact reads_ok, of "[b]" "\<lambda>bs. bs ! 0"] by (simp add: cursor_read_u8_def)

lemma reads_u16: "reads cursor_read_u16 (to_be 2 w) w"
proof -
  have "reads (st_then (read_exact (length (to_be 2 w))) (\<lambda>bs. st_ok (dtls_read_u16 bs))) (to_be 2 w @ [])
      (dtls_read_u16 (to_be 2 w))"
    by (rule reads_then [OF hello_cursor.exact reads_ok])
  moreover have "dtls_read_u16 (to_be 2 w) = w"
    by (simp add: dtls_read_u16_def to_be_unfold)
  ultimately show ?thesis
    by (simp add: cursor_read_u16_def)
qed

lemma reads_array_32: "length v = 32 \<Longrightarrow> reads read_array_32 v v"
  using hello_cursor.exact [of v] by (simp add: read_array_32_def)

lemma reads_vec_u8: "length v \<le> 255 \<Longrightarrow> reads read_vec_u8 ([of_nat (length v)] @ v) v"
  unfolding read_vec_u8_def
  using hello_cursor.exact [of v] by (intro reads_then [OF reads_u8]) (simp add: unat_of_nat)

lemma reads_vec_u16: "length v \<le> 65535 \<Longrightarrow> reads read_vec_u16 (to_be 2 (of_nat (length v) :: u16) @ v) v"
  unfolding read_vec_u16_def
  using hello_cursor.exact [of v] by (intro reads_then [OF reads_u16]) (simp add: unat_of_nat)

lemma read_extension_list_encoded:
  "encode_extension_list xs = Inr bs \<Longrightarrow> length pre + length bs < 2 ^ 64 \<Longrightarrow>
     read_extension_list \<lparr>cur_bytes = pre @ bs, cur_offset = length pre\<rparr> = Inr xs"
proof (induction xs arbitrary: pre bs)
  case Nil
  then show ?case
    by (simp add: read_extension_list.simps remaining_def)
next
  case (Cons x xs)
  let ?t = "to_be 2 (extension_type x)"
  let ?v = "to_be 2 (of_nat (length (ext_data x)) :: u16) @ ext_data x"
  from Cons.prems obtain cs where cs: "encode_extension_list xs = Inr cs" "length (ext_data x) \<le> 65535"
      and bs: "bs = ?t @ ?v @ cs"
    by (auto simp: result_simps validate_u16_len_def split: if_splits)
  have 1: "cursor_read_u16 \<lparr>cur_bytes = pre @ ?t @ (?v @ cs), cur_offset = length pre\<rparr> =
      (\<lparr>cur_bytes = pre @ ?t @ (?v @ cs), cur_offset = length pre + length ?t\<rparr>, Ok (extension_type x))"
    using Cons.prems(2) by (intro readsD [OF reads_u16]) (simp add: bs)
  have 2: "read_vec_u16 \<lparr>cur_bytes = (pre @ ?t) @ ?v @ cs, cur_offset = length (pre @ ?t)\<rparr> =
      (\<lparr>cur_bytes = (pre @ ?t) @ ?v @ cs, cur_offset = length (pre @ ?t) + length ?v\<rparr>, Ok (ext_data x))"
    using Cons.prems(2) by (intro readsD [OF reads_vec_u16 [OF cs(2)]]) (simp add: bs)
  have 3: "read_extension_list \<lparr>cur_bytes = (pre @ ?t @ ?v) @ cs, cur_offset = length (pre @ ?t @ ?v)\<rparr> = Inr xs"
    using Cons.prems(2) by (intro Cons.IH [OF cs(1)]) (simp add: bs)
  show ?case
    unfolding bs using 1 2 3
    by (subst read_extension_list.simps) (simp add: remaining_def add.assoc)
qed

lemma reads_extensions:
  assumes "encode_extension_list xs = Inr bs" and "length bs \<le> 65535"
  shows "reads read_extensions (to_be 2 (of_nat (length bs) :: u16) @ bs) xs"
proof -
  have "read_extension_list (Cursor_new bs) = Inr xs"
    using read_extension_list_encoded [OF assms(1), of "[]"] assms(2) by (simp add: Cursor_new_def)
  then have "reads (st_then read_vec_u16 (\<lambda>bs. st_lift (read_extension_list (Cursor_new bs))))
      ((to_be 2 (of_nat (length bs) :: u16) @ bs) @ []) xs"
    by (intro reads_then [OF reads_vec_u16 [OF assms(2)]] reads_lift)
  then show ?thesis
    by (simp add: reads_def read_extensions_def remaining_def)
qed

lemma reads_end_finish: "reads_end (st_then cursor_finish (\<lambda>_. st_ok x)) [] x"
  by (simp add: reads_end_def st_then_def cursor_finish_def remaining_def st_ok_def)

lemma append_extensions_Ok:
  "append_extensions xs out = (out', Inr ()) \<longleftrightarrow>
     (\<exists>bs. encode_extension_list xs = Inr bs \<and> length bs \<le> 65535 \<and>
       out' = out @ to_be 2 (of_nat (length bs) :: u16) @ bs)"
  by (auto simp: append_extensions_def st_then_def st_lift_def st_modify_def validate_u16_len_def
      split: sum.splits if_splits)

lemma suites_chunks:
  "map (\<lambda>s. from_be [s ! 0, s ! 1]) (chunks 2 (concat (map (to_be 2) cs))) = (cs :: u16 list)"
  "length (concat (map (to_be 2) cs)) = 2 * length (cs :: u16 list)"
proof -
  have "map (\<lambda>s. from_be [s ! 0, s ! 1]) (map (to_be 2) cs) = cs"
    by (simp add: comp_def to_be_unfold)
  moreover have "chunks 2 (concat (map (to_be 2) cs)) = map (to_be 2) cs"
    by (rule chunks_concat) auto
  ultimately show "map (\<lambda>s. from_be [s ! 0, s ! 1]) (chunks 2 (concat (map (to_be 2) cs))) = cs"
    by simp
  show "length (concat (map (to_be 2) cs)) = 2 * length (cs :: u16 list)"
    by (induction cs) simp_all
qed

lemma ClientHello_encode_Ok:
  assumes "ClientHello_encode h = Ok bs"
  obtains xs where "encode_extension_list (ch_extensions h) = Inr xs" "length xs \<le> 65535"
    "length (ch_session_id h) \<le> 255" "length (ch_cookie h) \<le> 255" "length (compression_methods h) \<le> 255"
    "length (cipher_suites h) * 2 \<le> 65535"
    "bs = to_be 2 DTLS_1_2_VERSION @ ch_random h
       @ ([of_nat (length (ch_session_id h))] @ ch_session_id h)
       @ ([of_nat (length (ch_cookie h))] @ ch_cookie h)
       @ (to_be 2 (of_nat (length (cipher_suites h) * 2) :: u16) @ concat (map (to_be 2) (cipher_suites h)))
       @ ([of_nat (length (compression_methods h))] @ compression_methods h)
       @ (to_be 2 (of_nat (length xs) :: u16) @ xs) @ []"
  using assms
  by (auto simp: ClientHello_encode_def Let_def result_simps validate_u8_len_def validate_u16_len_def
      checked_mul_usize_def append_extensions_Ok split: if_splits prod.splits)

lemma ClientHello_decode_encode:
  assumes "length (ch_random h) = 32" "ClientHello_encode h = Ok bs"
  shows "ClientHello_decode bs = Ok h"
proof -
  obtain xs where e: "encode_extension_list (ch_extensions h) = Inr xs" "length xs \<le> 65535"
    "length (ch_session_id h) \<le> 255" "length (ch_cookie h) \<le> 255" "length (compression_methods h) \<le> 255"
    "length (cipher_suites h) * 2 \<le> 65535"
    and bs: "bs = to_be 2 DTLS_1_2_VERSION @ ch_random h
       @ ([of_nat (length (ch_session_id h))] @ ch_session_id h)
       @ ([of_nat (length (ch_cookie h))] @ ch_cookie h)
       @ (to_be 2 (of_nat (length (cipher_suites h) * 2) :: u16) @ concat (map (to_be 2) (cipher_suites h)))
       @ ([of_nat (length (compression_methods h))] @ compression_methods h)
       @ (to_be 2 (of_nat (length xs) :: u16) @ xs) @ []"
    using ClientHello_encode_Ok [OF assms(2)] by blast
  have suites: "reads read_vec_u16
      (to_be 2 (of_nat (length (cipher_suites h) * 2) :: u16) @ concat (map (to_be 2) (cipher_suites h)))
      (concat (map (to_be 2) (cipher_suites h)))"
    using reads_vec_u16 [of "concat (map (to_be 2) (cipher_suites h))"] e(6)
    by (simp only: suites_chunks(2) mult.commute)
  have fin: "reads_end (st_then cursor_finish (\<lambda>_. st_ok
      \<lparr>ch_random = ch_random h, ch_session_id = ch_session_id h, ch_cookie = ch_cookie h,
       cipher_suites = cipher_suites h, compression_methods = compression_methods h,
       ch_extensions = ch_extensions h\<rparr>)) [] h"
    using reads_end_finish [of h] by (cases h) simp
  have "length bs < 2 ^ 64"
    using e assms(1) unfolding bs by (simp add: suites_chunks(2) del: length_concat)
  then show ?thesis
    unfolding ClientHello_decode_def bs
    by (intro reads_end_whole [rotated])
      (simp only: suites_chunks simp_thms if_False mod_mult_self1_is_0
        | rule fin reads_end_then [OF reads_u16] reads_end_then [OF reads_array_32 [OF assms(1)]]
            reads_end_then [OF suites] reads_end_then [OF reads_vec_u8 [OF e(3)]]
            reads_end_then [OF reads_vec_u8 [OF e(4)]] reads_end_then [OF reads_vec_u8 [OF e(5)]]
            reads_end_then [OF reads_extensions [OF e(1,2)]])+
qed

lemma ServerHello_encode_Ok:
  assumes "ServerHello_encode h = Ok bs"
  obtains xs where "encode_extension_list (sh_extensions h) = Inr xs" "length xs \<le> 65535"
    "length (sh_session_id h) \<le> 255"
    "bs = to_be 2 DTLS_1_2_VERSION @ sh_random h
       @ ([of_nat (length (sh_session_id h))] @ sh_session_id h)
       @ to_be 2 (cipher_suite h) @ [compression_method h]
       @ (to_be 2 (of_nat (length xs) :: u16) @ xs) @ []"
  using assms
  by (auto simp: ServerHello_encode_def Let_def result_simps validate_u8_len_def append_extensions_Ok
      split: if_splits prod.splits)

lemma ServerHello_decode_encode:
  assumes "length (sh_random h) = 32" "ServerHello_encode h = Ok bs"
  shows "ServerHello_decode bs = Ok h"
proof -
  obtain xs where e: "encode_extension_list (sh_extensions h) = Inr xs" "length xs \<le> 65535"
    "length (sh_session_id h) \<le> 255"
    and bs: "bs = to_be 2 DTLS_1_2_VERSION @ sh_random h
       @ ([of_nat (length (sh_session_id h))] @ sh_session_id h)
       @ to_be 2 (cipher_suite h) @ [compression_method h]
       @ (to_be 2 (of_nat (length xs) :: u16) @ xs) @ []"
    using ServerHello_encode_Ok [OF assms(2)] by blast
  have fin: "reads_end (st_then cursor_finish (\<lambda>_. st_ok
      \<lparr>sh_random = sh_random h, sh_session_id = sh_session_id h, cipher_suite = cipher_suite h,
       compression_method = compression_method h, sh_extensions = sh_extensions h\<rparr>)) [] h"
    using reads_end_finish [of h] by (cases h) simp
  have "length bs < 2 ^ 64"
    using e assms(1) unfolding bs by simp
  then show ?thesis
    unfolding ServerHello_decode_def bs
    by (intro reads_end_whole [rotated])
      (simp only: simp_thms if_False
        | rule fin reads_end_then [OF reads_u16] reads_end_then [OF reads_u8]
            reads_end_then [OF reads_array_32 [OF assms(1)]] reads_end_then [OF reads_vec_u8 [OF e(3)]]
            reads_end_then [OF reads_extensions [OF e(1,2)]])+
qed

lemma HelloVerifyRequest_decode_encode:
  assumes "HelloVerifyRequest_encode h = Ok bs"
  shows "HelloVerifyRequest_decode bs = Ok h"
proof -
  have l: "length (hv_cookie h) \<le> 255"
    and bs: "bs = to_be 2 (hv_server_version h) @ ([of_nat (length (hv_cookie h))] @ hv_cookie h) @ []"
    using assms by (auto simp: HelloVerifyRequest_encode_def result_simps validate_u8_len_def split: if_splits)
  have fin: "reads_end (st_then cursor_finish (\<lambda>_. st_ok
      \<lparr>hv_server_version = hv_server_version h, hv_cookie = hv_cookie h\<rparr>)) [] h"
    using reads_end_finish [of h] by (cases h) simp
  have "length bs < 2 ^ 64"
    using l unfolding bs by simp
  then show ?thesis
    unfolding HelloVerifyRequest_decode_def bs
    by (intro reads_end_whole [rotated])
      (assumption | rule fin reads_end_then [OF reads_u16] reads_end_then [OF reads_vec_u8 [OF l]])+
qed

text \<open>C27: Every ClientHello and ServerHello with a 32-byte random that can be encoded, and every
  HelloVerifyRequest that can be encoded, is decoded back to itself; what is sent is what the peer reads,
  the order and contents of cipher suites and extensions included.\<close>

theorem hello_roundtrip:
  assumes "length (ch_random c) = 32" "ClientHello_encode c = Ok cb"
    and "length (sh_random s) = 32" "ServerHello_encode s = Ok sb"
    and "HelloVerifyRequest_encode v = Ok vb"
  shows "ClientHello_decode cb = Ok c \<and> ServerHello_decode sb = Ok s \<and> HelloVerifyRequest_decode vb = Ok v"
  using assms ClientHello_decode_encode ServerHello_decode_encode HelloVerifyRequest_decode_encode by blast

theorem hello_roundtrip_witness:
  "\<exists>cb sb vb.
     ClientHello_encode (thread_profile (replicate 32 7) [1, 2]) = Ok cb \<and>
     ClientHello_decode cb = Ok (thread_profile (replicate 32 7) [1, 2]) \<and>
     ServerHello_decode sb = Ok \<lparr>sh_random = replicate 32 9, sh_session_id = [], cipher_suite = 0xc0ff,
       compression_method = 0, sh_extensions = [ec_point_formats_extension]\<rparr> \<and>
     HelloVerifyRequest_decode vb = Ok \<lparr>hv_server_version = DTLS_1_2_VERSION, hv_cookie = [5]\<rparr>"
proof -
  let ?c = "thread_profile (replicate 32 7) [1, 2]"
  let ?s = "\<lparr>sh_random = replicate 32 9, sh_session_id = [], cipher_suite = 0xc0ff,
       compression_method = 0, sh_extensions = [ec_point_formats_extension]\<rparr>"
  let ?v = "\<lparr>hv_server_version = DTLS_1_2_VERSION, hv_cookie = [5]\<rparr>"
  obtain cb where c: "ClientHello_encode ?c = Ok cb"
    by (simp add: ClientHello_encode_def thread_profile_def validate_u8_len_def validate_u16_len_def
        checked_mul_usize_def append_extensions_def st_then_def st_lift_def st_modify_def
        supported_groups_extension_def signature_algorithms_extension_def ec_point_formats_extension_def)
  obtain sb where s: "ServerHello_encode ?s = Ok sb"
    by (simp add: ServerHello_encode_def validate_u8_len_def validate_u16_len_def
        append_extensions_def st_then_def st_lift_def st_modify_def ec_point_formats_extension_def)
  obtain vb where v: "HelloVerifyRequest_encode ?v = Ok vb"
    by (simp add: HelloVerifyRequest_encode_def validate_u8_len_def)
  have "length (ch_random ?c) = 32" "length (sh_random ?s) = 32"
    by (simp_all add: thread_profile_def)
  from hello_roundtrip [OF this(1) c this(2) s v] c show ?thesis
    by blast
qed

section \<open>Cookie retry\<close>

lemma parse_unfragmented_record_encoded:
  assumes "HandshakeMessage_encode m = Ok bs" "content_type (rec_header r) = Handshake" "rec_payload r = bs"
  shows "parse_unfragmented_handshake_record r (hm_type m) = Ok m"
proof -
  have l: "length (hm_payload m) \<le> 16777215" and bs: "bs = header_bytes (whole_header m) @ hm_payload m"
    using assms(1) by (auto simp: HandshakeMessage_encode_eq split: if_splits)
  then have "HandshakeHeader_parse bs = Ok (whole_header m)"
    using validate_whole HandshakeHeader_parse_encode [of "whole_header m" _ "hm_payload m"]
    by (simp add: HandshakeHeader_encode_Ok)
  then show ?thesis
    using l assms(2,3)
    by (simp add: parse_unfragmented_handshake_record_def HandshakeFragment_parse_def HandshakeHeader_LEN_def
        bs whole_header_def checked_add_usize_def)
qed

definition hello_of_state :: "DtlsClientHelloState \<Rightarrow> ClientHello" where
  "hello_of_state s =
     (case hs_ecjpake_kkpp s of
        Some kkpp \<Rightarrow> thread_profile_with_ecjpake (hs_random s) (hs_cookie s) kkpp
      | None \<Rightarrow> thread_profile (hs_random s) (hs_cookie s))"

lemmas profile_defs = thread_profile_def thread_profile_with_ecjpake_def ClientHello_set_ecjpake_kkpp_def
  supported_groups_extension_def signature_algorithms_extension_def ec_point_formats_extension_def
  max_fragment_length_extension_def dtls_consts

lemma hello_of_state_encodes:
  assumes "length (hs_random s) = 32" "length (hs_cookie s) \<le> 255"
    "pred_option (\<lambda>k. length k \<le> 60000) (hs_ecjpake_kkpp s)"
  obtains bs where "ClientHello_encode (hello_of_state s) = Ok bs" "length bs \<le> 61000"
    "ClientHello_decode bs = Ok (hello_of_state s)"
proof -
  obtain bs where bs: "ClientHello_encode (hello_of_state s) = Ok bs" "length bs \<le> 61000"
    using assms
    by (cases "hs_ecjpake_kkpp s")
      (simp_all add: hello_of_state_def profile_defs ClientHello_encode_def validate_u8_len_def
        validate_u16_len_def checked_mul_usize_def append_extensions_def st_then_def st_lift_def st_modify_def)
  moreover have "length (ch_random (hello_of_state s)) = 32"
    using assms(1) by (simp add: hello_of_state_def profile_defs split: option.split)
  ultimately show thesis
    using that ClientHello_decode_encode by blast
qed

lemma next_client_hello_record_Ok:
  assumes "length (hs_random s) = 32" "length (hs_cookie s) \<le> 255"
    "pred_option (\<lambda>k. length k \<le> 60000) (hs_ecjpake_kkpp s)"
  obtains r body where
    "next_client_hello_record s =
      (s\<lparr>next_message_sequence := next_message_sequence s + 1,
         last_client_hello_sequence := Some (next_message_sequence s),
         next_record_sequence := next_record_sequence s + 1\<rparr>, Ok r)"
    "epoch (rec_header r) = 0" "sequence_number (rec_header r) = next_record_sequence s"
    "content_type (rec_header r) = Handshake"
    "parse_unfragmented_handshake_record r HandshakeType.ClientHello =
       Ok \<lparr>hm_type = HandshakeType.ClientHello, hm_seq = next_message_sequence s, hm_payload = body\<rparr>"
    "ClientHello_decode body = Ok (hello_of_state s)"
proof -
  obtain body where body: "ClientHello_encode (hello_of_state s) = Ok body" "length body \<le> 61000"
      "ClientHello_decode body = Ok (hello_of_state s)"
    using hello_of_state_encodes [OF assms] by blast
  let ?m = "\<lparr>hm_type = HandshakeType.ClientHello, hm_seq = next_message_sequence s, hm_payload = body\<rparr>"
  obtain bs where bs: "HandshakeMessage_encode ?m = Ok bs" "length bs \<le> 61012"
    using body(2) by (simp add: HandshakeMessage_encode_eq)
  define r where "r = \<lparr>rec_header = \<lparr>content_type = Handshake, rec_version = DTLS_1_2_VERSION, epoch = 0,
      sequence_number = next_record_sequence s, rec_length = of_nat (length bs)\<rparr>, rec_payload = bs\<rparr>"
  have "DtlsRecord_new Handshake 0 (next_record_sequence s) bs = Ok r"
    using bs(2) by (simp add: DtlsRecord_new_def r_def)
  then have "next_client_hello_record s =
      (s\<lparr>next_message_sequence := next_message_sequence s + 1,
         last_client_hello_sequence := Some (next_message_sequence s),
         next_record_sequence := next_record_sequence s + 1\<rparr>, Ok r)"
    using body(1) bs(1)
    by (simp add: next_client_hello_record_def hello_of_state_def Let_def st_then_def st_lift_def
        st_modify_def st_ok_def)
  moreover have "parse_unfragmented_handshake_record r HandshakeType.ClientHello = Ok ?m"
    using parse_unfragmented_record_encoded [OF bs(1), of r] by (simp add: r_def)
  ultimately show thesis
    using that body(3) by (simp add: r_def)
qed

lemma read_vec_u8_length:
  assumes "read_vec_u8 c = (c', Ok v)"
  shows "length v \<le> 255"
proof -
  obtain c1 n where "read_exact (unat (n :: u8)) c1 = (c', Ok v)"
    using assms by (auto simp: read_vec_u8_def st_then_def split: prod.splits sum.splits)
  then show ?thesis
    using hello_cursor.read_length unat_u8_le by metis
qed

lemma HelloVerifyRequest_decode_cookie:
  assumes "HelloVerifyRequest_decode bs = Ok v"
  shows "length (hv_cookie v) \<le> 255"
  using assms read_vec_u8_length
  by (fastforce simp: HelloVerifyRequest_decode_def st_then_def st_ok_def split: prod.splits sum.splits)

lemma hello_of_state_fields:
  "ch_cookie (hello_of_state s) = hs_cookie s \<and> ch_random (hello_of_state s) = hs_random s \<and>
   cipher_suites (hello_of_state s) = [TLS_ECJPAKE_WITH_AES_128_CCM_8, TLS_EMPTY_RENEGOTIATION_INFO_SCSV] \<and>
   ClientHello_ecjpake_kkpp (hello_of_state s) = hs_ecjpake_kkpp s"
  by (cases "hs_ecjpake_kkpp s")
    (simp_all add: hello_of_state_def profile_defs ClientHello_ecjpake_kkpp_def find_extension_def)

lemma handle_hello_verify_request_Ok:
  assumes "handle_hello_verify_request r s = (s', Ok v)"
  shows "s' = s\<lparr>hs_cookie := hv_cookie v\<rparr>" "length (hv_cookie v) \<le> 255"
    "\<exists>m. parse_unfragmented_handshake_record r HandshakeType.HelloVerifyRequest = Ok m \<and>
       last_client_hello_sequence s = Some (hm_seq m) \<and> HelloVerifyRequest_decode (hm_payload m) = Ok v"
  using assms HelloVerifyRequest_decode_cookie
  by (auto simp: handle_hello_verify_request_def and_then_def split: sum.splits if_splits)

lemma handle_hello_verify_request_Err:
  "handle_hello_verify_request r s = (s', Err e) \<Longrightarrow> s' = s"
  by (auto simp: handle_hello_verify_request_def split: sum.splits)

text \<open>The cookie exchange. When the client has accepted a HelloVerifyRequest, the request
answered the last ClientHello sent (its message sequence is the recorded one), and the client's
next ClientHello record exists, is an unencrypted handshake record with the next record sequence
number, and parses on the server's side into a ClientHello with the next message sequence number
that carries exactly the server's cookie, the same random, the Thread cipher suites and the same
ECJPAKE key share; the state then records that message as the last one, so the same
HelloVerifyRequest is refused when it is replayed.\<close>

theorem cookie_retry:
  assumes verify: "handle_hello_verify_request r s = (s', Ok v)"
    and random: "length (hs_random s) = 32"
    and kkpp: "pred_option (\<lambda>k. length k \<le> 60000) (hs_ecjpake_kkpp s)"
    and fresh: "last_client_hello_sequence s \<noteq> Some (next_message_sequence s)"
  shows "\<exists>m r' s'' hello body.
    parse_unfragmented_handshake_record r HandshakeType.HelloVerifyRequest = Ok m \<and>
    last_client_hello_sequence s = Some (hm_seq m) \<and>
    HelloVerifyRequest_decode (hm_payload m) = Ok v \<and>
    next_client_hello_record s' = (s'', Ok r') \<and>
    epoch (rec_header r') = 0 \<and> sequence_number (rec_header r') = next_record_sequence s \<and>
    parse_unfragmented_handshake_record r' HandshakeType.ClientHello =
      Ok \<lparr>hm_type = HandshakeType.ClientHello, hm_seq = next_message_sequence s, hm_payload = body\<rparr> \<and>
    ClientHello_decode body = Ok hello \<and>
    ch_cookie hello = hv_cookie v \<and> ch_random hello = hs_random s \<and>
    cipher_suites hello = [TLS_ECJPAKE_WITH_AES_128_CCM_8, TLS_EMPTY_RENEGOTIATION_INFO_SCSV] \<and>
    ClientHello_ecjpake_kkpp hello = hs_ecjpake_kkpp s \<and>
    last_client_hello_sequence s'' = Some (next_message_sequence s) \<and>
    fst (handle_hello_verify_request r s'') = s'' \<and>
    snd (handle_hello_verify_request r s'') =
      Err (Crypto ''HelloVerifyRequest sequence does not match ClientHello'')"
proof -
  note ok = handle_hello_verify_request_Ok [OF verify]
  obtain m where m: "parse_unfragmented_handshake_record r HandshakeType.HelloVerifyRequest = Ok m"
      "last_client_hello_sequence s = Some (hm_seq m)" "HelloVerifyRequest_decode (hm_payload m) = Ok v"
    using ok(3) by blast
  obtain r' body where r': "next_client_hello_record s' =
      (s'\<lparr>next_message_sequence := next_message_sequence s' + 1,
         last_client_hello_sequence := Some (next_message_sequence s'),
         next_record_sequence := next_record_sequence s' + 1\<rparr>, Ok r')" (is "_ = (?s'', _)")
    "epoch (rec_header r') = 0" "sequence_number (rec_header r') = next_record_sequence s'"
    "parse_unfragmented_handshake_record r' HandshakeType.ClientHello =
       Ok \<lparr>hm_type = HandshakeType.ClientHello, hm_seq = next_message_sequence s', hm_payload = body\<rparr>"
    "ClientHello_decode body = Ok (hello_of_state s')"
    by (rule next_client_hello_record_Ok [of s']) (use random kkpp ok(1,2) in simp_all)
  have hello: "ch_cookie (hello_of_state s') = hv_cookie v" "ch_random (hello_of_state s') = hs_random s"
      "cipher_suites (hello_of_state s') = [TLS_ECJPAKE_WITH_AES_128_CCM_8, TLS_EMPTY_RENEGOTIATION_INFO_SCSV]"
      "ClientHello_ecjpake_kkpp (hello_of_state s') = hs_ecjpake_kkpp s"
    unfolding ok(1) by (simp_all add: hello_of_state_fields)
  have "handle_hello_verify_request r ?s'' =
      (?s'', Err (Crypto ''HelloVerifyRequest sequence does not match ClientHello''))"
    using m(1,2) fresh ok(1) by (auto simp: handle_hello_verify_request_def)
  with m r' hello ok(1) show ?thesis
    by (intro exI [of _ m] exI [of _ r'] exI [of _ ?s''] exI [of _ "hello_of_state s'"] exI [of _ body]) simp
qed

definition verify_example :: DtlsRecord where
  "verify_example =
     \<lparr>rec_header = \<lparr>content_type = Handshake, rec_version = DTLS_1_2_VERSION, epoch = 0, sequence_number = 0,
        rec_length = 17\<rparr>,
      rec_payload = [3, 0, 0, 5, 0, 0, 0, 0, 0, 0, 0, 5, 0xfe, 0xfd, 2, 0xca, 0xfe]\<rparr>"

definition state_example :: DtlsClientHelloState where
  "state_example = \<lparr>hs_random = replicate 32 7, hs_cookie = [], hs_ecjpake_kkpp = Some [1, 2],
     next_record_sequence = 1, next_message_sequence = 1, last_client_hello_sequence = Some 0\<rparr>"

lemma state_example_first:
  "fst (next_client_hello_record (with_ecjpake_kkpp (replicate 32 7) [1, 2])) = state_example"
proof -
  let ?s = "with_ecjpake_kkpp (replicate 32 7) [1, 2]"
  obtain r where "next_client_hello_record ?s = (?s\<lparr>next_message_sequence := next_message_sequence ?s + 1,
         last_client_hello_sequence := Some (next_message_sequence ?s),
         next_record_sequence := next_record_sequence ?s + 1\<rparr>, Ok r)"
    by (rule next_client_hello_record_Ok [of ?s]) (simp_all add: with_ecjpake_kkpp_def DtlsClientHelloState_new_def)
  then show ?thesis
    by (simp add: state_example_def with_ecjpake_kkpp_def DtlsClientHelloState_new_def)
qed

lemma verify_example_accepted:
  "handle_hello_verify_request verify_example state_example =
   (state_example\<lparr>hs_cookie := [0xca, 0xfe]\<rparr>,
    Ok \<lparr>hv_server_version = DTLS_1_2_VERSION, hv_cookie = [0xca, 0xfe]\<rparr>)"
proof -
  let ?v = "\<lparr>hv_server_version = DTLS_1_2_VERSION, hv_cookie = [0xca, 0xfe]\<rparr>"
  let ?m = "\<lparr>hm_type = HandshakeType.HelloVerifyRequest, hm_seq = 0, hm_payload = [0xfe, 0xfd, 2, 0xca, 0xfe]\<rparr>"
  have "HelloVerifyRequest_encode ?v = Ok [0xfe, 0xfd, 2, 0xca, 0xfe]"
    by (simp add: HelloVerifyRequest_encode_def validate_u8_len_def DTLS_1_2_VERSION_def to_be_unfold)
  then have v: "HelloVerifyRequest_decode [0xfe, 0xfd, 2, 0xca, 0xfe] = Ok ?v"
    by (rule HelloVerifyRequest_decode_encode)
  have "HandshakeMessage_encode ?m = Ok (rec_payload verify_example)"
    by (simp add: HandshakeMessage_encode_eq header_bytes_def whole_header_def verify_example_def to_be_unfold)
  from parse_unfragmented_record_encoded [OF this, of verify_example]
  have "parse_unfragmented_handshake_record verify_example HandshakeType.HelloVerifyRequest = Ok ?m"
    by (simp add: verify_example_def)
  with v show ?thesis
    by (simp add: handle_hello_verify_request_def state_example_def)
qed

theorem cookie_retry_witness:
  "\<exists>s'' r' body hello.
     next_client_hello_record (state_example\<lparr>hs_cookie := [0xca, 0xfe]\<rparr>) = (s'', Ok r') \<and>
     sequence_number (rec_header r') = 1 \<and>
     parse_unfragmented_handshake_record r' HandshakeType.ClientHello =
       Ok \<lparr>hm_type = HandshakeType.ClientHello, hm_seq = 1, hm_payload = body\<rparr> \<and>
     ClientHello_decode body = Ok hello \<and> ch_cookie hello = [0xca, 0xfe] \<and>
     ClientHello_ecjpake_kkpp hello = Some [1, 2]"
proof -
  have s: "hs_random state_example = replicate 32 7" "hs_ecjpake_kkpp state_example = Some [1, 2]"
      "last_client_hello_sequence state_example = Some 0" "next_message_sequence state_example = 1"
      "next_record_sequence state_example = 1"
    by (simp_all add: state_example_def)
  then have "length (hs_random state_example) = 32"
      "pred_option (\<lambda>k. length k \<le> 60000) (hs_ecjpake_kkpp state_example)"
      "last_client_hello_sequence state_example \<noteq> Some (next_message_sequence state_example)"
    by simp_all
  from cookie_retry [OF verify_example_accepted this] show ?thesis
    unfolding s DtlsClientHelloState.simps HelloVerifyRequest.simps by blast
qed

end
