(* ===== verification/P256.thy ===== *)
theory P256
  imports Foreign
begin

text \<open>
  The third-party pieces EC J-PAKE calls: a random number generator (\<^verbatim>\<open>rand_core\<close>), the scalar field
  and the group of P-256 (\<^verbatim>\<open>p256\<close>, \<^verbatim>\<open>elliptic-curve\<close>) with their byte encodings. They are one record of
  functions, over a type of generator states, of scalars and of points; every definition that uses
  them takes the record as an argument. What the code relies on is stated by named predicates.
  \<open>p256_laws\<close> says that the group is cyclic of an order without zero divisors, the scalars
  are the residues of that order, and that the encodings are inverse to their decoders.
  \<open>rng_live\<close> says that a generator does not draw the zero scalar forever, \<open>rng_fills\<close> that it fills a
  buffer completely.
  A computation that draws from the generator maps its state to a result and the next state, or to
  \<open>None\<close> when it never returns.
\<close>

record ('r, 's, 'p) p256 =
  fill_bytes :: "nat \<Rightarrow> 'r \<Rightarrow> bytes \<times> 'r"
  Scalar_random :: "'r \<Rightarrow> 's \<times> 'r"
  Scalar_is_zero :: "'s \<Rightarrow> bool"
  Scalar_ONE :: 's
  Scalar_mul :: "'s \<Rightarrow> 's \<Rightarrow> 's"
  Scalar_sub :: "'s \<Rightarrow> 's \<Rightarrow> 's"
  Scalar_from_repr :: "bytes \<Rightarrow> 's option"
  Scalar_to_bytes :: "'s \<Rightarrow> bytes"
  Scalar_reduce_bytes :: "bytes \<Rightarrow> 's"
  GENERATOR :: 'p
  point_add :: "'p \<Rightarrow> 'p \<Rightarrow> 'p"
  point_sub :: "'p \<Rightarrow> 'p \<Rightarrow> 'p"
  point_mul :: "'p \<Rightarrow> 's \<Rightarrow> 'p"
  point_is_identity :: "'p \<Rightarrow> bool"
  EncodedPoint_valid :: "bytes \<Rightarrow> bool"
  AffinePoint_decode :: "bytes \<Rightarrow> 'p option"
  to_encoded_point :: "'p \<Rightarrow> bytes"
  EncodedPoint_x :: "bytes \<Rightarrow> bytes option"

type_synonym ('r, 'a) rand = "'r \<Rightarrow> ('a \<times> 'r) option"

definition r_ret :: "'a \<Rightarrow> ('r, 'a) rand" where
  "r_ret x r = Some (x, r)"

definition r_then :: "('r, 'a) rand \<Rightarrow> ('a \<Rightarrow> ('r, 'b) rand) \<Rightarrow> ('r, 'b) rand" where
  "r_then m f r = (case m r of None \<Rightarrow> None | Some (x, r') \<Rightarrow> f x r')"

lemma r_then_simps [simp]:
  "r_then (r_ret x) f = f x"
  "m r = Some (x, r') \<Longrightarrow> r_then m f r = f x r'"
  by (simp_all add: r_then_def r_ret_def fun_eq_iff)

text \<open>A \<open>&mut self\<close> method that also draws from the generator.\<close>

type_synonym ('r, 's, 'e, 'a) rand_action = "'s \<Rightarrow> ('r, 's \<times> ('e + 'a)) rand"

definition ra_lift :: "('s, 'e, 'a) action \<Rightarrow> ('r, 's, 'e, 'a) rand_action" where
  "ra_lift m s = r_ret (m s)"

definition ra_then ::
  "('r, 's, 'e, 'a) rand_action \<Rightarrow> ('a \<Rightarrow> ('r, 's, 'e, 'b) rand_action) \<Rightarrow> ('r, 's, 'e, 'b) rand_action" where
  "ra_then m f s =
     r_then (m s) (\<lambda>(s', res). case res of Inl e \<Rightarrow> r_ret (s', Inl e) | Inr v \<Rightarrow> f v s')"

text \<open>What holds of every value such a computation may return.\<close>

definition r_outcome :: "('a \<Rightarrow> bool) \<Rightarrow> ('r, 'a) rand \<Rightarrow> bool" where
  "r_outcome G m \<longleftrightarrow> (\<forall>r x r'. m r = Some (x, r') \<longrightarrow> G x)"

lemma r_outcome_ret [simp]: "r_outcome G (r_ret x) \<longleftrightarrow> G x"
  by (simp add: r_outcome_def r_ret_def)

lemma r_outcome_True [simp]: "r_outcome (\<lambda>_. True) m"
  by (simp add: r_outcome_def)

lemma r_outcome_lift [simp]: "r_outcome G (ra_lift m s) \<longleftrightarrow> G (m s)"
  by (simp add: ra_lift_def)

lemma r_outcome_then: "r_outcome H m \<Longrightarrow> (\<And>x. H x \<Longrightarrow> r_outcome G (f x)) \<Longrightarrow> r_outcome G (r_then m f)"
  by (fastforce simp: r_outcome_def r_then_def split: option.splits)

lemma r_outcome_ra_then:
  assumes "r_outcome H (m s)" "\<And>t e. H (t, Inl e) \<Longrightarrow> G (t, Inl e)" "\<And>t v. H (t, Inr v) \<Longrightarrow> r_outcome G (f v t)"
  shows "r_outcome G (ra_then m f s)"
  unfolding ra_then_def
  by (rule r_outcome_then [OF assms(1)]) (use assms(2,3) in \<open>auto split: sum.split\<close>)

section \<open>What the code relies on\<close>

inductive rng_reach :: "('r, 's, 'p) p256 \<Rightarrow> 'r \<Rightarrow> 'r \<Rightarrow> bool" for c where
  rng_here: "rng_reach c r r"
| rng_draw: "rng_reach c r r' \<Longrightarrow> rng_reach c r (snd (Scalar_random c r'))"
| rng_fill: "rng_reach c r r' \<Longrightarrow> rng_reach c r (snd (fill_bytes c n r'))"

primrec nth_draw :: "('r, 's, 'p) p256 \<Rightarrow> nat \<Rightarrow> 'r \<Rightarrow> 's" where
  "nth_draw c 0 r = fst (Scalar_random c r)"
| "nth_draw c (Suc n) r = nth_draw c n (snd (Scalar_random c r))"

definition rng_live :: "('r, 's, 'p) p256 \<Rightarrow> 'r \<Rightarrow> bool" where
  "rng_live c r \<longleftrightarrow> (\<forall>r'. rng_reach c r r' \<longrightarrow> (\<exists>n. \<not> Scalar_is_zero c (nth_draw c n r')))"

definition rng_fills :: "('r, 's, 'p) p256 \<Rightarrow> bool" where
  "rng_fills c \<longleftrightarrow> (\<forall>n r. length (fst (fill_bytes c n r)) = n)"

lemma rng_reach_trans: "rng_reach c r' r'' \<Longrightarrow> rng_reach c r r' \<Longrightarrow> rng_reach c r r''"
  by (induction rule: rng_reach.induct) (auto intro: rng_reach.intros)

lemma rng_live_reach: "rng_live c r \<Longrightarrow> rng_reach c r r' \<Longrightarrow> rng_live c r'"
  using rng_reach_trans unfolding rng_live_def by meson

lemma rng_live_draw: "rng_live c r \<Longrightarrow> Scalar_random c r = (x, r') \<Longrightarrow> rng_live c r'"
  using rng_live_reach rng_draw [OF rng_here] by (metis snd_conv)

lemma rng_live_fill: "rng_live c r \<Longrightarrow> fill_bytes c n r = (bs, r') \<Longrightarrow> rng_live c r'"
  using rng_live_reach rng_fill [OF rng_here] by (metis snd_conv)

text \<open>
  The group and the field. \<open>val\<close> gives a scalar's residue and \<open>dl\<close> a point's discrete
  logarithm to the generator; they name what the laws speak of and are not computed by the program.
\<close>

definition no_zero_divisors :: "int \<Rightarrow> bool" where
  "no_zero_divisors q \<longleftrightarrow> 1 < q \<and> (\<forall>a b. a * b mod q = 0 \<longrightarrow> a mod q = 0 \<or> b mod q = 0)"

definition p256_scalar_laws :: "('r, 's, 'p) p256 \<Rightarrow> int \<Rightarrow> ('s \<Rightarrow> int) \<Rightarrow> bool" where
  "p256_scalar_laws c q val \<longleftrightarrow>
     no_zero_divisors q \<and>
     (\<forall>a. 0 \<le> val a \<and> val a < q) \<and>
     (\<forall>a. Scalar_is_zero c a \<longleftrightarrow> val a = 0) \<and>
     val (Scalar_ONE c) = 1 \<and>
     (\<forall>a b. val (Scalar_mul c a b) = val a * val b mod q) \<and>
     (\<forall>a b. val (Scalar_sub c a b) = (val a - val b) mod q) \<and>
     (\<forall>a. length (Scalar_to_bytes c a) = 32 \<and> Scalar_from_repr c (Scalar_to_bytes c a) = Some a)"

definition p256_point_laws ::
  "('r, 's, 'p) p256 \<Rightarrow> int \<Rightarrow> ('s \<Rightarrow> int) \<Rightarrow> ('p \<Rightarrow> int) \<Rightarrow> bool" where
  "p256_point_laws c q val dl \<longleftrightarrow>
     (\<forall>p. 0 \<le> dl p \<and> dl p < q) \<and> inj dl \<and>
     dl (GENERATOR c) = 1 \<and>
     (\<forall>p. point_is_identity c p \<longleftrightarrow> dl p = 0) \<and>
     (\<forall>p p'. dl (point_add c p p') = (dl p + dl p') mod q) \<and>
     (\<forall>p p'. dl (point_sub c p p') = (dl p - dl p') mod q) \<and>
     (\<forall>p a. dl (point_mul c p a) = dl p * val a mod q) \<and>
     (\<forall>p. EncodedPoint_valid c (to_encoded_point c p) \<and> AffinePoint_decode c (to_encoded_point c p) = Some p) \<and>
     (\<forall>p. \<not> point_is_identity c p \<longrightarrow>
        length (to_encoded_point c p) = 65 \<and>
        (\<exists>x. EncodedPoint_x c (to_encoded_point c p) = Some x \<and> length x = 32))"

definition p256_laws :: "('r, 's, 'p) p256 \<Rightarrow> int \<Rightarrow> ('s \<Rightarrow> int) \<Rightarrow> ('p \<Rightarrow> int) \<Rightarrow> bool" where
  "p256_laws c q val dl \<longleftrightarrow> p256_scalar_laws c q val \<and> p256_point_laws c q val dl"

lemma mod_mult_nonzero:
  assumes "no_zero_divisors q" "a mod q \<noteq> 0" "b mod q \<noteq> 0"
  shows "a * b mod q \<noteq> 0"
  using assms unfolding no_zero_divisors_def by metis

lemma scalar_lawsD:
  assumes "p256_laws c q val dl"
  shows "no_zero_divisors q" "0 \<le> val a" "val a < q" "Scalar_is_zero c a \<longleftrightarrow> val a = 0" "val (Scalar_ONE c) = 1"
    "val (Scalar_mul c a b) = val a * val b mod q" "val (Scalar_sub c a b) = (val a - val b) mod q"
    "length (Scalar_to_bytes c a) = 32" "Scalar_from_repr c (Scalar_to_bytes c a) = Some a"
  using assms unfolding p256_laws_def p256_scalar_laws_def by blast+

lemma point_lawsD:
  assumes "p256_laws c q val dl"
  shows "0 \<le> dl p" "dl p < q" "dl p = dl p' \<longleftrightarrow> p = p'" "dl (GENERATOR c) = 1"
    "point_is_identity c p \<longleftrightarrow> dl p = 0"
    "dl (point_add c p p') = (dl p + dl p') mod q" "dl (point_sub c p p') = (dl p - dl p') mod q"
    "dl (point_mul c p a) = dl p * val a mod q"
  using assms unfolding p256_laws_def p256_point_laws_def inj_def by blast+

lemma encoding_lawsD:
  assumes "p256_laws c q val dl" "dl p \<noteq> 0"
  shows "length (to_encoded_point c p) = 65" "EncodedPoint_valid c (to_encoded_point c p)"
    "AffinePoint_decode c (to_encoded_point c p) = Some p"
    "\<exists>x. EncodedPoint_x c (to_encoded_point c p) = Some x \<and> length x = 32"
  using assms unfolding p256_laws_def p256_point_laws_def by blast+

lemma decode_encoded: "p256_laws c q val dl \<Longrightarrow> AffinePoint_decode c (to_encoded_point c p) = Some p"
  unfolding p256_laws_def p256_point_laws_def by blast

section \<open>A small instance\<close>

text \<open>
  The residues modulo 5 under addition, with a generator that counts, satisfy the laws.
\<close>

datatype z5 = Z0 | Z1 | Z2 | Z3 | Z4

primrec z5_val :: "z5 \<Rightarrow> int" where
  "z5_val Z0 = 0" | "z5_val Z1 = 1" | "z5_val Z2 = 2" | "z5_val Z3 = 3" | "z5_val Z4 = 4"

definition z5_of :: "int \<Rightarrow> z5" where
  "z5_of n = (if n mod 5 = 0 then Z0 else if n mod 5 = 1 then Z1 else if n mod 5 = 2 then Z2
     else if n mod 5 = 3 then Z3 else Z4)"

definition toy_p256 :: "(int, z5, z5) p256" where
  "toy_p256 =
     \<lparr>fill_bytes = \<lambda>n r. (replicate n (of_int r), r),
      Scalar_random = \<lambda>r. (z5_of r, r + 1),
      Scalar_is_zero = \<lambda>a. a = Z0,
      Scalar_ONE = Z1,
      Scalar_mul = \<lambda>a b. z5_of (z5_val a * z5_val b),
      Scalar_sub = \<lambda>a b. z5_of (z5_val a - z5_val b),
      Scalar_from_repr = \<lambda>bs. Some (z5_of (uint (bs ! 31))),
      Scalar_to_bytes = \<lambda>a. replicate 31 0 @ [of_int (z5_val a)],
      Scalar_reduce_bytes = \<lambda>bs. z5_of (uint (bs ! 31)),
      GENERATOR = Z1,
      point_add = \<lambda>a b. z5_of (z5_val a + z5_val b),
      point_sub = \<lambda>a b. z5_of (z5_val a - z5_val b),
      point_mul = \<lambda>a b. z5_of (z5_val a * z5_val b),
      point_is_identity = \<lambda>a. a = Z0,
      EncodedPoint_valid = \<lambda>bs. length bs = 65,
      AffinePoint_decode = \<lambda>bs. Some (z5_of (uint (bs ! 64))),
      to_encoded_point = \<lambda>a. 4 # replicate 63 0 @ [of_int (z5_val a)],
      EncodedPoint_x = \<lambda>bs. Some (take 32 (drop 1 bs))\<rparr>"

lemma z5_val_of [simp]: "z5_val (z5_of n) = n mod 5"
proof -
  have "0 \<le> n mod 5" "n mod 5 < 5"
    by simp_all
  then show ?thesis
    by (auto simp: z5_of_def)
qed

lemma z5_of_val [simp]: "z5_of (z5_val a) = a"
  by (cases a) (simp_all add: z5_of_def)

lemma z5_val_inject [simp]: "z5_val a = z5_val b \<longleftrightarrow> a = b"
  by (metis z5_of_val)

lemma z5_range: "0 \<le> z5_val a" "z5_val a < 5"
  by (cases a; simp)+

lemma z5_eq_Z0: "z5_val a = 0 \<longleftrightarrow> a = Z0"
  using z5_val_inject [of a Z0] by simp

lemma no_zero_divisors_5: "no_zero_divisors 5"
proof -
  have "a mod 5 = 0 \<or> b mod 5 = 0" if "a * b mod 5 = (0 :: int)" for a b :: int
  proof -
    have "(a mod 5) * (b mod 5) mod 5 = 0"
      using that by (simp add: mod_mult_eq)
    moreover have "a mod 5 \<in> {0, 1, 2, 3, 4}" "b mod 5 \<in> {0, 1, 2, 3, 4}"
      by auto
    ultimately show ?thesis
      by auto
  qed
  then show ?thesis
    by (simp add: no_zero_divisors_def)
qed

lemma z5_byte [simp]: "z5_of (uint (of_int (z5_val a) :: u8)) = a"
  by (cases a) (simp_all add: z5_of_def)

lemma p256_laws_toy: "p256_laws toy_p256 5 z5_val z5_val"
proof -
  have "p256_scalar_laws toy_p256 5 z5_val"
    by (simp add: p256_scalar_laws_def toy_p256_def no_zero_divisors_5 z5_range z5_eq_Z0 nth_append)
  moreover have "p256_point_laws toy_p256 5 z5_val z5_val"
    by (simp add: p256_point_laws_def toy_p256_def z5_range z5_eq_Z0 inj_def nth_append)
  ultimately show ?thesis
    by (simp add: p256_laws_def)
qed

lemma rng_fills_toy: "rng_fills toy_p256"
  by (simp add: rng_fills_def toy_p256_def)

lemma rng_live_toy: "rng_live toy_p256 r"
proof -
  have "Scalar_random toy_p256 r' = (z5_of r', r' + 1)" for r'
    by (simp add: toy_p256_def)
  moreover have "z5_of r' \<noteq> Z0 \<or> z5_of (r' + 1) \<noteq> Z0" for r'
  proof -
    have "r' mod 5 \<noteq> 0 \<or> (r' + 1) mod 5 \<noteq> 0"
      by presburger
    then show ?thesis
      by (auto simp flip: z5_eq_Z0)
  qed
  ultimately have "\<not> Scalar_is_zero toy_p256 (nth_draw toy_p256 0 r') \<or>
      \<not> Scalar_is_zero toy_p256 (nth_draw toy_p256 1 r')" for r'
    by (simp add: toy_p256_def)
  then show ?thesis
    unfolding rng_live_def by blast
qed

end
