(* ===== verification/Ecjpake.thy ===== *)
theory Ecjpake
  imports P256 Cursor Dtls_Record
begin

text \<open>
  EC J-PAKE over P-256 (\<^verbatim>\<open>ecjpake/mod.rs\<close>), its Schnorr proofs (\<^verbatim>\<open>schnorr.rs\<close>) and its TLS wire
  format (\<^verbatim>\<open>codec.rs\<close>). The curve, the hash and the random generator are arguments. Shown: drawing a
  nonzero scalar returns; an honest proof verifies and an accepted one satisfies Schnorr's
  equation; two honest parties with the same password agree on a key across the wire, and with
  different passwords they end at different points.
\<close>

section \<open>Messages and parties\<close>

definition THREAD_CLIENT_ID :: bytes where "THREAD_CLIENT_ID = str ''client''"

definition THREAD_SERVER_ID :: bytes where "THREAD_SERVER_ID = str ''server''"

datatype EcJpakeRole = Client | Server

record SchnorrProof =
  sp_v :: bytes
  sp_r :: bytes
  prover_id :: bytes

record RoundOne =
  ro_g1 :: bytes
  ro_g2 :: bytes
  ro_proof1 :: SchnorrProof
  ro_proof2 :: SchnorrProof
  ro_id :: bytes

record RoundTwo =
  rt_point :: bytes
  rt_proof :: SchnorrProof

record 's EcJpakeParty =
  ej_role :: EcJpakeRole
  ej_id :: bytes
  ej_secret :: 's
  ej_x1 :: 's
  ej_x2 :: 's

fun thread_participant_id :: "EcJpakeRole \<Rightarrow> bytes" where
  "thread_participant_id Client = THREAD_CLIENT_ID"
| "thread_participant_id Server = THREAD_SERVER_ID"

fun peer_role :: "EcJpakeRole \<Rightarrow> EcJpakeRole" where
  "peer_role Client = Server"
| "peer_role Server = Client"

section \<open>Scalars and points\<close>

text \<open>The loop that draws again on zero; \<open>None\<close> when it never returns.\<close>

partial_function (option) random_scalar :: "('r, 's, 'p) p256 \<Rightarrow> bool \<Rightarrow> 'r \<Rightarrow> ('s \<times> 'r) option" where
  "random_scalar c allow_zero rng =
     (case Scalar_random c rng of (scalar, rng') \<Rightarrow>
        if allow_zero then Some (scalar, rng')
        else if Scalar_is_zero c scalar then random_scalar c allow_zero rng'
        else Some (scalar, rng'))"

definition scalar_from_secret :: "('r, 's, 'p) p256 \<Rightarrow> crypto \<Rightarrow> bytes \<Rightarrow> 's" where
  "scalar_from_secret c cr secret =
     (let bs = (if length secret \<le> 32 then replicate (32 - length secret) 0 @ secret
                else to_be 32 (sha256 cr secret));
          scalar = Scalar_reduce_bytes c bs
      in if Scalar_is_zero c scalar then Scalar_ONE c else scalar)"

definition scalar_from_repr :: "('r, 's, 'p) p256 \<Rightarrow> bytes \<Rightarrow> dtls_error + 's" where
  "scalar_from_repr c bs = ok_or (Scalar_from_repr c bs) (Crypto ''invalid scalar representation'')"

definition point_from_bytes :: "('r, 's, 'p) p256 \<Rightarrow> bytes \<Rightarrow> dtls_error + 'p" where
  "point_from_bytes c bs =
     (if \<not> EncodedPoint_valid c bs then Err (Crypto ''invalid SEC1 point encoding'')
      else and_then (ok_or (AffinePoint_decode c bs) (Crypto ''point is not on P-256''))
        (\<lambda>point. if point_is_identity c point then Err (Crypto ''identity point is not allowed'')
                 else Ok point))"

definition point_to_bytes :: "('r, 's, 'p) p256 \<Rightarrow> 'p \<Rightarrow> bytes" where
  "point_to_bytes c point = to_encoded_point c point"

definition point_x_bytes :: "('r, 's, 'p) p256 \<Rightarrow> 'p \<Rightarrow> dtls_error + bytes" where
  "point_x_bytes c point =
     (let bs = point_to_bytes c point in
      if \<not> EncodedPoint_valid c bs then Err (Crypto ''invalid SEC1 point encoding'')
      else ok_or (EncodedPoint_x c bs) (Crypto ''SEC1 point has no X coordinate''))"

definition derive_session_key :: "('r, 's, 'p) p256 \<Rightarrow> crypto \<Rightarrow> 'p \<Rightarrow> dtls_error + bytes" where
  "derive_session_key c cr shared =
     and_then (point_x_bytes c shared) (\<lambda>x. Ok (to_be 32 (sha256 cr x)))"

section \<open>Schnorr proofs\<close>

definition hash_item :: "bytes \<Rightarrow> bytes" where
  "hash_item item = to_be 4 (of_nat (length item) :: u32) @ item"

definition challenge_scalar ::
  "('r, 's, 'p) p256 \<Rightarrow> crypto \<Rightarrow> 'p \<Rightarrow> 'p \<Rightarrow> 'p \<Rightarrow> bytes \<Rightarrow> bytes \<Rightarrow> 's" where
  "challenge_scalar c cr base v public pid other_info =
     Scalar_reduce_bytes c (to_be 32 (sha256 cr
       (hash_item (point_to_bytes c base) @ hash_item (point_to_bytes c v) @
        hash_item (point_to_bytes c public) @ hash_item pid @
        (if other_info \<noteq> [] then hash_item other_info else []))))"

definition SchnorrProof_generate ::
  "('r, 's, 'p) p256 \<Rightarrow> crypto \<Rightarrow> 'p \<Rightarrow> 's \<Rightarrow> 'p \<Rightarrow> bytes \<Rightarrow> bytes \<Rightarrow> ('r, SchnorrProof) rand" where
  "SchnorrProof_generate c cr base private public pid other_info =
     r_then (random_scalar c False)
       (\<lambda>v_scalar.
          let v_point = point_mul c base v_scalar;
              challenge = challenge_scalar c cr base v_point public pid other_info;
              r = Scalar_sub c v_scalar (Scalar_mul c private challenge)
          in r_ret \<lparr>sp_v = point_to_bytes c v_point, sp_r = Scalar_to_bytes c r, prover_id = pid\<rparr>)"

definition SchnorrProof_verify ::
  "('r, 's, 'p) p256 \<Rightarrow> crypto \<Rightarrow> SchnorrProof \<Rightarrow> 'p \<Rightarrow> 'p \<Rightarrow> bytes \<Rightarrow> bytes \<Rightarrow> dtls_error + unit" where
  "SchnorrProof_verify c cr proof base public expected_id other_info =
     (if prover_id proof \<noteq> expected_id then Err (Crypto ''Schnorr proof identity mismatch'')
      else if point_is_identity c public then Err (Crypto ''Schnorr public point is identity'')
      else and_then (point_from_bytes c (sp_v proof))
        (\<lambda>v_point. and_then (scalar_from_repr c (sp_r proof))
        (\<lambda>r. let challenge = challenge_scalar c cr base v_point public expected_id other_info;
                 expected = point_add c (point_mul c base r) (point_mul c public challenge)
             in if point_to_bytes c expected \<noteq> sp_v proof
                then Err (Crypto ''Schnorr proof verification failed'')
                else Ok ())))"

section \<open>The protocol\<close>

definition EcJpakeParty_new_with_rng ::
  "('r, 's, 'p) p256 \<Rightarrow> crypto \<Rightarrow> EcJpakeRole \<Rightarrow> bytes \<Rightarrow> bytes \<Rightarrow> ('r, 's EcJpakeParty) rand" where
  "EcJpakeParty_new_with_rng c cr role pid shared_secret =
     r_then (random_scalar c False)
       (\<lambda>x1. r_then (random_scalar c False)
       (\<lambda>x2. r_ret \<lparr>ej_role = role, ej_id = pid, ej_secret = scalar_from_secret c cr shared_secret,
                    ej_x1 = x1, ej_x2 = x2\<rparr>))"

definition EcJpakeParty_new_thread_with_rng ::
  "('r, 's, 'p) p256 \<Rightarrow> crypto \<Rightarrow> EcJpakeRole \<Rightarrow> bytes \<Rightarrow> ('r, 's EcJpakeParty) rand" where
  "EcJpakeParty_new_thread_with_rng c cr role shared_secret =
     EcJpakeParty_new_with_rng c cr role (thread_participant_id role) shared_secret"

definition EcJpakeParty_new_with_scalars ::
  "('r, 's, 'p) p256 \<Rightarrow> crypto \<Rightarrow> EcJpakeRole \<Rightarrow> bytes \<Rightarrow> bytes \<Rightarrow> bytes \<Rightarrow> bytes \<Rightarrow>
     dtls_error + 's EcJpakeParty" where
  "EcJpakeParty_new_with_scalars c cr role pid shared_secret x1 x2 =
     and_then (scalar_from_repr c x1)
       (\<lambda>x1. and_then (scalar_from_repr c x2)
       (\<lambda>x2. if Scalar_is_zero c x1 then Err (Crypto ''x1/x3 must be nonzero'')
             else if Scalar_is_zero c x2 then Err (Crypto ''x2/x4 must be nonzero'')
             else Ok \<lparr>ej_role = role, ej_id = pid, ej_secret = scalar_from_secret c cr shared_secret,
                      ej_x1 = x1, ej_x2 = x2\<rparr>))"

definition EcJpakeParty_new_thread_with_scalars ::
  "('r, 's, 'p) p256 \<Rightarrow> crypto \<Rightarrow> EcJpakeRole \<Rightarrow> bytes \<Rightarrow> bytes \<Rightarrow> bytes \<Rightarrow>
     dtls_error + 's EcJpakeParty" where
  "EcJpakeParty_new_thread_with_scalars c cr role shared_secret x1 x2 =
     EcJpakeParty_new_with_scalars c cr role (thread_participant_id role) shared_secret x1 x2"

definition round_one :: "('r, 's, 'p) p256 \<Rightarrow> crypto \<Rightarrow> 's EcJpakeParty \<Rightarrow> ('r, RoundOne) rand" where
  "round_one c cr self =
     (let base = GENERATOR c;
          g1 = point_mul c base (ej_x1 self);
          g2 = point_mul c base (ej_x2 self)
      in r_then (SchnorrProof_generate c cr base (ej_x1 self) g1 (ej_id self) [])
           (\<lambda>proof1. r_then (SchnorrProof_generate c cr base (ej_x2 self) g2 (ej_id self) [])
           (\<lambda>proof2. r_ret \<lparr>ro_g1 = point_to_bytes c g1, ro_g2 = point_to_bytes c g2,
                            ro_proof1 = proof1, ro_proof2 = proof2, ro_id = ej_id self\<rparr>)))"

definition verify_round_one :: "('r, 's, 'p) p256 \<Rightarrow> crypto \<Rightarrow> RoundOne \<Rightarrow> dtls_error + unit" where
  "verify_round_one c cr peer =
     and_then (point_from_bytes c (ro_g1 peer))
       (\<lambda>g1. and_then (point_from_bytes c (ro_g2 peer))
       (\<lambda>g2. if point_is_identity c g2 then Err (Crypto ''peer x2/x4 point must not be identity'')
             else and_then (SchnorrProof_verify c cr (ro_proof1 peer) (GENERATOR c) g1 (ro_id peer) [])
               (\<lambda>_. SchnorrProof_verify c cr (ro_proof2 peer) (GENERATOR c) g2 (ro_id peer) [])))"

definition second_round_base ::
  "('r, 's, 'p) p256 \<Rightarrow> 's EcJpakeParty \<Rightarrow> RoundOne \<Rightarrow> RoundOne \<Rightarrow> EcJpakeRole \<Rightarrow> dtls_error + 'p" where
  "second_round_base c self own peer sender_role =
     and_then (point_from_bytes c (ro_g1 own))
       (\<lambda>own_g1. and_then (point_from_bytes c (ro_g2 own))
       (\<lambda>own_g2. and_then (point_from_bytes c (ro_g1 peer))
       (\<lambda>peer_g1. and_then (point_from_bytes c (ro_g2 peer))
       (\<lambda>peer_g2. Ok (case (ej_role self, sender_role) of
            (Client, Client) \<Rightarrow> point_add c (point_add c own_g1 peer_g1) peer_g2
          | (Client, Server) \<Rightarrow> point_add c (point_add c own_g1 own_g2) peer_g1
          | (Server, Server) \<Rightarrow> point_add c (point_add c peer_g1 peer_g2) own_g1
          | (Server, Client) \<Rightarrow> point_add c (point_add c peer_g1 own_g1) own_g2)))))"

definition round_two ::
  "('r, 's, 'p) p256 \<Rightarrow> crypto \<Rightarrow> 's EcJpakeParty \<Rightarrow> RoundOne \<Rightarrow> RoundOne \<Rightarrow>
     ('r, dtls_error + RoundTwo) rand" where
  "round_two c cr self own_round_one peer_round_one =
     (case and_then (verify_round_one c cr peer_round_one)
         (\<lambda>_. and_then (second_round_base c self own_round_one peer_round_one (ej_role self))
         (\<lambda>base. if point_is_identity c base then Err (Crypto ''second-round generator is identity'')
                 else Ok base)) of
        Inl e \<Rightarrow> r_ret (Err e)
      | Inr base \<Rightarrow>
          let exponent = Scalar_mul c (ej_x2 self) (ej_secret self);
              point = point_mul c base exponent
          in r_then (SchnorrProof_generate c cr base exponent point (ej_id self) [])
               (\<lambda>proof. r_ret (Ok \<lparr>rt_point = point_to_bytes c point, rt_proof = proof\<rparr>)))"

definition ecjpake_finish ::
  "('r, 's, 'p) p256 \<Rightarrow> crypto \<Rightarrow> 's EcJpakeParty \<Rightarrow> RoundOne \<Rightarrow> RoundOne \<Rightarrow> RoundTwo \<Rightarrow>
     dtls_error + bytes" where
  "ecjpake_finish c cr self own_round_one peer_round_one peer_round_two =
     and_then (verify_round_one c cr peer_round_one)
       (\<lambda>_. and_then (second_round_base c self own_round_one peer_round_one (peer_role (ej_role self)))
       (\<lambda>peer_base. and_then (point_from_bytes c (rt_point peer_round_two))
       (\<lambda>peer_point. and_then (SchnorrProof_verify c cr (rt_proof peer_round_two) peer_base peer_point
                                 (ro_id peer_round_one) [])
       (\<lambda>_. and_then (point_from_bytes c (ro_g2 peer_round_one))
       (\<lambda>peer_x2_point.
          let exponent = Scalar_mul c (ej_x2 self) (ej_secret self);
              shared = point_mul c (point_sub c peer_point (point_mul c peer_x2_point exponent)) (ej_x2 self)
          in if point_is_identity c shared then Err (Crypto ''derived J-PAKE point is identity'')
             else derive_session_key c cr shared)))))"

section \<open>Wire format\<close>

definition validate_tls_u8_len :: "nat \<Rightarrow> string \<Rightarrow> dtls_error + unit" where
  "validate_tls_u8_len len name = (if len > 255 then Err (Crypto (name @ '' exceeds 255 bytes'')) else Ok ())"

definition trim_scalar_bytes :: "bytes \<Rightarrow> bytes" where
  "trim_scalar_bytes bs =
     (let first_nonzero = (case find (\<lambda>i. bs ! i \<noteq> 0) [0..<length bs] of
            Some i \<Rightarrow> i | None \<Rightarrow> length bs - 1)
      in drop first_nonzero bs)"

definition write_tls_point :: "('r, 's, 'p) p256 \<Rightarrow> bytes \<Rightarrow> dtls_error + bytes" where
  "write_tls_point c point =
     and_then (point_from_bytes c point)
       (\<lambda>parsed. let canonical = point_to_bytes c parsed in
          and_then (validate_tls_u8_len (length canonical) ''EC point'')
            (\<lambda>_. Ok (of_nat (length canonical) # canonical)))"

definition SchnorrProof_encode_tls :: "('r, 's, 'p) p256 \<Rightarrow> SchnorrProof \<Rightarrow> dtls_error + bytes" where
  "SchnorrProof_encode_tls c proof =
     and_then (write_tls_point c (sp_v proof))
       (\<lambda>out. let r = trim_scalar_bytes (sp_r proof) in
          and_then (validate_tls_u8_len (length r) ''Schnorr scalar'')
            (\<lambda>_. if r = [] then Err (Crypto ''Schnorr scalar must not be empty'')
                 else Ok (out @ of_nat (length r) # r)))"

definition write_key_kp :: "('r, 's, 'p) p256 \<Rightarrow> bytes \<Rightarrow> SchnorrProof \<Rightarrow> dtls_error + bytes" where
  "write_key_kp c point proof =
     and_then (write_tls_point c point)
       (\<lambda>out. and_then (SchnorrProof_encode_tls c proof) (\<lambda>bs. Ok (out @ bs)))"

definition write_secp256r1_curve_params :: bytes where
  "write_secp256r1_curve_params = [0x03, 0x00, 0x17]"

definition encode_tls_kkpp :: "('r, 's, 'p) p256 \<Rightarrow> RoundOne \<Rightarrow> dtls_error + bytes" where
  "encode_tls_kkpp c self =
     and_then (write_key_kp c (ro_g1 self) (ro_proof1 self))
       (\<lambda>out1. and_then (write_key_kp c (ro_g2 self) (ro_proof2 self)) (\<lambda>out2. Ok (out1 @ out2)))"

definition encode_tls_key_exchange :: "('r, 's, 'p) p256 \<Rightarrow> RoundTwo \<Rightarrow> bool \<Rightarrow> dtls_error + bytes" where
  "encode_tls_key_exchange c self include_curve_params =
     and_then (write_key_kp c (rt_point self) (rt_proof self))
       (\<lambda>out. Ok ((if include_curve_params then write_secp256r1_curve_params else []) @ out))"

definition ecjpake_read_exact :: "nat \<Rightarrow> (Cursor, dtls_error, bytes) action" where
  "ecjpake_read_exact len c =
     (case checked_add_usize (cur_offset c) len of
        None \<Rightarrow> (c, Err (Crypto ''ECJPAKE cursor offset overflow''))
      | Some end \<Rightarrow>
          if length (cur_bytes c) < end then (c, Err (Crypto ''ECJPAKE structure is truncated''))
          else (c\<lparr>cur_offset := end\<rparr>, Ok (drop (cur_offset c) (take end (cur_bytes c)))))"

definition ecjpake_read_u8 :: "(Cursor, dtls_error, u8) action" where
  "ecjpake_read_u8 = st_then (ecjpake_read_exact 1) (\<lambda>bs. st_ok (bs ! 0))"

definition ecjpake_read_u16 :: "(Cursor, dtls_error, u16) action" where
  "ecjpake_read_u16 = st_then (ecjpake_read_exact 2) (\<lambda>bs. st_ok (dtls_read_u16 bs))"

definition read_opaque_u8 :: "string \<Rightarrow> (Cursor, dtls_error, bytes) action" where
  "read_opaque_u8 name =
     st_then ecjpake_read_u8
       (\<lambda>len. if len = 0 then st_err (Crypto (name @ '' is empty'')) else ecjpake_read_exact (unat len))"

definition read_tls_point :: "('r, 's, 'p) p256 \<Rightarrow> (Cursor, dtls_error, bytes) action" where
  "read_tls_point c =
     st_then (read_opaque_u8 ''EC point'')
       (\<lambda>point. st_lift (and_then (point_from_bytes c point) (\<lambda>parsed. Ok (point_to_bytes c parsed))))"

definition read_proof :: "('r, 's, 'p) p256 \<Rightarrow> bytes \<Rightarrow> (Cursor, dtls_error, SchnorrProof) action" where
  "read_proof c pid =
     st_then (read_tls_point c)
       (\<lambda>v. st_then (read_opaque_u8 ''Schnorr scalar'')
       (\<lambda>r_bytes.
          if r_bytes = [] then st_err (Crypto ''Schnorr scalar must not be empty'')
          else if length r_bytes > 32 then st_err (Crypto ''Schnorr scalar exceeds 32 bytes'')
          else let r = replicate (32 - length r_bytes) 0 @ r_bytes in
            st_then (st_lift (scalar_from_repr c r))
              (\<lambda>_. st_ok \<lparr>sp_v = v, sp_r = r, prover_id = pid\<rparr>)))"

definition read_key_kp :: "('r, 's, 'p) p256 \<Rightarrow> bytes \<Rightarrow> (Cursor, dtls_error, bytes \<times> SchnorrProof) action" where
  "read_key_kp c pid =
     st_then (read_tls_point c) (\<lambda>point. st_then (read_proof c pid) (\<lambda>proof. st_ok (point, proof)))"

definition read_secp256r1_curve_params :: "(Cursor, dtls_error, unit) action" where
  "read_secp256r1_curve_params =
     st_then ecjpake_read_u8
       (\<lambda>curve_type. st_then ecjpake_read_u16
       (\<lambda>named_curve. if curve_type \<noteq> 0x03 \<or> named_curve \<noteq> 0x0017
           then st_err (Crypto ''ECJPAKE key exchange does not use secp256r1'')
           else st_ok ()))"

definition ecjpake_cursor_finish :: "(Cursor, dtls_error, unit) action" where
  "ecjpake_cursor_finish c =
     (if cur_offset c = length (cur_bytes c) then (c, Ok ())
      else (c, Err (Crypto ''trailing bytes after ECJPAKE structure'')))"

definition decode_tls_kkpp :: "('r, 's, 'p) p256 \<Rightarrow> crypto \<Rightarrow> bytes \<Rightarrow> bytes \<Rightarrow> dtls_error + RoundOne" where
  "decode_tls_kkpp c cr bs pid =
     and_then (snd ((st_then (read_key_kp c pid)
         (\<lambda>(g1, proof1). st_then (read_key_kp c pid)
         (\<lambda>(g2, proof2). st_then ecjpake_cursor_finish
         (\<lambda>_. st_ok \<lparr>ro_g1 = g1, ro_g2 = g2, ro_proof1 = proof1, ro_proof2 = proof2, ro_id = pid\<rparr>))))
         (Cursor_new bs)))
       (\<lambda>out. and_then (point_from_bytes c (ro_g1 out))
       (\<lambda>g1. and_then (point_from_bytes c (ro_g2 out))
       (\<lambda>g2. and_then (SchnorrProof_verify c cr (ro_proof1 out) (GENERATOR c) g1 (ro_id out) [])
       (\<lambda>_. and_then (SchnorrProof_verify c cr (ro_proof2 out) (GENERATOR c) g2 (ro_id out) [])
       (\<lambda>_. Ok out)))))"

definition decode_tls_key_exchange ::
  "('r, 's, 'p) p256 \<Rightarrow> bytes \<Rightarrow> bytes \<Rightarrow> bool \<Rightarrow> dtls_error + RoundTwo" where
  "decode_tls_key_exchange c bs pid expect_curve_params =
     snd ((st_then (if expect_curve_params then read_secp256r1_curve_params else st_ok ())
       (\<lambda>_. st_then (read_key_kp c pid)
       (\<lambda>(point, proof). st_then ecjpake_cursor_finish
       (\<lambda>_. st_ok \<lparr>rt_point = point, rt_proof = proof\<rparr>)))) (Cursor_new bs))"

section \<open>Drawing scalars\<close>

lemma random_scalar_unfold:
  "random_scalar c False r =
     (if Scalar_is_zero c (fst (Scalar_random c r)) then random_scalar c False (snd (Scalar_random c r))
      else Some (Scalar_random c r))"
  by (subst random_scalar.simps) (simp split: prod.split)

lemma random_scalar_first:
  "\<forall>i<n. Scalar_is_zero c (nth_draw c i r) \<Longrightarrow> \<not> Scalar_is_zero c (nth_draw c n r) \<Longrightarrow>
     \<exists>r'. random_scalar c False r = Some (nth_draw c n r, r') \<and> rng_reach c r r'"
proof (induction n arbitrary: r)
  case 0
  then show ?case
    using rng_draw [OF rng_here, of c r]
    by (intro exI [of _ "snd (Scalar_random c r)"]) (simp add: random_scalar_unfold)
next
  case (Suc n)
  let ?r = "snd (Scalar_random c r)"
  have "\<forall>i<n. Scalar_is_zero c (nth_draw c i ?r)"
    using Suc.prems(1) by (metis Suc_mono nth_draw.simps(2))
  then obtain r' where "random_scalar c False ?r = Some (nth_draw c (Suc n) r, r')" "rng_reach c ?r r'"
    using Suc.IH [of ?r] Suc.prems(2) by auto
  moreover have "Scalar_is_zero c (fst (Scalar_random c r))"
    using Suc.prems(1) by force
  ultimately show ?case
    using rng_reach_trans [OF _ rng_draw [OF rng_here]]
    by (subst random_scalar_unfold) auto
qed

lemma random_scalar_nonzero:
  "random_scalar c allow_zero r = Some y \<Longrightarrow> \<not> allow_zero \<longrightarrow> (\<exists>n. \<not> Scalar_is_zero c (nth_draw c n r))"
proof (erule random_scalar.raw_induct [rotated])
  fix rec and c :: "('r, 's, 'p) p256" and allow_zero r y
  assume IH: "\<And>c allow_zero r y. rec c allow_zero r = Some y \<Longrightarrow>
      \<not> allow_zero \<longrightarrow> (\<exists>n. \<not> Scalar_is_zero c (nth_draw c n r))"
    and body: "(case Scalar_random c r of (scalar, r') \<Rightarrow>
        if allow_zero then Some (scalar, r')
        else if Scalar_is_zero c scalar then rec c allow_zero r' else Some (scalar, r')) = Some y"
  show "\<not> allow_zero \<longrightarrow> (\<exists>n. \<not> Scalar_is_zero c (nth_draw c n r))"
  proof (cases "Scalar_is_zero c (fst (Scalar_random c r))")
    case True
    show ?thesis
    proof
      assume az: "\<not> allow_zero"
      with body True have "rec c allow_zero (snd (Scalar_random c r)) = Some y"
        by (simp split: prod.splits)
      with IH az obtain n where "\<not> Scalar_is_zero c (nth_draw c n (snd (Scalar_random c r)))"
        by blast
      then show "\<exists>n. \<not> Scalar_is_zero c (nth_draw c n r)"
        by (intro exI [of _ "Suc n"]) simp
    qed
  next
    case False
    then show ?thesis
      by (intro impI exI [of _ 0]) simp
  qed
qed

lemma random_scalar_live:
  assumes "rng_live c r"
  obtains x r' where "random_scalar c False r = Some (x, r')" "\<not> Scalar_is_zero c x" "rng_live c r'"
proof -
  define n where "n = (LEAST n. \<not> Scalar_is_zero c (nth_draw c n r))"
  have "\<exists>n. \<not> Scalar_is_zero c (nth_draw c n r)"
    using assms rng_here unfolding rng_live_def by fast
  then have n: "\<not> Scalar_is_zero c (nth_draw c n r)" "\<forall>i<n. Scalar_is_zero c (nth_draw c i r)"
    unfolding n_def by (rule LeastI_ex) (use not_less_Least in blast)
  then show thesis
    using that random_scalar_first [OF n(2,1)] rng_live_reach [OF assms] by blast
qed

section \<open>Encodings\<close>

lemma point_bytes:
  assumes "p256_laws c q val dl" "dl p \<noteq> 0"
  shows "point_from_bytes c (point_to_bytes c p) = Ok p" "length (point_to_bytes c p) = 65"
  using encoding_lawsD [OF assms] point_lawsD(5) [OF assms(1), of p] assms(2)
  by (simp_all add: point_from_bytes_def point_to_bytes_def)

lemma scalar_bytes: "p256_laws c q val dl \<Longrightarrow> scalar_from_repr c (Scalar_to_bytes c a) = Ok a"
  by (simp add: scalar_from_repr_def scalar_lawsD(9))

lemma scalar_from_secret_nonzero:
  assumes "p256_laws c q val dl"
  shows "val (scalar_from_secret c cr bs) \<noteq> 0"
  using scalar_lawsD(4,5) [OF assms] by (simp add: scalar_from_secret_def Let_def)

section \<open>Schnorr proofs\<close>

lemma SchnorrProof_verify_Ok:
  "SchnorrProof_verify c cr pf base public pid info = Ok () \<longleftrightarrow>
     prover_id pf = pid \<and> \<not> point_is_identity c public \<and>
     (\<exists>v r. point_from_bytes c (sp_v pf) = Ok v \<and> scalar_from_repr c (sp_r pf) = Ok r \<and>
        point_to_bytes c (point_add c (point_mul c base r)
          (point_mul c public (challenge_scalar c cr base v public pid info))) = sp_v pf)"
  by (auto simp: SchnorrProof_verify_def result_simps Let_def)

lemma schnorr_equation:
  assumes laws: "p256_laws c q val dl"
  shows "point_add c (point_mul c base (Scalar_sub c v (Scalar_mul c priv ch)))
           (point_mul c (point_mul c base priv) ch) = point_mul c base v"
proof -
  note L = scalar_lawsD [OF laws] point_lawsD [OF laws]
  have "(dl base * (val v - val priv * val ch) + dl base * val priv * val ch) = dl base * val v"
    by (simp add: algebra_simps)
  then have "dl (point_add c (point_mul c base (Scalar_sub c v (Scalar_mul c priv ch)))
       (point_mul c (point_mul c base priv) ch)) = dl (point_mul c base v)"
    by (simp add: L mod_simps)
  then show ?thesis
    using L(12) by blast
qed

definition wf_proof :: "('r, 's, 'p) p256 \<Rightarrow> bytes \<Rightarrow> SchnorrProof \<Rightarrow> bool" where
  "wf_proof c pid pf \<longleftrightarrow>
     prover_id pf = pid \<and> (\<exists>v. \<not> point_is_identity c v \<and> sp_v pf = point_to_bytes c v) \<and>
     (\<exists>r. sp_r pf = Scalar_to_bytes c r)"

lemma mul_nonzero:
  assumes laws: "p256_laws c q val dl" and "dl p \<noteq> 0" "val a \<noteq> 0"
  shows "dl (point_mul c p a) \<noteq> 0"
proof -
  have "dl p mod q \<noteq> 0" "val a mod q \<noteq> 0"
    using assms point_lawsD(1,2) [OF laws, of p] scalar_lawsD(2,3) [OF laws, of a] by simp_all
  then show ?thesis
    using mod_mult_nonzero [OF scalar_lawsD(1) [OF laws]] point_lawsD(8) [OF laws] by simp
qed

lemma scalar_mul_nonzero:
  assumes laws: "p256_laws c q val dl" and "val a \<noteq> 0" "val b \<noteq> 0"
  shows "val (Scalar_mul c a b) \<noteq> 0"
proof -
  have "val a mod q \<noteq> 0" "val b mod q \<noteq> 0"
    using assms scalar_lawsD(2,3) [OF laws, of a] scalar_lawsD(2,3) [OF laws, of b] by simp_all
  then show ?thesis
    using mod_mult_nonzero [OF scalar_lawsD(1) [OF laws]] scalar_lawsD(6) [OF laws] by simp
qed

lemma generate_verifies:
  assumes laws: "p256_laws c q val dl" and live: "rng_live c r"
    and base: "dl base \<noteq> 0" and priv: "val priv \<noteq> 0"
  obtains pf r' where
    "SchnorrProof_generate c cr base priv (point_mul c base priv) pid info r = Some (pf, r')" "rng_live c r'"
    "wf_proof c pid pf" "SchnorrProof_verify c cr pf base (point_mul c base priv) pid info = Ok ()"
proof -
  obtain v r' where v: "random_scalar c False r = Some (v, r')" "\<not> Scalar_is_zero c v" "rng_live c r'"
    using random_scalar_live [OF live] by blast
  let ?V = "point_mul c base v" and ?P = "point_mul c base priv"
  let ?ch = "challenge_scalar c cr base ?V ?P pid info"
  let ?r = "Scalar_sub c v (Scalar_mul c priv ?ch)"
  define pf where "pf = \<lparr>sp_v = point_to_bytes c ?V, sp_r = Scalar_to_bytes c ?r, prover_id = pid\<rparr>"
  have V: "dl ?V \<noteq> 0"
    using mul_nonzero [OF laws base] v(2) scalar_lawsD(4) [OF laws] by simp
  have P: "dl ?P \<noteq> 0"
    using mul_nonzero [OF laws base priv] .
  have "SchnorrProof_generate c cr base priv ?P pid info r = Some (pf, r')"
    using v(1) by (simp add: SchnorrProof_generate_def r_then_def r_ret_def Let_def pf_def)
  moreover have "wf_proof c pid pf"
    using V point_lawsD(5) [OF laws] by (auto simp: wf_proof_def pf_def)
  moreover have "SchnorrProof_verify c cr pf base ?P pid info = Ok ()"
    using P point_lawsD(5) [OF laws] point_bytes [OF laws V] scalar_bytes [OF laws] schnorr_equation [OF laws]
    by (simp add: SchnorrProof_verify_Ok pf_def)
  ultimately show thesis
    using that v(3) by blast
qed

section \<open>Wire round trips\<close>

interpretation ecjpake_cursor: byte_cursor ecjpake_read_exact
proof
  show "reads (ecjpake_read_exact (length v)) v v" for v
    by (simp add: reads_def ecjpake_read_exact_def checked_add_usize_def)
  show "cur_bytes c' = cur_bytes c \<and> cur_offset c' = cur_offset c + n \<and>
      cur_offset c' \<le> length (cur_bytes c) \<and> v = take n (drop (cur_offset c) (cur_bytes c))"
    if "ecjpake_read_exact n c = (c', Inr v)" for n c c' v
    using that
    by (auto simp: ecjpake_read_exact_def checked_add_usize_def take_drop add.commute split: if_splits option.splits)
qed

lemma ecjpake_reads_u8: "reads ecjpake_read_u8 [b] b"
  using reads_then [OF ecjpake_cursor.exact reads_ok, of "[b]" "\<lambda>bs. bs ! 0"] by (simp add: ecjpake_read_u8_def)

lemma ecjpake_reads_u16: "reads ecjpake_read_u16 (to_be 2 w) w"
proof -
  have "reads (st_then (ecjpake_read_exact (length (to_be 2 w))) (\<lambda>bs. st_ok (dtls_read_u16 bs))) (to_be 2 w @ [])
      (dtls_read_u16 (to_be 2 w))"
    by (rule reads_then [OF ecjpake_cursor.exact reads_ok])
  moreover have "dtls_read_u16 (to_be 2 w) = w"
    by (simp add: dtls_read_u16_def to_be_unfold)
  ultimately show ?thesis
    by (simp add: ecjpake_read_u16_def)
qed

lemma reads_opaque:
  assumes "v \<noteq> []" "length v \<le> 255"
  shows "reads (read_opaque_u8 name) (of_nat (length v) # v) v"
proof -
  have l: "unat (of_nat (length v) :: u8) = length v"
    using assms(2) by (simp add: unat_of_nat)
  then have "(of_nat (length v) :: u8) \<noteq> 0"
    using assms(1) by (metis length_0_conv unat_0)
  then show ?thesis
    using reads_then [OF ecjpake_reads_u8, of _ "of_nat (length v)" v v] ecjpake_cursor.exact [of v] l
    by (simp add: read_opaque_u8_def)
qed

lemma reads_tls_point:
  assumes laws: "p256_laws c q val dl" and "\<not> point_is_identity c p" "v = point_to_bytes c p"
  shows "reads (read_tls_point c) (of_nat (length v) # v) v"
proof -
  have "dl p \<noteq> 0"
    using assms(2) point_lawsD(5) [OF laws] by simp
  note pb = point_bytes [OF laws this]
  have "reads (read_opaque_u8 ''EC point'') (of_nat (length v) # v) v"
    using pb(2) assms(3) by (intro reads_opaque) auto
  from reads_then [OF this reads_lift, of "\<lambda>point. and_then (point_from_bytes c point) (\<lambda>parsed. Ok (point_to_bytes c parsed))" v]
  show ?thesis
    using pb(1) assms(3) by (simp add: read_tls_point_def)
qed

lemma trim_scalar_bytes_pad:
  assumes "length bs = 32"
  shows "trim_scalar_bytes bs \<noteq> []" "length (trim_scalar_bytes bs) \<le> 32"
    "replicate (32 - length (trim_scalar_bytes bs)) 0 @ trim_scalar_bytes bs = bs"
proof -
  define k where "k = (case find (\<lambda>i. bs ! i \<noteq> 0) [0..<length bs] of Some i \<Rightarrow> i | None \<Rightarrow> length bs - 1)"
  have k: "k < 32 \<and> (\<forall>i<k. bs ! i = 0)"
  proof (cases "find (\<lambda>i. bs ! i \<noteq> 0) [0..<length bs]")
    case None
    then have "k = 31"
      using assms by (simp add: k_def)
    moreover have "\<forall>i<32. bs ! i = 0"
      using None assms by (simp add: find_None_iff)
    ultimately show ?thesis
      by simp
  next
    case (Some i)
    then have "i < 32" "\<forall>j<i. bs ! j = 0"
      using assms by (auto simp: find_Some_iff)
    then show ?thesis
      using Some by (simp add: k_def)
  qed
  have t: "trim_scalar_bytes bs = drop k bs"
    by (simp add: trim_scalar_bytes_def k_def Let_def)
  have "take k bs = replicate k 0"
    using k assms by (intro nth_equalityI) auto
  then show "replicate (32 - length (trim_scalar_bytes bs)) 0 @ trim_scalar_bytes bs = bs"
    using k assms append_take_drop_id [of k bs] by (simp add: t)
  show "trim_scalar_bytes bs \<noteq> []" "length (trim_scalar_bytes bs) \<le> 32"
    using k assms by (simp_all add: t)
qed

lemma key_kp_roundtrip:
  assumes laws: "p256_laws c q val dl" and p: "\<not> point_is_identity c p" and pf: "wf_proof c pid pf"
  obtains bs where "write_key_kp c (point_to_bytes c p) pf = Ok bs" "length bs \<le> 165"
    "reads (read_key_kp c pid) bs (point_to_bytes c p, pf)"
proof -
  obtain v r where v: "prover_id pf = pid" "\<not> point_is_identity c v" "sp_v pf = point_to_bytes c v"
      "sp_r pf = Scalar_to_bytes c r"
    using pf by (auto simp: wf_proof_def)
  let ?t = "trim_scalar_bytes (sp_r pf)"
  let ?P = "point_to_bytes c p" and ?V = "point_to_bytes c v"
  have n: "dl p \<noteq> 0" "dl v \<noteq> 0"
    using p v(2) point_lawsD(5) [OF laws] by auto
  have t: "?t \<noteq> []" "length ?t \<le> 32" "replicate (32 - length ?t) 0 @ ?t = sp_r pf"
    using trim_scalar_bytes_pad [of "sp_r pf"] v(4) scalar_lawsD(8) [OF laws] by simp_all
  let ?bs = "(of_nat (length ?P) # ?P) @ (of_nat (length ?V) # ?V) @ (of_nat (length ?t) # ?t)"
  have "write_key_kp c ?P pf = Ok ?bs"
    using point_bytes [OF laws n(1)] point_bytes [OF laws n(2)] v(3) t(1,2)
    by (simp add: write_key_kp_def write_tls_point_def SchnorrProof_encode_tls_def validate_tls_u8_len_def Let_def)
  moreover have "length ?bs \<le> 165"
    using t(2) point_bytes(2) [OF laws n(1)] point_bytes(2) [OF laws n(2)] by simp
  moreover have pf_eq: "st_ok \<lparr>sp_v = ?V, sp_r = Scalar_to_bytes c r, prover_id = pid\<rparr> = st_ok pf"
    using v by (cases pf) simp
  moreover have "reads (read_proof c pid) ((of_nat (length ?V) # ?V) @ (of_nat (length ?t) # ?t) @ []) pf"
    unfolding read_proof_def
    by (rule reads_then [OF reads_tls_point [OF laws v(2) refl]], rule reads_then [OF reads_opaque])
      (use t v(1,3,4) scalar_bytes [OF laws, of r] in \<open>simp_all add: Let_def pf_eq reads_ok\<close>)
  then have "reads (read_key_kp c pid) ((of_nat (length ?P) # ?P) @ ((of_nat (length ?V) # ?V) @ (of_nat (length ?t) # ?t) @ []) @ []) (?P, pf)"
    unfolding read_key_kp_def
    by (intro reads_then [OF reads_tls_point [OF laws p refl]] reads_then [OF _ reads_ok])
  ultimately show thesis
    using that [of ?bs] by simp
qed

lemma ecjpake_reads_end_finish: "reads_end (st_then ecjpake_cursor_finish (\<lambda>_. st_ok x)) [] x"
  by (simp add: reads_end_def ecjpake_cursor_finish_def st_then_def st_ok_def)

lemma key_exchange_roundtrip:
  assumes laws: "p256_laws c q val dl" and p: "\<not> point_is_identity c p" and pf: "wf_proof c pid pf"
  obtains bs where
    "encode_tls_key_exchange c \<lparr>rt_point = point_to_bytes c p, rt_proof = pf\<rparr> with_params = Ok bs" "length bs \<le> 168"
    "decode_tls_key_exchange c bs pid with_params = Ok \<lparr>rt_point = point_to_bytes c p, rt_proof = pf\<rparr>"
proof -
  obtain kp where kp: "write_key_kp c (point_to_bytes c p) pf = Ok kp" "length kp \<le> 165"
    "reads (read_key_kp c pid) kp (point_to_bytes c p, pf)"
    using key_kp_roundtrip [OF laws p pf] by blast
  let ?pre = "if with_params then write_secp256r1_curve_params else []"
  have "reads read_secp256r1_curve_params ([0x03] @ to_be 2 (0x17 :: u16) @ []) ()"
    unfolding read_secp256r1_curve_params_def
    by (rule reads_then [OF ecjpake_reads_u8], rule reads_then [OF ecjpake_reads_u16]) (simp add: reads_ok)
  moreover have "[0x03] @ to_be 2 (0x17 :: u16) @ [] = write_secp256r1_curve_params"
    by (simp add: to_be_unfold write_secp256r1_curve_params_def)
  ultimately have pre: "reads (if with_params then read_secp256r1_curve_params else st_ok ()) ?pre ()"
    using reads_ok [of "()"] by simp
  have "reads_end (st_then (if with_params then read_secp256r1_curve_params else st_ok ())
       (\<lambda>_. st_then (read_key_kp c pid)
       (\<lambda>(point, proof). st_then ecjpake_cursor_finish
       (\<lambda>_. st_ok \<lparr>rt_point = point, rt_proof = proof\<rparr>)))) (?pre @ kp @ [])
     \<lparr>rt_point = point_to_bytes c p, rt_proof = pf\<rparr>"
    by (rule reads_end_then [OF pre], rule reads_end_then [OF kp(3)]) (simp add: ecjpake_reads_end_finish)
  moreover have l: "length (?pre @ kp @ []) \<le> 168"
    using kp(2) by (simp add: write_secp256r1_curve_params_def)
  ultimately have "decode_tls_key_exchange c (?pre @ kp @ []) pid with_params =
      Ok \<lparr>rt_point = point_to_bytes c p, rt_proof = pf\<rparr>"
    unfolding decode_tls_key_exchange_def by (intro reads_end_whole) simp_all
  then show thesis
    using that [of "?pre @ kp"] kp(1) l by (simp add: encode_tls_key_exchange_def)
qed

section \<open>Honest runs\<close>

text \<open>
  \<open>honest_one\<close>: a first-round message made by the party. \<open>base_log\<close> is the discrete
  logarithm of the second-round base of the sender \<open>a\<close> towards \<open>b\<close>.
\<close>

definition honest_one :: "('r, 's, 'p) p256 \<Rightarrow> crypto \<Rightarrow> 's EcJpakeParty \<Rightarrow> RoundOne \<Rightarrow> bool" where
  "honest_one c cr a m \<longleftrightarrow>
     ro_id m = ej_id a \<and>
     ro_g1 m = point_to_bytes c (point_mul c (GENERATOR c) (ej_x1 a)) \<and>
     ro_g2 m = point_to_bytes c (point_mul c (GENERATOR c) (ej_x2 a)) \<and>
     wf_proof c (ej_id a) (ro_proof1 m) \<and> wf_proof c (ej_id a) (ro_proof2 m) \<and>
     SchnorrProof_verify c cr (ro_proof1 m) (GENERATOR c) (point_mul c (GENERATOR c) (ej_x1 a)) (ej_id a) [] = Ok () \<and>
     SchnorrProof_verify c cr (ro_proof2 m) (GENERATOR c) (point_mul c (GENERATOR c) (ej_x2 a)) (ej_id a) [] = Ok ()"

definition party_ok :: "('s \<Rightarrow> int) \<Rightarrow> 's EcJpakeParty \<Rightarrow> bool" where
  "party_ok val a \<longleftrightarrow> val (ej_x1 a) \<noteq> 0 \<and> val (ej_x2 a) \<noteq> 0 \<and> val (ej_secret a) \<noteq> 0"

definition base_log :: "int \<Rightarrow> ('s \<Rightarrow> int) \<Rightarrow> 's EcJpakeParty \<Rightarrow> 's EcJpakeParty \<Rightarrow> int" where
  "base_log q val a b = (val (ej_x1 a) + val (ej_x1 b) + val (ej_x2 b)) mod q"

lemma party_new:
  assumes laws: "p256_laws c q val dl" and live: "rng_live c r"
  obtains a r' where "EcJpakeParty_new_with_rng c cr role pid secret r = Some (a, r')" "rng_live c r'"
    "party_ok val a" "ej_role a = role" "ej_id a = pid" "ej_secret a = scalar_from_secret c cr secret"
proof -
  obtain x1 r1 where 1: "random_scalar c False r = Some (x1, r1)" "\<not> Scalar_is_zero c x1" "rng_live c r1"
    using random_scalar_live [OF live] by blast
  obtain x2 r2 where 2: "random_scalar c False r1 = Some (x2, r2)" "\<not> Scalar_is_zero c x2" "rng_live c r2"
    using random_scalar_live [OF 1(3)] by blast
  let ?a = "\<lparr>ej_role = role, ej_id = pid, ej_secret = scalar_from_secret c cr secret, ej_x1 = x1, ej_x2 = x2\<rparr>"
  have "EcJpakeParty_new_with_rng c cr role pid secret r = Some (?a, r2)"
    using 1(1) 2(1) by (simp add: EcJpakeParty_new_with_rng_def r_then_def r_ret_def)
  moreover have "party_ok val ?a"
    using 1(2) 2(2) scalar_lawsD(4) [OF laws] scalar_from_secret_nonzero [OF laws] by (simp add: party_ok_def)
  ultimately show thesis
    using that 2(3) by simp
qed

lemma generator_mul_nonzero:
  assumes laws: "p256_laws c q val dl" and "val a \<noteq> 0"
  shows "dl (point_mul c (GENERATOR c) a) \<noteq> 0" "\<not> point_is_identity c (point_mul c (GENERATOR c) a)"
    "point_from_bytes c (point_to_bytes c (point_mul c (GENERATOR c) a)) = Ok (point_mul c (GENERATOR c) a)"
proof -
  show n: "dl (point_mul c (GENERATOR c) a) \<noteq> 0"
    using mul_nonzero [OF laws _ assms(2)] point_lawsD(4) [OF laws] by simp
  show "\<not> point_is_identity c (point_mul c (GENERATOR c) a)"
    using n point_lawsD(5) [OF laws] by simp
  show "point_from_bytes c (point_to_bytes c (point_mul c (GENERATOR c) a)) = Ok (point_mul c (GENERATOR c) a)"
    by (rule point_bytes [OF laws n])
qed

lemma generator_mul_log: "p256_laws c q val dl \<Longrightarrow> dl (point_mul c (GENERATOR c) a) = val a"
  using point_lawsD(4,8) scalar_lawsD(2,3) by (metis mult_1 mod_pos_pos_trivial)

lemma round_one_honest:
  assumes laws: "p256_laws c q val dl" and live: "rng_live c r" and a: "party_ok val a"
  obtains m r' where "round_one c cr a r = Some (m, r')" "rng_live c r'" "honest_one c cr a m"
proof -
  let ?g = "GENERATOR c"
  have g: "dl ?g \<noteq> 0"
    using point_lawsD(4) [OF laws] by simp
  obtain p1 r1 where 1:
    "SchnorrProof_generate c cr ?g (ej_x1 a) (point_mul c ?g (ej_x1 a)) (ej_id a) [] r = Some (p1, r1)"
    "rng_live c r1" "wf_proof c (ej_id a) p1"
    "SchnorrProof_verify c cr p1 ?g (point_mul c ?g (ej_x1 a)) (ej_id a) [] = Ok ()"
    using generate_verifies [OF laws live g] a unfolding party_ok_def by blast
  obtain p2 r2 where 2:
    "SchnorrProof_generate c cr ?g (ej_x2 a) (point_mul c ?g (ej_x2 a)) (ej_id a) [] r1 = Some (p2, r2)"
    "rng_live c r2" "wf_proof c (ej_id a) p2"
    "SchnorrProof_verify c cr p2 ?g (point_mul c ?g (ej_x2 a)) (ej_id a) [] = Ok ()"
    using generate_verifies [OF laws 1(2) g] a unfolding party_ok_def by blast
  let ?m = "\<lparr>ro_g1 = point_to_bytes c (point_mul c ?g (ej_x1 a)), ro_g2 = point_to_bytes c (point_mul c ?g (ej_x2 a)),
      ro_proof1 = p1, ro_proof2 = p2, ro_id = ej_id a\<rparr>"
  show thesis
    by (rule that [of ?m, OF _ 2(2)])
      (use 1 2 in \<open>simp_all add: round_one_def r_then_def r_ret_def Let_def honest_one_def\<close>)
qed

lemma verify_round_one_honest:
  assumes "p256_laws c q val dl" "party_ok val a" "honest_one c cr a m"
  shows "verify_round_one c cr m = Ok ()"
  using assms generator_mul_nonzero [OF assms(1)]
  by (simp add: verify_round_one_def honest_one_def party_ok_def)

lemma kkpp_roundtrip:
  assumes laws: "p256_laws c q val dl" and a: "party_ok val a" and m: "honest_one c cr a m"
  obtains bs where "encode_tls_kkpp c m = Ok bs" "length bs \<le> 330" "decode_tls_kkpp c cr bs (ej_id a) = Ok m"
proof -
  let ?p1 = "point_mul c (GENERATOR c) (ej_x1 a)" and ?p2 = "point_mul c (GENERATOR c) (ej_x2 a)"
  have p: "\<not> point_is_identity c ?p1" "\<not> point_is_identity c ?p2"
      "point_from_bytes c (point_to_bytes c ?p1) = Ok ?p1" "point_from_bytes c (point_to_bytes c ?p2) = Ok ?p2"
    using a generator_mul_nonzero [OF laws] by (simp_all add: party_ok_def)
  have w: "wf_proof c (ej_id a) (ro_proof1 m)" "wf_proof c (ej_id a) (ro_proof2 m)"
    using m by (simp_all add: honest_one_def)
  obtain b1 where b1: "write_key_kp c (ro_g1 m) (ro_proof1 m) = Ok b1" "length b1 \<le> 165"
      "reads (read_key_kp c (ej_id a)) b1 (ro_g1 m, ro_proof1 m)"
    using key_kp_roundtrip [OF laws p(1) w(1)] m by (metis honest_one_def)
  obtain b2 where b2: "write_key_kp c (ro_g2 m) (ro_proof2 m) = Ok b2" "length b2 \<le> 165"
      "reads (read_key_kp c (ej_id a)) b2 (ro_g2 m, ro_proof2 m)"
    using key_kp_roundtrip [OF laws p(2) w(2)] m by (metis honest_one_def)
  have m_eq: "\<lparr>ro_g1 = ro_g1 m, ro_g2 = ro_g2 m, ro_proof1 = ro_proof1 m, ro_proof2 = ro_proof2 m,
      ro_id = ej_id a\<rparr> = m"
    using m by (cases m) (simp add: honest_one_def)
  have "reads_end (st_then (read_key_kp c (ej_id a))
         (\<lambda>(g1, proof1). st_then (read_key_kp c (ej_id a))
         (\<lambda>(g2, proof2). st_then ecjpake_cursor_finish
         (\<lambda>_. st_ok \<lparr>ro_g1 = g1, ro_g2 = g2, ro_proof1 = proof1, ro_proof2 = proof2, ro_id = ej_id a\<rparr>))))
       (b1 @ b2 @ []) m"
    by (rule reads_end_then [OF b1(3)], simp only: split, rule reads_end_then [OF b2(3)])
      (simp add: ecjpake_reads_end_finish m_eq)
  then have "decode_tls_kkpp c cr (b1 @ b2) (ej_id a) = Ok m"
    using b1(2) b2(2) m p by (simp add: decode_tls_kkpp_def reads_end_whole honest_one_def)
  moreover have "encode_tls_kkpp c m = Ok (b1 @ b2)"
    using b1(1) b2(1) by (simp add: encode_tls_kkpp_def)
  ultimately show thesis
    using that b1(2) b2(2) by force
qed

lemma second_round_base_honest:
  assumes laws: "p256_laws c q val dl" and a: "party_ok val a" "honest_one c cr a ma"
    and b: "party_ok val b" "honest_one c cr b mb"
  shows "\<exists>p. second_round_base c a ma mb (ej_role a) = Ok p \<and> dl p = base_log q val a b"
    "\<exists>p. second_round_base c a ma mb (peer_role (ej_role a)) = Ok p \<and> dl p = base_log q val b a"
proof -
  have g: "point_from_bytes c (ro_g1 ma) = Ok (point_mul c (GENERATOR c) (ej_x1 a))"
      "point_from_bytes c (ro_g2 ma) = Ok (point_mul c (GENERATOR c) (ej_x2 a))"
      "point_from_bytes c (ro_g1 mb) = Ok (point_mul c (GENERATOR c) (ej_x1 b))"
      "point_from_bytes c (ro_g2 mb) = Ok (point_mul c (GENERATOR c) (ej_x2 b))"
    using a b generator_mul_nonzero(3) [OF laws] by (simp_all add: honest_one_def party_ok_def)
  note L = second_round_base_def base_log_def point_lawsD(6) [OF laws] generator_mul_log [OF laws] mod_simps add_ac
  show "\<exists>p. second_round_base c a ma mb (ej_role a) = Ok p \<and> dl p = base_log q val a b"
    using g by (cases "ej_role a") (simp_all add: L)
  show "\<exists>p. second_round_base c a ma mb (peer_role (ej_role a)) = Ok p \<and> dl p = base_log q val b a"
    using g by (cases "ej_role a") (simp_all add: L)
qed

text \<open>
  \<open>honest_two\<close>: a second-round message made by \<open>a\<close> towards \<open>b\<close> for a base point.
\<close>

definition honest_two :: "('r, 's, 'p) p256 \<Rightarrow> crypto \<Rightarrow> 's EcJpakeParty \<Rightarrow> 'p \<Rightarrow> RoundTwo \<Rightarrow> bool" where
  "honest_two c cr a base m \<longleftrightarrow>
     (let public = point_mul c base (Scalar_mul c (ej_x2 a) (ej_secret a)) in
      rt_point m = point_to_bytes c public \<and> wf_proof c (ej_id a) (rt_proof m) \<and>
      SchnorrProof_verify c cr (rt_proof m) base public (ej_id a) [] = Ok ())"

lemma round_two_honest:
  assumes laws: "p256_laws c q val dl" and live: "rng_live c r"
    and a: "party_ok val a" "honest_one c cr a ma" and b: "party_ok val b" "honest_one c cr b mb"
    and nondeg: "base_log q val a b \<noteq> 0"
  obtains base m r' where "dl base = base_log q val a b" "round_two c cr a ma mb r = Some (Ok m, r')"
    "rng_live c r'" "honest_two c cr a base m"
proof -
  let ?e = "Scalar_mul c (ej_x2 a) (ej_secret a)"
  obtain base where base: "second_round_base c a ma mb (ej_role a) = Ok base" "dl base = base_log q val a b"
    using second_round_base_honest(1) [OF laws a b] by blast
  have n: "dl base \<noteq> 0" "val ?e \<noteq> 0"
    using nondeg base(2) a(1) scalar_mul_nonzero [OF laws] by (simp_all add: party_ok_def)
  obtain pf r' where pf: "SchnorrProof_generate c cr base ?e (point_mul c base ?e) (ej_id a) [] r = Some (pf, r')"
      "rng_live c r'" "wf_proof c (ej_id a) pf"
      "SchnorrProof_verify c cr pf base (point_mul c base ?e) (ej_id a) [] = Ok ()"
    using generate_verifies [OF laws live n] by blast
  let ?m = "\<lparr>rt_point = point_to_bytes c (point_mul c base ?e), rt_proof = pf\<rparr>"
  have "round_two c cr a ma mb r = Some (Ok ?m, r')"
    using verify_round_one_honest [OF laws b] base(1) n(1) point_lawsD(5) [OF laws, of base] pf(1)
    by (simp add: round_two_def Let_def r_then_def r_ret_def)
  then show thesis
    by (rule that [OF base(2) _ pf(2)]) (use pf in \<open>simp add: honest_two_def\<close>)
qed

lemma round_two_degenerate:
  assumes laws: "p256_laws c q val dl" and a: "party_ok val a" "honest_one c cr a ma"
    and b: "party_ok val b" "honest_one c cr b mb" and deg: "base_log q val a b = 0"
  shows "round_two c cr a ma mb r = Some (Err (Crypto ''second-round generator is identity''), r)"
proof -
  obtain base where base: "second_round_base c a ma mb (ej_role a) = Ok base" "dl base = base_log q val a b"
    using second_round_base_honest(1) [OF laws a b] by blast
  then show ?thesis
    using verify_round_one_honest [OF laws b] deg point_lawsD(5) [OF laws, of base]
    by (simp add: round_two_def r_ret_def)
qed

definition shared_log :: "int \<Rightarrow> ('s \<Rightarrow> int) \<Rightarrow> 's EcJpakeParty \<Rightarrow> 's EcJpakeParty \<Rightarrow> int" where
  "shared_log q val a b =
     ((val (ej_x1 b) + val (ej_x1 a) + val (ej_x2 a)) * val (ej_x2 b) * val (ej_secret b)
       - val (ej_x2 b) * val (ej_x2 a) * val (ej_secret a)) * val (ej_x2 a) mod q"

lemma finish_honest:
  assumes laws: "p256_laws c q val dl" and a: "party_ok val a" "honest_one c cr a ma"
    and b: "party_ok val b" "honest_one c cr b mb"
    and two: "dl base = base_log q val b a" "base_log q val b a \<noteq> 0" "honest_two c cr b base m"
  shows "\<exists>shared. dl shared = shared_log q val a b \<and>
    ecjpake_finish c cr a ma mb m =
      (if shared_log q val a b = 0 then Err (Crypto ''derived J-PAKE point is identity'')
       else derive_session_key c cr shared)"
proof -
  let ?eb = "Scalar_mul c (ej_x2 b) (ej_secret b)" and ?ea = "Scalar_mul c (ej_x2 a) (ej_secret a)"
  let ?g2 = "point_mul c (GENERATOR c) (ej_x2 b)"
  let ?B = "point_mul c base ?eb"
  let ?S = "point_mul c (point_sub c ?B (point_mul c ?g2 ?ea)) (ej_x2 a)"
  note L = point_lawsD [OF laws] scalar_lawsD [OF laws]
  have base': "second_round_base c a ma mb (peer_role (ej_role a)) = Ok base"
    using second_round_base_honest(2) [OF laws a b] two(1) point_lawsD(3) [OF laws] by metis
  have "dl ?B \<noteq> 0"
    using mul_nonzero [OF laws] two(1,2) scalar_mul_nonzero [OF laws] b(1) by (simp add: party_ok_def)
  then have B: "point_from_bytes c (rt_point m) = Ok ?B"
    using two(3) point_bytes [OF laws] by (simp add: honest_two_def Let_def)
  have pf: "SchnorrProof_verify c cr (rt_proof m) base ?B (ro_id mb) [] = Ok ()"
    using two(3) b(2) by (simp add: honest_two_def honest_one_def Let_def)
  have g2: "point_from_bytes c (ro_g2 mb) = Ok ?g2"
    using b generator_mul_nonzero(3) [OF laws] by (simp add: honest_one_def party_ok_def)
  have "dl ?S = shared_log q val a b"
    by (simp add: L two(1) base_log_def shared_log_def mod_simps mult.assoc)
  moreover have "ecjpake_finish c cr a ma mb m =
      (if dl ?S = 0 then Err (Crypto ''derived J-PAKE point is identity'') else derive_session_key c cr ?S)"
    using verify_round_one_honest [OF laws b] base' B pf g2 L(5)
    by (simp add: ecjpake_finish_def Let_def)
  ultimately show ?thesis
    by (intro exI [of _ ?S]) simp
qed

lemma derive_session_key_Ok:
  assumes "p256_laws c q val dl" "dl p \<noteq> 0"
  obtains x where "EncodedPoint_x c (to_encoded_point c p) = Some x"
    "derive_session_key c cr p = Ok (to_be 32 (sha256 cr x))"
  using encoding_lawsD [OF assms] that
  by (auto simp: derive_session_key_def point_x_bytes_def point_to_bytes_def Let_def)

lemma shared_log_sym:
  assumes "val (ej_secret a) = val (ej_secret b)"
  shows "shared_log q val a b = (val (ej_x1 a) + val (ej_x1 b)) * val (ej_x2 a) * val (ej_x2 b) * val (ej_secret a) mod q"
    and "shared_log q val a b = shared_log q val b a"
  using assms by (simp_all add: shared_log_def algebra_simps)

lemma shared_log_diff:
  "(shared_log q val a b - shared_log q val b a) mod q =
     val (ej_x2 a) * val (ej_x2 b) * (val (ej_secret b) - val (ej_secret a)) *
       (val (ej_x1 a) + val (ej_x1 b) + val (ej_x2 a) + val (ej_x2 b)) mod q"
  unfolding shared_log_def mod_diff_eq by (simp add: algebra_simps)

text \<open>
  One run of the protocol between two parties with usable scalars: both rounds return, every
  message survives its wire format, and both sides reach the point of \<open>shared_log\<close>.
\<close>

definition honest_run :: "('r, 's, 'p) p256 \<Rightarrow> crypto \<Rightarrow> 's EcJpakeParty \<Rightarrow> 's EcJpakeParty \<Rightarrow> 'r \<Rightarrow> 'r \<Rightarrow>
     RoundOne \<Rightarrow> RoundOne \<Rightarrow> RoundTwo \<Rightarrow> RoundTwo \<Rightarrow> bool" where
  "honest_run c cr a b ra rb ma mb ta tb \<longleftrightarrow>
     (\<exists>ra' rb' ra'' rb''.
       round_one c cr a ra = Some (ma, ra') \<and> round_one c cr b rb = Some (mb, rb') \<and>
       round_two c cr a ma mb ra' = Some (Ok ta, ra'') \<and> round_two c cr b mb ma rb' = Some (Ok tb, rb'')) \<and>
     (\<exists>wa wb va vb.
       encode_tls_kkpp c ma = Ok wa \<and> decode_tls_kkpp c cr wa (ej_id a) = Ok ma \<and>
       encode_tls_kkpp c mb = Ok wb \<and> decode_tls_kkpp c cr wb (ej_id b) = Ok mb \<and>
       encode_tls_key_exchange c ta False = Ok va \<and> decode_tls_key_exchange c va (ej_id a) False = Ok ta \<and>
       encode_tls_key_exchange c tb True = Ok vb \<and> decode_tls_key_exchange c vb (ej_id b) True = Ok tb)"

lemma honest_two_wire:
  assumes laws: "p256_laws c q val dl" and a: "party_ok val a" and "dl base \<noteq> 0" "honest_two c cr a base m"
  obtains bs where "encode_tls_key_exchange c m with_params = Ok bs" "length bs \<le> 168"
    "decode_tls_key_exchange c bs (ej_id a) with_params = Ok m"
proof -
  let ?p = "point_mul c base (Scalar_mul c (ej_x2 a) (ej_secret a))"
  have "dl ?p \<noteq> 0"
    using mul_nonzero [OF laws] assms(3) scalar_mul_nonzero [OF laws] a by (simp add: party_ok_def)
  then have p: "\<not> point_is_identity c ?p"
    using point_lawsD(5) [OF laws] by simp
  have "m = \<lparr>rt_point = point_to_bytes c ?p, rt_proof = rt_proof m\<rparr>" "wf_proof c (ej_id a) (rt_proof m)"
    using assms(4) by (simp_all add: honest_two_def Let_def)
  then show thesis
    using key_exchange_roundtrip [OF laws p] that by metis
qed

lemma honest_run_exists:
  assumes laws: "p256_laws c q val dl" and live: "rng_live c ra" "rng_live c rb"
    and ok: "party_ok val a" "party_ok val b"
    and nondeg: "base_log q val a b \<noteq> 0" "base_log q val b a \<noteq> 0"
  obtains ma mb ta tb A B where "honest_run c cr a b ra rb ma mb ta tb"
    "dl A = shared_log q val a b" "dl B = shared_log q val b a"
    "ecjpake_finish c cr a ma mb tb = (if shared_log q val a b = 0
       then Err (Crypto ''derived J-PAKE point is identity'') else derive_session_key c cr A)"
    "ecjpake_finish c cr b mb ma ta = (if shared_log q val b a = 0
       then Err (Crypto ''derived J-PAKE point is identity'') else derive_session_key c cr B)"
proof -
  obtain ma ra' where ma: "round_one c cr a ra = Some (ma, ra')" "rng_live c ra'" "honest_one c cr a ma"
    using round_one_honest [OF laws live(1) ok(1)] by blast
  obtain mb rb' where mb: "round_one c cr b rb = Some (mb, rb')" "rng_live c rb'" "honest_one c cr b mb"
    using round_one_honest [OF laws live(2) ok(2)] by blast
  obtain p ta ra'' where ta: "dl p = base_log q val a b" "round_two c cr a ma mb ra' = Some (Ok ta, ra'')"
      "honest_two c cr a p ta"
    using round_two_honest [OF laws ma(2) ok(1) ma(3) ok(2) mb(3) nondeg(1)] by blast
  obtain p' tb rb'' where tb: "dl p' = base_log q val b a" "round_two c cr b mb ma rb' = Some (Ok tb, rb'')"
      "honest_two c cr b p' tb"
    using round_two_honest [OF laws mb(2) ok(2) mb(3) ok(1) ma(3) nondeg(2)] by blast
  have "honest_run c cr a b ra rb ma mb ta tb"
    unfolding honest_run_def
    using ma(1) mb(1) ta(2) tb(2) kkpp_roundtrip [OF laws ok(1) ma(3)] kkpp_roundtrip [OF laws ok(2) mb(3)]
      honest_two_wire [OF laws ok(1) _ ta(3), of False] honest_two_wire [OF laws ok(2) _ tb(3), of True] ta(1) tb(1) nondeg
    by metis
  then show thesis
    using that finish_honest [OF laws ok(1) ma(3) ok(2) mb(3) tb(1) nondeg(2) tb(3)]
      finish_honest [OF laws ok(2) mb(3) ok(1) ma(3) ta(1) nondeg(1) ta(3)] by blast
qed

lemma party_new_thread:
  assumes "p256_laws c q val dl" "rng_live c r" "EcJpakeParty_new_thread_with_rng c cr role secret r = Some (a, r')"
  shows "rng_live c r'" "party_ok val a" "ej_role a = role" "ej_id a = thread_participant_id role"
    "ej_secret a = scalar_from_secret c cr secret"
proof -
  have "rng_live c r' \<and> party_ok val a \<and> ej_role a = role \<and> ej_id a = thread_participant_id role \<and>
      ej_secret a = scalar_from_secret c cr secret"
    by (rule party_new [OF assms(1,2), of cr role "thread_participant_id role" secret]) (use assms(3) in \<open>auto simp: EcJpakeParty_new_thread_with_rng_def\<close>)
  then show "rng_live c r'" "party_ok val a" "ej_role a = role" "ej_id a = thread_participant_id role"
    "ej_secret a = scalar_from_secret c cr secret"
    by simp_all
qed

lemma shared_log_nonzero:
  assumes laws: "p256_laws c q val dl" and "party_ok val a" "party_ok val b"
    and "ej_secret a = ej_secret b" "(val (ej_x1 a) + val (ej_x1 b)) mod q \<noteq> 0"
  shows "shared_log q val a b \<noteq> 0"
proof -
  have "val (ej_x2 a) mod q \<noteq> 0" "val (ej_x2 b) mod q \<noteq> 0" "val (ej_secret a) mod q \<noteq> 0"
    using assms scalar_lawsD(2,3) [OF laws] by (simp_all add: party_ok_def)
  then show ?thesis
    using assms(4,5) mod_mult_nonzero [OF scalar_lawsD(1) [OF laws]] by (simp add: shared_log_sym(1))
qed

section \<open>Properties\<close>

text \<open>Drawing a nonzero scalar terminates exactly when the generator ever yields a nonzero
scalar: if every draw is zero the loop runs forever, and otherwise it returns the first draw that is
not zero.\<close>

theorem random_scalar_terminates:
  "(random_scalar c False r = None \<longleftrightarrow> (\<forall>n. Scalar_is_zero c (nth_draw c n r))) \<and>
   (\<forall>n. (\<forall>i<n. Scalar_is_zero c (nth_draw c i r)) \<and> \<not> Scalar_is_zero c (nth_draw c n r) \<longrightarrow>
      (\<exists>r'. random_scalar c False r = Some (nth_draw c n r, r')))"
proof -
  have "\<exists>n. (\<forall>i<n. Scalar_is_zero c (nth_draw c i r)) \<and> \<not> Scalar_is_zero c (nth_draw c n r)"
    if "\<not> Scalar_is_zero c (nth_draw c m r)" for m
    using that exists_least_iff [of "\<lambda>n. \<not> Scalar_is_zero c (nth_draw c n r)"] by blast
  then show ?thesis
    using random_scalar_first [of _ c r] random_scalar_nonzero [of c False r] by (metis not_None_eq)
qed

theorem random_scalar_terminates_witness:
  "\<exists>r'. random_scalar toy_p256 False 5 = Some (Z1, r')"
proof -
  have "(\<forall>i<1. Scalar_is_zero toy_p256 (nth_draw toy_p256 i 5)) \<and> \<not> Scalar_is_zero toy_p256 (nth_draw toy_p256 1 5)"
      "nth_draw toy_p256 1 5 = Z1"
    by (simp_all add: toy_p256_def z5_of_def)
  then show ?thesis
    using random_scalar_terminates [of toy_p256 5] by metis
qed

text \<open>C13: Key agreement of EC J-PAKE. A client and a server that were created with the same
password and whose generators do not draw zero forever both complete: each round returns, each
message decodes from its wire form to itself with its proofs verified, and both sides derive the
same 32-byte session key. The three hypotheses on the drawn scalars exclude the negligible
cases in which a sum of them vanishes and the code stops with an identity error.\<close>

theorem jpake_agreement:
  assumes laws: "p256_laws c q val dl" and live: "rng_live c ra" "rng_live c rb"
    and client: "EcJpakeParty_new_thread_with_rng c cr Client secret ra = Some (a, ra')"
    and server: "EcJpakeParty_new_thread_with_rng c cr Server secret rb = Some (b, rb')"
    and nondeg: "(val (ej_x1 a) + val (ej_x1 b)) mod q \<noteq> 0" "base_log q val a b \<noteq> 0" "base_log q val b a \<noteq> 0"
  shows "\<exists>ma mb ta tb key.
    honest_run c cr a b ra' rb' ma mb ta tb \<and>
    ecjpake_finish c cr a ma mb tb = Ok key \<and> ecjpake_finish c cr b mb ma ta = Ok key \<and> length key = 32"
proof -
  note A = party_new_thread [OF laws live(1) client] and B = party_new_thread [OF laws live(2) server]
  obtain ma mb ta tb P Q where run: "honest_run c cr a b ra' rb' ma mb ta tb"
    "dl P = shared_log q val a b" "dl Q = shared_log q val b a"
    "ecjpake_finish c cr a ma mb tb = (if shared_log q val a b = 0
       then Err (Crypto ''derived J-PAKE point is identity'') else derive_session_key c cr P)"
    "ecjpake_finish c cr b mb ma ta = (if shared_log q val b a = 0
       then Err (Crypto ''derived J-PAKE point is identity'') else derive_session_key c cr Q)"
    using honest_run_exists [OF laws A(1) B(1) A(2) B(2) nondeg(2,3)] by blast
  have s: "shared_log q val a b \<noteq> 0" "shared_log q val a b = shared_log q val b a"
    using shared_log_nonzero [OF laws A(2) B(2)] shared_log_sym(2) [of val a b q] A(5) B(5) nondeg(1) by simp_all
  then have "P = Q"
    using run(2,3) point_lawsD(3) [OF laws] by metis
  moreover obtain x where "derive_session_key c cr P = Ok (to_be 32 (sha256 cr x))"
    using derive_session_key_Ok [OF laws] run(2) s(1) by metis
  ultimately show ?thesis
    using run(1,4,5) s by (intro exI [of _ ma] exI [of _ mb] exI [of _ ta] exI [of _ tb]) simp
qed

theorem jpake_agreement_witness:
  "\<exists>a b ma mb ta tb key.
    EcJpakeParty_new_thread_with_rng toy_p256 toy_crypto Client [1] 1 = Some (a, 3) \<and>
    EcJpakeParty_new_thread_with_rng toy_p256 toy_crypto Server [1] 1 = Some (b, 3) \<and>
    honest_run toy_p256 toy_crypto a b 3 3 ma mb ta tb \<and>
    ecjpake_finish toy_p256 toy_crypto a ma mb tb = Ok key \<and>
    ecjpake_finish toy_p256 toy_crypto b mb ma ta = Ok key \<and> length key = 32"
proof -
  have r: "random_scalar toy_p256 False 1 = Some (Z1, 2)" "random_scalar toy_p256 False 2 = Some (Z2, 3)"
    by (subst random_scalar_unfold, simp add: toy_p256_def z5_of_def)+
  let ?p = "\<lambda>role. \<lparr>ej_role = role, ej_id = thread_participant_id role,
      ej_secret = scalar_from_secret toy_p256 toy_crypto [1], ej_x1 = Z1, ej_x2 = Z2\<rparr>"
  have new: "EcJpakeParty_new_thread_with_rng toy_p256 toy_crypto role [1] 1 = Some (?p role, 3)" for role
    using r by (simp add: EcJpakeParty_new_thread_with_rng_def EcJpakeParty_new_with_rng_def r_then_def r_ret_def)
  have "(z5_val (ej_x1 (?p Client)) + z5_val (ej_x1 (?p Server))) mod 5 \<noteq> 0"
      "base_log 5 z5_val (?p Client) (?p Server) \<noteq> 0" "base_log 5 z5_val (?p Server) (?p Client) \<noteq> 0"
    by (simp_all add: base_log_def)
  from jpake_agreement [OF p256_laws_toy rng_live_toy rng_live_toy new [of Client] new [of Server] this] new
  show ?thesis
    by blast
qed

text \<open>C15: Different passwords. When the two sides were created with passwords that reduce to
different scalars, the rounds still complete (nothing about the mismatch is visible in them), but
the two sides end at different curve points, so what each hashes into its session key is not the
other's point.\<close>

theorem jpake_wrong_password:
  assumes laws: "p256_laws c q val dl" and live: "rng_live c ra" "rng_live c rb"
    and client: "EcJpakeParty_new_thread_with_rng c cr Client secret ra = Some (a, ra')"
    and server: "EcJpakeParty_new_thread_with_rng c cr Server secret' rb = Some (b, rb')"
    and differ: "val (scalar_from_secret c cr secret) \<noteq> val (scalar_from_secret c cr secret')"
    and nondeg: "(val (ej_x1 a) + val (ej_x1 b) + val (ej_x2 a) + val (ej_x2 b)) mod q \<noteq> 0"
      "base_log q val a b \<noteq> 0" "base_log q val b a \<noteq> 0"
  shows "\<exists>ma mb ta tb P Q.
    honest_run c cr a b ra' rb' ma mb ta tb \<and> P \<noteq> Q \<and>
    ecjpake_finish c cr a ma mb tb = (if point_is_identity c P
      then Err (Crypto ''derived J-PAKE point is identity'') else derive_session_key c cr P) \<and>
    ecjpake_finish c cr b mb ma ta = (if point_is_identity c Q
      then Err (Crypto ''derived J-PAKE point is identity'') else derive_session_key c cr Q)"
proof -
  note A = party_new_thread [OF laws live(1) client] and B = party_new_thread [OF laws live(2) server]
  obtain ma mb ta tb P Q where run: "honest_run c cr a b ra' rb' ma mb ta tb"
    "dl P = shared_log q val a b" "dl Q = shared_log q val b a"
    "ecjpake_finish c cr a ma mb tb = (if shared_log q val a b = 0
       then Err (Crypto ''derived J-PAKE point is identity'') else derive_session_key c cr P)"
    "ecjpake_finish c cr b mb ma ta = (if shared_log q val b a = 0
       then Err (Crypto ''derived J-PAKE point is identity'') else derive_session_key c cr Q)"
    using honest_run_exists [OF laws A(1) B(1) A(2) B(2) nondeg(2,3)] by blast
  have range: "0 \<le> val x \<and> val x < q" for x
    using scalar_lawsD(2,3) [OF laws] by simp
  have "(val (ej_secret b) - val (ej_secret a)) mod q \<noteq> 0"
  proof
    assume "(val (ej_secret b) - val (ej_secret a)) mod q = 0"
    then have "val (ej_secret b) mod q = val (ej_secret a) mod q"
      by (simp add: mod_eq_dvd_iff dvd_eq_mod_eq_0)
    then show False
      using differ A(5) B(5) range by (metis mod_pos_pos_trivial)
  qed
  moreover have "val (ej_x2 a) mod q \<noteq> 0" "val (ej_x2 b) mod q \<noteq> 0"
    using A(2) B(2) range by (simp_all add: party_ok_def)
  ultimately have "(shared_log q val a b - shared_log q val b a) mod q \<noteq> 0"
    using nondeg(1) mod_mult_nonzero [OF scalar_lawsD(1) [OF laws]] by (simp add: shared_log_diff)
  then have "P \<noteq> Q"
    using run(2,3) by force
  moreover have "point_is_identity c P \<longleftrightarrow> shared_log q val a b = 0"
      "point_is_identity c Q \<longleftrightarrow> shared_log q val b a = 0"
    using run(2,3) point_lawsD(5) [OF laws] by simp_all
  ultimately show ?thesis
    using run(1,4,5) by (intro exI [of _ ma] exI [of _ mb] exI [of _ ta] exI [of _ tb] exI [of _ P] exI [of _ Q]) simp
qed

theorem jpake_wrong_password_witness:
  "\<exists>a b ma mb ta tb P Q.
    EcJpakeParty_new_thread_with_rng toy_p256 toy_crypto Client [1] 1 = Some (a, 3) \<and>
    EcJpakeParty_new_thread_with_rng toy_p256 toy_crypto Server [2] 1 = Some (b, 3) \<and>
    honest_run toy_p256 toy_crypto a b 3 3 ma mb ta tb \<and> P \<noteq> Q \<and>
    ecjpake_finish toy_p256 toy_crypto a ma mb tb = (if point_is_identity toy_p256 P
      then Err (Crypto ''derived J-PAKE point is identity'') else derive_session_key toy_p256 toy_crypto P)"
proof -
  have r: "random_scalar toy_p256 False 1 = Some (Z1, 2)" "random_scalar toy_p256 False 2 = Some (Z2, 3)"
    by (subst random_scalar_unfold, simp add: toy_p256_def z5_of_def)+
  let ?p = "\<lambda>role s. \<lparr>ej_role = role, ej_id = thread_participant_id role,
      ej_secret = scalar_from_secret toy_p256 toy_crypto s, ej_x1 = Z1, ej_x2 = Z2\<rparr>"
  have new: "EcJpakeParty_new_thread_with_rng toy_p256 toy_crypto role s 1 = Some (?p role s, 3)" for role s
    using r by (simp add: EcJpakeParty_new_thread_with_rng_def EcJpakeParty_new_with_rng_def r_then_def r_ret_def)
  have "z5_val (scalar_from_secret toy_p256 toy_crypto [1]) \<noteq> z5_val (scalar_from_secret toy_p256 toy_crypto [2])"
    by (simp add: scalar_from_secret_def toy_p256_def nth_append z5_of_def)
  moreover have "(z5_val (ej_x1 (?p Client [1])) + z5_val (ej_x1 (?p Server [2])) +
      z5_val (ej_x2 (?p Client [1])) + z5_val (ej_x2 (?p Server [2]))) mod 5 \<noteq> 0"
      "base_log 5 z5_val (?p Client [1]) (?p Server [2]) \<noteq> 0" "base_log 5 z5_val (?p Server [2]) (?p Client [1]) \<noteq> 0"
    by (simp_all add: base_log_def)
  ultimately show ?thesis
    using jpake_wrong_password [OF p256_laws_toy rng_live_toy rng_live_toy new [of Client "[1]"] new [of Server "[2]"]]
      new by blast
qed

text \<open>C19: Schnorr proofs are sound in the sense of the forking argument. Two proofs of the same
statement that share the commitment and are accepted under different challenges (for two
hash functions) reveal the private scalar: any \<open>priv\<close> with \<open>public = base * priv\<close> satisfies
\<open>priv * (c' - c) = r - r'\<close> modulo the group order, which has no zero divisors, so the difference of the
challenges can be divided out. An accepted proof moreover names its prover and has a public point
that is not the identity.\<close>

theorem schnorr_special_soundness:
  assumes laws: "p256_laws c q val dl" and base: "dl base \<noteq> 0"
    and one: "SchnorrProof_verify c cr pf base (point_mul c base priv) pid info = Ok ()"
    and two: "SchnorrProof_verify c cr' pf' base (point_mul c base priv) pid info = Ok ()"
    and same: "sp_v pf' = sp_v pf" and v: "point_from_bytes c (sp_v pf) = Ok v"
  shows "\<exists>r r'. scalar_from_repr c (sp_r pf) = Ok r \<and> scalar_from_repr c (sp_r pf') = Ok r' \<and>
    val priv * (val (challenge_scalar c cr' base v (point_mul c base priv) pid info)
      - val (challenge_scalar c cr base v (point_mul c base priv) pid info)) mod q = (val r - val r') mod q \<and>
    val priv \<noteq> 0 \<and> prover_id pf = pid \<and> prover_id pf' = pid"
proof -
  let ?P = "point_mul c base priv"
  let ?c = "val (challenge_scalar c cr base v ?P pid info)" and ?c' = "val (challenge_scalar c cr' base v ?P pid info)"
  note L = scalar_lawsD [OF laws] point_lawsD [OF laws]
  obtain r where r: "scalar_from_repr c (sp_r pf) = Ok r" "prover_id pf = pid" "\<not> point_is_identity c ?P"
      "point_to_bytes c (point_add c (point_mul c base r) (point_mul c ?P (challenge_scalar c cr base v ?P pid info))) = sp_v pf"
    using one v by (auto simp: SchnorrProof_verify_Ok)
  obtain r' where r': "scalar_from_repr c (sp_r pf') = Ok r'" "prover_id pf' = pid"
      "point_to_bytes c (point_add c (point_mul c base r') (point_mul c ?P (challenge_scalar c cr' base v ?P pid info))) = sp_v pf"
    using two v same by (auto simp: SchnorrProof_verify_Ok)
  have "AffinePoint_decode c (sp_v pf) = Some v"
    using v by (auto simp: point_from_bytes_def result_simps split: if_splits)
  then have dec: "p = v" if "point_to_bytes c p = sp_v pf" for p
    using that decode_encoded [OF laws, of p] by (simp add: point_to_bytes_def)
  have cancel: "k * (x - y) mod q = 0" if "k * x mod q = k * y mod q" for k x y
    using that by (simp add: mod_eq_dvd_iff right_diff_distrib flip: dvd_eq_mod_eq_0)
  have eq: "dl (point_add c (point_mul c base x) (point_mul c ?P y)) = dl base * (val x + val priv * val y) mod q" for x y
    by (simp add: L mod_simps algebra_simps)
  have "dl base * (val r + val priv * ?c) mod q = dl v"
    using eq dec [OF r(4)] by metis
  moreover have "dl base * (val r' + val priv * ?c') mod q = dl v"
    using eq dec [OF r'(3)] by metis
  ultimately have "dl base * ((val r + val priv * ?c) - (val r' + val priv * ?c')) mod q = 0"
    by (intro cancel) simp
  moreover have "dl base mod q \<noteq> 0"
    using base L(10,11) by simp
  ultimately have "((val r + val priv * ?c) - (val r' + val priv * ?c')) mod q = 0"
    using mod_mult_nonzero [OF L(1)] by metis
  moreover have "(val r + val priv * ?c) - (val r' + val priv * ?c') = (val r - val r') - val priv * (?c' - ?c)"
    by (simp add: algebra_simps)
  ultimately have "val priv * (?c' - ?c) mod q = (val r - val r') mod q"
    by (metis mod_eq_dvd_iff dvd_eq_mod_eq_0)
  moreover have "val priv \<noteq> 0"
    using r(3) by (auto simp: L)
  ultimately show ?thesis
    using r(1,2) r'(1,2) by blast
qed

theorem schnorr_special_soundness_witness:
  "\<exists>r r'. scalar_from_repr toy_p256 (Scalar_to_bytes toy_p256 Z3) = Ok r \<and>
     scalar_from_repr toy_p256 (Scalar_to_bytes toy_p256 Z1) = Ok r' \<and>
     (2 :: int) * (1 - 0) mod 5 = (z5_val r - z5_val r') mod 5"
proof -
  let ?cr = "toy_crypto\<lparr>sha256 := \<lambda>_. 0\<rparr>" and ?cr' = "toy_crypto\<lparr>sha256 := \<lambda>_. 1\<rparr>"
  let ?pf = "\<lambda>r. \<lparr>sp_v = point_to_bytes toy_p256 Z3, sp_r = Scalar_to_bytes toy_p256 r, prover_id = [1]\<rparr>"
  have ch: "challenge_scalar toy_p256 ?cr p v P pid info = Z0" "challenge_scalar toy_p256 ?cr' p v P pid info = Z1"
    for p v P pid info
  proof -
    have "to_be 32 (0 :: 256 word) ! 31 = 0" "to_be 32 (1 :: 256 word) ! 31 = 1"
      using nth_rev_to_be [of 0 32 "0 :: 256 word"] nth_rev_to_be [of 0 32 "1 :: 256 word"] by (simp_all add: rev_nth)
    then show "challenge_scalar toy_p256 ?cr p v P pid info = Z0" "challenge_scalar toy_p256 ?cr' p v P pid info = Z1"
      by (simp_all add: challenge_scalar_def toy_p256_def z5_of_def)
  qed
  have v: "point_from_bytes toy_p256 (point_to_bytes toy_p256 Z3) = Ok Z3"
      "scalar_from_repr toy_p256 (Scalar_to_bytes toy_p256 a) = Ok a" for a
    using point_bytes [OF p256_laws_toy, of Z3] scalar_bytes [OF p256_laws_toy] by simp_all
  have "SchnorrProof_verify toy_p256 ?cr (?pf Z3) Z1 (point_mul toy_p256 Z1 Z2) [1] [] = Ok ()"
      "SchnorrProof_verify toy_p256 ?cr' (?pf Z1) Z1 (point_mul toy_p256 Z1 Z2) [1] [] = Ok ()"
    using v by (simp_all add: SchnorrProof_verify_Ok ch) (simp_all add: toy_p256_def point_to_bytes_def z5_of_def)
  from schnorr_special_soundness [OF p256_laws_toy _ this] v show ?thesis
    by (simp add: ch)
qed

end
