(* ===== verification/Thread_Handshake.thy ===== *)
theory Thread_Handshake
  imports Hello Ecjpake
begin

text \<open>
  The Thread DTLS handshake of both roles (\<^verbatim>\<open>thread_handshake.rs\<close>, \<^verbatim>\<open>thread_server_handshake.rs\<close>): what each
  side accepts, sends and records in its transcript, the key material, the Finished messages, and
  the server's stateless cookies. A step that draws randomness maps the generator's state as in
  \<^verbatim>\<open>P256\<close>. Shown: an honest client and server with the same password complete the whole exchange, agree on
  the key material and accept each other's Finished; and a Finished over another transcript or
  key is refused without changing the state.
\<close>

section \<open>Cookies\<close>

definition DTLS_COOKIE_LEN :: nat where "DTLS_COOKIE_LEN = 16"

record DtlsCookieGenerator =
  cookie_key :: bytes

definition DtlsCookieGenerator_new_with_rng :: "('r, 's, 'p) p256 \<Rightarrow> 'r \<Rightarrow> DtlsCookieGenerator \<times> 'r" where
  "DtlsCookieGenerator_new_with_rng c rng =
     (case fill_bytes c 32 rng of (key, rng') \<Rightarrow> (\<lparr>cookie_key = key\<rparr>, rng'))"

definition cookie :: "crypto \<Rightarrow> DtlsCookieGenerator \<Rightarrow> bytes \<Rightarrow> dtls_error + bytes" where
  "cookie cr g client_random =
     and_then (ok_or (hmac_sha256 cr (cookie_key g) client_random) (Crypto ''invalid cookie HMAC key''))
       (\<lambda>digest. Ok (take DTLS_COOKIE_LEN (to_be 32 digest)))"

definition cookie_verify :: "crypto \<Rightarrow> DtlsCookieGenerator \<Rightarrow> bytes \<Rightarrow> bytes \<Rightarrow> bool" where
  "cookie_verify cr g client_random ck =
     (case cookie cr g client_random of Inr expected \<Rightarrow> expected = ck | Inl _ \<Rightarrow> False)"

section \<open>Client\<close>

record 's ThreadDtlsHandshake =
  tc_ecjpake :: "'s EcJpakeParty"
  tc_client_round_one :: RoundOne
  tc_server_round_one :: "RoundOne option"
  tc_server_round_two :: "RoundTwo option"
  tc_client_random :: bytes
  tc_server_random :: "bytes option"
  tc_transcript :: HandshakeTranscript

definition ThreadDtlsHandshake_new_with_rng ::
  "('r, 's, 'p) p256 \<Rightarrow> crypto \<Rightarrow> bytes \<Rightarrow> ('r, 's ThreadDtlsHandshake) rand" where
  "ThreadDtlsHandshake_new_with_rng c cr pskc rng =
     (case fill_bytes c 32 rng of (client_random, rng) \<Rightarrow>
        r_then (EcJpakeParty_new_thread_with_rng c cr EcJpakeRole.Client pskc)
          (\<lambda>ecjpake. r_then (round_one c cr ecjpake)
          (\<lambda>client_round_one. r_ret
             \<lparr>tc_ecjpake = ecjpake, tc_client_round_one = client_round_one, tc_server_round_one = None,
              tc_server_round_two = None, tc_client_random = client_random, tc_server_random = None,
              tc_transcript = HandshakeTranscript_new\<rparr>)) rng)"

definition client_hello_state ::
  "('r, 's, 'p) p256 \<Rightarrow> 's ThreadDtlsHandshake \<Rightarrow> dtls_error + DtlsClientHelloState" where
  "client_hello_state c s =
     and_then (encode_tls_kkpp c (tc_client_round_one s))
       (\<lambda>kkpp. Ok (with_ecjpake_kkpp (tc_client_random s) kkpp))"

definition tc_push :: "HandshakeMessage \<Rightarrow> ('s ThreadDtlsHandshake, dtls_error, unit) action" where
  "tc_push m s =
     (case HandshakeTranscript_push m (tc_transcript s) of (t, r) \<Rightarrow> (s\<lparr>tc_transcript := t\<rparr>, r))"

definition record_client_hello :: "HandshakeMessage \<Rightarrow> ('s ThreadDtlsHandshake, dtls_error, unit) action" where
  "record_client_hello m =
     (if hm_type m \<noteq> HandshakeType.ClientHello then st_err (Crypto ''expected ClientHello message'')
      else tc_push m)"

definition handle_server_hello ::
  "('r, 's, 'p) p256 \<Rightarrow> crypto \<Rightarrow> HandshakeMessage \<Rightarrow> ('s ThreadDtlsHandshake, dtls_error, ServerHello) action" where
  "handle_server_hello c cr m =
     (if hm_type m \<noteq> HandshakeType.ServerHello then st_err (Crypto ''expected ServerHello message'')
      else st_then (st_lift (ServerHello_decode (hm_payload m)))
        (\<lambda>hello. st_then (st_lift (validate_thread_profile hello))
        (\<lambda>_. st_then (st_lift (ok_or (ServerHello_ecjpake_kkpp hello) (Crypto ''ServerHello missing ECJPAKE KKPP'')))
        (\<lambda>kkpp. st_then (st_lift (decode_tls_kkpp c cr kkpp THREAD_SERVER_ID))
        (\<lambda>r1. st_then (st_modify (\<lambda>s. s\<lparr>tc_server_round_one := Some r1, tc_server_random := Some (sh_random hello)\<rparr>))
        (\<lambda>_. st_then (tc_push m)
        (\<lambda>_. st_ok hello)))))))"

definition handle_server_key_exchange ::
  "('r, 's, 'p) p256 \<Rightarrow> HandshakeMessage \<Rightarrow> ('s ThreadDtlsHandshake, dtls_error, RoundTwo) action" where
  "handle_server_key_exchange c m =
     (if hm_type m \<noteq> ServerKeyExchange then st_err (Crypto ''expected ServerKeyExchange message'')
      else st_then (st_lift (decode_tls_key_exchange c (hm_payload m) THREAD_SERVER_ID True))
        (\<lambda>r2. st_then (st_modify (\<lambda>s. s\<lparr>tc_server_round_two := Some r2\<rparr>))
        (\<lambda>_. st_then (tc_push m)
        (\<lambda>_. st_ok r2))))"

definition handle_server_hello_done :: "HandshakeMessage \<Rightarrow> ('s ThreadDtlsHandshake, dtls_error, unit) action" where
  "handle_server_hello_done m =
     (if hm_type m \<noteq> ServerHelloDone \<or> hm_payload m \<noteq> []
      then st_err (Crypto ''expected empty ServerHelloDone message'')
      else tc_push m)"

definition build_client_key_exchange ::
  "('r, 's, 'p) p256 \<Rightarrow> crypto \<Rightarrow> u16 \<Rightarrow> 's ThreadDtlsHandshake \<Rightarrow>
     ('r, 's ThreadDtlsHandshake \<times> (dtls_error + HandshakeMessage)) rand" where
  "build_client_key_exchange c cr seq s =
     (case tc_server_round_one s of
        None \<Rightarrow> r_ret (st_err (InvalidState ''server ECJPAKE round one is missing'') s)
      | Some server_round_one \<Rightarrow>
          r_then (round_two c cr (tc_ecjpake s) (tc_client_round_one s) server_round_one)
            (\<lambda>r2. r_ret (st_then (st_lift r2)
               (\<lambda>client_round_two. st_then (st_lift (encode_tls_key_exchange c client_round_two False))
               (\<lambda>body. let m = \<lparr>hm_type = ClientKeyExchange, hm_seq = seq, hm_payload = body\<rparr>
                       in st_then (tc_push m) (\<lambda>_. st_ok m))) s)))"

definition client_derive_key_material ::
  "('r, 's, 'p) p256 \<Rightarrow> crypto \<Rightarrow> 's ThreadDtlsHandshake \<Rightarrow> dtls_error + ThreadDtlsKeyMaterial" where
  "client_derive_key_material c cr s =
     and_then (ok_or (tc_server_round_one s) (InvalidState ''server ECJPAKE round one is missing''))
       (\<lambda>r1. and_then (ok_or (tc_server_round_two s) (InvalidState ''server ECJPAKE round two is missing''))
       (\<lambda>r2. and_then (ok_or (tc_server_random s) (InvalidState ''server random is missing''))
       (\<lambda>server_random. and_then (ecjpake_finish c cr (tc_ecjpake s) (tc_client_round_one s) r1 r2)
       (\<lambda>pre_master_secret. and_then (derive_master_secret cr pre_master_secret (tc_client_random s) server_random)
       (\<lambda>ms. and_then (derive_aes_128_ccm_8_key_block cr ms (tc_client_random s) server_random)
       (\<lambda>kb. Ok \<lparr>master_secret = ms, key_block = kb\<rparr>))))))"

definition client_finished_verify_data ::
  "('r, 's, 'p) p256 \<Rightarrow> crypto \<Rightarrow> 's ThreadDtlsHandshake \<Rightarrow> dtls_error + bytes" where
  "client_finished_verify_data c cr s =
     and_then (client_derive_key_material c cr s)
       (\<lambda>km. transcript_finished_verify_data cr (tc_transcript s) (master_secret km) FinishedRole.Client)"

definition build_client_finished ::
  "('r, 's, 'p) p256 \<Rightarrow> crypto \<Rightarrow> u16 \<Rightarrow> ('s ThreadDtlsHandshake, dtls_error, HandshakeMessage) action" where
  "build_client_finished c cr seq s =
     st_then (st_lift (client_finished_verify_data c cr s))
       (\<lambda>verify_data. let m = \<lparr>hm_type = Finished, hm_seq = seq, hm_payload = verify_data\<rparr>
          in st_then (tc_push m) (\<lambda>_. st_ok m)) s"

definition verify_server_finished ::
  "crypto \<Rightarrow> HandshakeMessage \<Rightarrow> ThreadDtlsKeyMaterial \<Rightarrow> ('s ThreadDtlsHandshake, dtls_error, unit) action" where
  "verify_server_finished cr m km s =
     (if hm_type m \<noteq> Finished then (s, Err (Crypto ''expected Finished message''))
      else st_then (st_lift (transcript_finished_verify_data cr (tc_transcript s) (master_secret km) FinishedRole.Server))
        (\<lambda>expected. if expected \<noteq> hm_payload m
           then st_err (Crypto ''server Finished verify_data mismatch'')
           else tc_push m) s)"

section \<open>Server\<close>

record 's ThreadDtlsServerHandshake =
  ts_ecjpake :: "'s EcJpakeParty"
  ts_server_round_one :: RoundOne
  ts_client_round_one :: "RoundOne option"
  ts_client_round_two :: "RoundTwo option"
  ts_server_random :: bytes
  ts_client_random :: "bytes option"
  ts_transcript :: HandshakeTranscript

definition ThreadDtlsServerHandshake_new_with_rng ::
  "('r, 's, 'p) p256 \<Rightarrow> crypto \<Rightarrow> bytes \<Rightarrow> ('r, 's ThreadDtlsServerHandshake) rand" where
  "ThreadDtlsServerHandshake_new_with_rng c cr shared_secret rng =
     (case fill_bytes c 32 rng of (server_random, rng) \<Rightarrow>
        r_then (EcJpakeParty_new_thread_with_rng c cr EcJpakeRole.Server shared_secret)
          (\<lambda>ecjpake. r_then (round_one c cr ecjpake)
          (\<lambda>server_round_one. r_ret
             \<lparr>ts_ecjpake = ecjpake, ts_server_round_one = server_round_one, ts_client_round_one = None,
              ts_client_round_two = None, ts_server_random = server_random, ts_client_random = None,
              ts_transcript = HandshakeTranscript_new\<rparr>)) rng)"

definition ts_push :: "HandshakeMessage \<Rightarrow> ('s ThreadDtlsServerHandshake, dtls_error, unit) action" where
  "ts_push m s =
     (case HandshakeTranscript_push m (ts_transcript s) of (t, r) \<Rightarrow> (s\<lparr>ts_transcript := t\<rparr>, r))"

definition handle_client_hello ::
  "('r, 's, 'p) p256 \<Rightarrow> crypto \<Rightarrow> HandshakeMessage \<Rightarrow> ('s ThreadDtlsServerHandshake, dtls_error, ClientHello) action" where
  "handle_client_hello c cr m =
     (if hm_type m \<noteq> HandshakeType.ClientHello then st_err (Crypto ''expected ClientHello message'')
      else st_then (st_lift (ClientHello_decode (hm_payload m)))
        (\<lambda>hello.
           if TLS_ECJPAKE_WITH_AES_128_CCM_8 \<notin> set (cipher_suites hello)
           then st_err (Crypto ''ClientHello does not offer TLS_ECJPAKE_WITH_AES_128_CCM_8'')
           else if TLS_COMPRESSION_NULL \<notin> set (compression_methods hello)
           then st_err (Crypto ''ClientHello does not offer null compression'')
           else st_then (st_lift (ok_or (ClientHello_ecjpake_kkpp hello) (Crypto ''ClientHello missing ECJPAKE KKPP'')))
             (\<lambda>kkpp. st_then (st_lift (decode_tls_kkpp c cr kkpp THREAD_CLIENT_ID))
             (\<lambda>r1. st_then (st_modify (\<lambda>s. s\<lparr>ts_client_round_one := Some r1, ts_client_random := Some (ch_random hello)\<rparr>))
             (\<lambda>_. st_then (ts_push m)
             (\<lambda>_. st_ok hello))))))"

definition build_server_hello ::
  "('r, 's, 'p) p256 \<Rightarrow> u16 \<Rightarrow> ('s ThreadDtlsServerHandshake, dtls_error, HandshakeMessage) action" where
  "build_server_hello c seq s =
     (if ts_client_random s = None then (s, Err (InvalidState ''ClientHello has not been accepted''))
      else st_then (st_lift (encode_tls_kkpp c (ts_server_round_one s)))
        (\<lambda>kkpp. st_then (st_lift (ServerHello_encode
             \<lparr>sh_random = ts_server_random s, sh_session_id = [], cipher_suite = TLS_ECJPAKE_WITH_AES_128_CCM_8,
              compression_method = TLS_COMPRESSION_NULL,
              sh_extensions = [\<lparr>extension_type = EXTENSION_ECJPAKE_KKPP, ext_data = kkpp\<rparr>,
                               ec_point_formats_extension]\<rparr>))
        (\<lambda>body. let m = \<lparr>hm_type = HandshakeType.ServerHello, hm_seq = seq, hm_payload = body\<rparr>
           in st_then (ts_push m) (\<lambda>_. st_ok m))) s)"

definition build_server_key_exchange ::
  "('r, 's, 'p) p256 \<Rightarrow> crypto \<Rightarrow> u16 \<Rightarrow> 's ThreadDtlsServerHandshake \<Rightarrow>
     ('r, 's ThreadDtlsServerHandshake \<times> (dtls_error + HandshakeMessage)) rand" where
  "build_server_key_exchange c cr seq s =
     (case ts_client_round_one s of
        None \<Rightarrow> r_ret (st_err (InvalidState ''client ECJPAKE round one is missing'') s)
      | Some client_round_one \<Rightarrow>
          r_then (round_two c cr (ts_ecjpake s) (ts_server_round_one s) client_round_one)
            (\<lambda>r2. r_ret (st_then (st_lift r2)
               (\<lambda>server_round_two. st_then (st_lift (encode_tls_key_exchange c server_round_two True))
               (\<lambda>body. let m = \<lparr>hm_type = ServerKeyExchange, hm_seq = seq, hm_payload = body\<rparr>
                       in st_then (ts_push m) (\<lambda>_. st_ok m))) s)))"

definition build_server_hello_done :: "u16 \<Rightarrow> ('s ThreadDtlsServerHandshake, dtls_error, HandshakeMessage) action" where
  "build_server_hello_done seq =
     (let m = \<lparr>hm_type = ServerHelloDone, hm_seq = seq, hm_payload = []\<rparr>
      in st_then (ts_push m) (\<lambda>_. st_ok m))"

definition handle_client_key_exchange ::
  "('r, 's, 'p) p256 \<Rightarrow> HandshakeMessage \<Rightarrow> ('s ThreadDtlsServerHandshake, dtls_error, unit) action" where
  "handle_client_key_exchange c m =
     (if hm_type m \<noteq> ClientKeyExchange then st_err (Crypto ''expected ClientKeyExchange message'')
      else st_then (st_lift (decode_tls_key_exchange c (hm_payload m) THREAD_CLIENT_ID False))
        (\<lambda>r2. st_then (st_modify (\<lambda>s. s\<lparr>ts_client_round_two := Some r2\<rparr>))
        (\<lambda>_. ts_push m)))"

definition server_derive_key_material ::
  "('r, 's, 'p) p256 \<Rightarrow> crypto \<Rightarrow> 's ThreadDtlsServerHandshake \<Rightarrow> dtls_error + ThreadDtlsKeyMaterial" where
  "server_derive_key_material c cr s =
     and_then (ok_or (ts_client_round_one s) (InvalidState ''client ECJPAKE round one is missing''))
       (\<lambda>r1. and_then (ok_or (ts_client_round_two s) (InvalidState ''client ECJPAKE round two is missing''))
       (\<lambda>r2. and_then (ok_or (ts_client_random s) (InvalidState ''client random is missing''))
       (\<lambda>client_random. and_then (ecjpake_finish c cr (ts_ecjpake s) (ts_server_round_one s) r1 r2)
       (\<lambda>pre_master_secret. and_then (derive_master_secret cr pre_master_secret client_random (ts_server_random s))
       (\<lambda>ms. and_then (derive_aes_128_ccm_8_key_block cr ms client_random (ts_server_random s))
       (\<lambda>kb. Ok \<lparr>master_secret = ms, key_block = kb\<rparr>))))))"

definition verify_client_finished ::
  "crypto \<Rightarrow> HandshakeMessage \<Rightarrow> ThreadDtlsKeyMaterial \<Rightarrow> ('s ThreadDtlsServerHandshake, dtls_error, unit) action" where
  "verify_client_finished cr m km s =
     (if hm_type m \<noteq> Finished then (s, Err (Crypto ''expected Finished message''))
      else st_then (st_lift (transcript_finished_verify_data cr (ts_transcript s) (master_secret km) FinishedRole.Client))
        (\<lambda>expected. if expected \<noteq> hm_payload m
           then st_err (Crypto ''client Finished verify_data mismatch'')
           else ts_push m) s)"

definition build_server_finished ::
  "crypto \<Rightarrow> u16 \<Rightarrow> ThreadDtlsKeyMaterial \<Rightarrow> ('s ThreadDtlsServerHandshake, dtls_error, HandshakeMessage) action" where
  "build_server_finished cr seq km s =
     st_then (st_lift (transcript_finished_verify_data cr (ts_transcript s) (master_secret km) FinishedRole.Server))
       (\<lambda>verify_data. let m = \<lparr>hm_type = Finished, hm_seq = seq, hm_payload = verify_data\<rparr>
          in st_then (ts_push m) (\<lambda>_. st_ok m)) s"

definition server_derive_joiner_router_kek ::
  "crypto \<Rightarrow> ThreadDtlsKeyMaterial \<Rightarrow> 's ThreadDtlsServerHandshake \<Rightarrow> dtls_error + bytes" where
  "server_derive_joiner_router_kek cr km s =
     and_then (ok_or (ts_client_random s) (InvalidState ''client random is missing''))
       (\<lambda>client_random. derive_joiner_router_kek cr (master_secret km) client_random (ts_server_random s))"

section \<open>Flights\<close>

definition message_bytes :: "HandshakeMessage \<Rightarrow> bytes" where
  "message_bytes m = header_bytes (whole_header m) @ hm_payload m"

definition tr_add :: "HandshakeMessage \<Rightarrow> HandshakeTranscript \<Rightarrow> HandshakeTranscript" where
  "tr_add m t = t\<lparr>transcript := transcript t @ message_bytes m\<rparr>"

lemma transcript_push_Ok:
  assumes "length (hm_payload m) \<le> 16777215"
  shows "tc_push m s = (s\<lparr>tc_transcript := tr_add m (tc_transcript s)\<rparr>, Ok ())"
    "ts_push m s' = (s'\<lparr>ts_transcript := tr_add m (ts_transcript s')\<rparr>, Ok ())"
  using transcript_bytes_eq [OF assms]
  by (simp_all add: tc_push_def ts_push_def HandshakeTranscript_push_def tr_add_def message_bytes_def)

lemmas step_defs = st_then_def st_lift_def st_modify_def st_ok_def Let_def

lemma client_new:
  assumes laws: "p256_laws c q val dl" and fills: "rng_fills c" and live: "rng_live c r"
    and new: "ThreadDtlsHandshake_new_with_rng c cr secret r = Some (s, r')"
  shows "rng_live c r'" "party_ok val (tc_ecjpake s)" "honest_one c cr (tc_ecjpake s) (tc_client_round_one s)"
    "ej_id (tc_ecjpake s) = THREAD_CLIENT_ID" "ej_secret (tc_ecjpake s) = scalar_from_secret c cr secret"
    "length (tc_client_random s) = 32" "tc_transcript s = HandshakeTranscript_new"
proof -
  obtain bs r0 where fill: "fill_bytes c 32 r = (bs, r0)"
    by fastforce
  then have l: "length bs = 32" "rng_live c r0"
    using fills rng_live_fill [OF live] unfolding rng_fills_def by (metis fst_conv)+
  obtain a r1 m where a: "EcJpakeParty_new_thread_with_rng c cr EcJpakeRole.Client secret r0 = Some (a, r1)"
      "round_one c cr a r1 = Some (m, r')"
    and s: "s = \<lparr>tc_ecjpake = a, tc_client_round_one = m, tc_server_round_one = None,
       tc_server_round_two = None, tc_client_random = bs, tc_server_random = None,
       tc_transcript = HandshakeTranscript_new\<rparr>"
    using new fill
    by (auto simp: ThreadDtlsHandshake_new_with_rng_def r_then_def r_ret_def split: option.splits prod.splits)
  note A = party_new_thread [OF laws l(2) a(1)]
  have "rng_live c r' \<and> honest_one c cr a m"
    by (rule round_one_honest [OF laws A(1,2), of cr]) (use a(2) in simp)
  then show "rng_live c r'" "party_ok val (tc_ecjpake s)" "honest_one c cr (tc_ecjpake s) (tc_client_round_one s)"
    "ej_id (tc_ecjpake s) = THREAD_CLIENT_ID" "ej_secret (tc_ecjpake s) = scalar_from_secret c cr secret"
    "length (tc_client_random s) = 32" "tc_transcript s = HandshakeTranscript_new"
    using A l(1) by (simp_all add: s)
qed

lemma server_new:
  assumes laws: "p256_laws c q val dl" and fills: "rng_fills c" and live: "rng_live c r"
    and new: "ThreadDtlsServerHandshake_new_with_rng c cr secret r = Some (s, r')"
  shows "rng_live c r'" "party_ok val (ts_ecjpake s)" "honest_one c cr (ts_ecjpake s) (ts_server_round_one s)"
    "ej_id (ts_ecjpake s) = THREAD_SERVER_ID" "ej_secret (ts_ecjpake s) = scalar_from_secret c cr secret"
    "length (ts_server_random s) = 32" "ts_transcript s = HandshakeTranscript_new"
proof -
  obtain bs r0 where fill: "fill_bytes c 32 r = (bs, r0)"
    by fastforce
  then have l: "length bs = 32" "rng_live c r0"
    using fills rng_live_fill [OF live] unfolding rng_fills_def by (metis fst_conv)+
  obtain a r1 m where a: "EcJpakeParty_new_thread_with_rng c cr EcJpakeRole.Server secret r0 = Some (a, r1)"
      "round_one c cr a r1 = Some (m, r')"
    and s: "s = \<lparr>ts_ecjpake = a, ts_server_round_one = m, ts_client_round_one = None,
       ts_client_round_two = None, ts_server_random = bs, ts_client_random = None,
       ts_transcript = HandshakeTranscript_new\<rparr>"
    using new fill
    by (auto simp: ThreadDtlsServerHandshake_new_with_rng_def r_then_def r_ret_def split: option.splits prod.splits)
  note A = party_new_thread [OF laws l(2) a(1)]
  have "rng_live c r' \<and> honest_one c cr a m"
    by (rule round_one_honest [OF laws A(1,2), of cr]) (use a(2) in simp)
  then show "rng_live c r'" "party_ok val (ts_ecjpake s)" "honest_one c cr (ts_ecjpake s) (ts_server_round_one s)"
    "ej_id (ts_ecjpake s) = THREAD_SERVER_ID" "ej_secret (ts_ecjpake s) = scalar_from_secret c cr secret"
    "length (ts_server_random s) = 32" "ts_transcript s = HandshakeTranscript_new"
    using A l(1) by (simp_all add: s)
qed

lemma client_hello_accepted:
  assumes laws: "p256_laws c q val dl" and a: "party_ok val a" "honest_one c cr a ma" "ej_id a = THREAD_CLIENT_ID"
    and rnd: "length rnd = 32" and ck: "length ck \<le> 255"
  obtains kkpp body where "encode_tls_kkpp c ma = Ok kkpp"
    "ClientHello_encode (thread_profile_with_ecjpake rnd ck kkpp) = Ok body" "length body \<le> 61000"
    "\<And>n sv. let m = \<lparr>hm_type = HandshakeType.ClientHello, hm_seq = n, hm_payload = body\<rparr> in
       handle_client_hello c cr m sv =
         (sv\<lparr>ts_client_round_one := Some ma, ts_client_random := Some rnd, ts_transcript := tr_add m (ts_transcript sv)\<rparr>,
          Ok (thread_profile_with_ecjpake rnd ck kkpp))"
proof -
  obtain kkpp where kkpp: "encode_tls_kkpp c ma = Ok kkpp" "length kkpp \<le> 330"
      "decode_tls_kkpp c cr kkpp THREAD_CLIENT_ID = Ok ma"
    using kkpp_roundtrip [OF laws a(1,2)] a(3) by metis
  define st where "st = (with_ecjpake_kkpp rnd kkpp)\<lparr>hs_cookie := ck\<rparr>"
  have st: "hello_of_state st = thread_profile_with_ecjpake rnd ck kkpp" "hs_random st = rnd" "hs_cookie st = ck"
      "hs_ecjpake_kkpp st = Some kkpp"
    by (simp_all add: st_def hello_of_state_def with_ecjpake_kkpp_def DtlsClientHelloState_new_def)
  obtain body where body: "ClientHello_encode (thread_profile_with_ecjpake rnd ck kkpp) = Ok body" "length body \<le> 61000"
      "ClientHello_decode body = Ok (thread_profile_with_ecjpake rnd ck kkpp)"
    by (rule hello_of_state_encodes [of st, unfolded st]) (use rnd ck kkpp(2) in simp_all)
  let ?h = "thread_profile_with_ecjpake rnd ck kkpp"
  have h: "TLS_ECJPAKE_WITH_AES_128_CCM_8 \<in> set (cipher_suites ?h)" "TLS_COMPRESSION_NULL \<in> set (compression_methods ?h)"
      "ClientHello_ecjpake_kkpp ?h = Some kkpp" "ch_random ?h = rnd"
    by (simp_all add: profile_defs ClientHello_ecjpake_kkpp_def find_extension_def)
  show thesis
    by (rule that [OF kkpp(1) body(1,2)])
      (use body(2,3) h kkpp(3) in \<open>simp add: Let_def handle_client_hello_def st_then_def st_lift_def st_modify_def st_ok_def transcript_push_Ok\<close>)
qed

lemma server_hello_accepted:
  assumes laws: "p256_laws c q val dl" and b: "party_ok val b" "honest_one c cr b (ts_server_round_one sv)"
      "ej_id b = THREAD_SERVER_ID"
    and rnd: "length (ts_server_random sv) = 32" and seen: "ts_client_random sv = Some cr0"
  obtains m hello where
    "build_server_hello c n sv = (sv\<lparr>ts_transcript := tr_add m (ts_transcript sv)\<rparr>, Ok m)"
    "\<And>cl. handle_server_hello c cr m cl =
       (cl\<lparr>tc_server_round_one := Some (ts_server_round_one sv), tc_server_random := Some (ts_server_random sv),
           tc_transcript := tr_add m (tc_transcript cl)\<rparr>, Ok hello)"
proof -
  obtain kkpp where kkpp: "encode_tls_kkpp c (ts_server_round_one sv) = Ok kkpp" "length kkpp \<le> 330"
      "decode_tls_kkpp c cr kkpp THREAD_SERVER_ID = Ok (ts_server_round_one sv)"
    using kkpp_roundtrip [OF laws b(1,2)] b(3) by metis
  define hello where "hello = \<lparr>sh_random = ts_server_random sv, sh_session_id = [],
      cipher_suite = TLS_ECJPAKE_WITH_AES_128_CCM_8, compression_method = TLS_COMPRESSION_NULL,
      sh_extensions = [\<lparr>extension_type = EXTENSION_ECJPAKE_KKPP, ext_data = kkpp\<rparr>, ec_point_formats_extension]\<rparr>"
  obtain body where body: "ServerHello_encode hello = Ok body" "length body \<le> 1000"
    using kkpp(2) rnd
    by (simp add: hello_def ServerHello_encode_def validate_u8_len_def validate_u16_len_def
        append_extensions_def step_defs ec_point_formats_extension_def)
  have dec: "ServerHello_decode body = Ok hello"
    using ServerHello_decode_encode [OF _ body(1)] rnd by (simp add: hello_def)
  have h: "validate_thread_profile hello = Ok ()" "ServerHello_ecjpake_kkpp hello = Some kkpp"
      "sh_random hello = ts_server_random sv"
    by (simp_all add: hello_def validate_thread_profile_def ServerHello_ecjpake_kkpp_def find_extension_def)
  let ?m = "\<lparr>hm_type = HandshakeType.ServerHello, hm_seq = n, hm_payload = body\<rparr>"
  have "build_server_hello c n sv = (sv\<lparr>ts_transcript := tr_add ?m (ts_transcript sv)\<rparr>, Ok ?m)"
    using kkpp(1) body seen by (simp add: build_server_hello_def step_defs transcript_push_Ok flip: hello_def)
  then show thesis
    by (rule that [where hello = hello])
      (use dec h kkpp(3) body(2) in \<open>simp add: handle_server_hello_def step_defs transcript_push_Ok\<close>)
qed

lemma server_key_exchange_accepted:
  assumes laws: "p256_laws c q val dl" and live: "rng_live c r"
    and b: "party_ok val (ts_ecjpake sv)" "honest_one c cr (ts_ecjpake sv) (ts_server_round_one sv)"
      "ej_id (ts_ecjpake sv) = THREAD_SERVER_ID"
    and a: "party_ok val a" "honest_one c cr a ma" "ts_client_round_one sv = Some ma"
    and nondeg: "base_log q val (ts_ecjpake sv) a \<noteq> 0"
  obtains p tb m r' where
    "dl p = base_log q val (ts_ecjpake sv) a" "honest_two c cr (ts_ecjpake sv) p tb"
    "build_server_key_exchange c cr n sv r = Some ((sv\<lparr>ts_transcript := tr_add m (ts_transcript sv)\<rparr>, Ok m), r')"
    "\<And>cl. handle_server_key_exchange c m cl =
       (cl\<lparr>tc_server_round_two := Some tb, tc_transcript := tr_add m (tc_transcript cl)\<rparr>, Ok tb)"
proof -
  obtain p tb r' where t: "dl p = base_log q val (ts_ecjpake sv) a"
      "round_two c cr (ts_ecjpake sv) (ts_server_round_one sv) ma r = Some (Ok tb, r')" "rng_live c r'"
      "honest_two c cr (ts_ecjpake sv) p tb"
    using round_two_honest [OF laws live b(1,2) a(1,2) nondeg] by blast
  obtain body where body: "encode_tls_key_exchange c tb True = Ok body" "length body \<le> 168"
      "decode_tls_key_exchange c body THREAD_SERVER_ID True = Ok tb"
    using honest_two_wire [OF laws b(1) _ t(4), of True] t(1) nondeg b(3) by metis
  let ?m = "\<lparr>hm_type = ServerKeyExchange, hm_seq = n, hm_payload = body\<rparr>"
  have "build_server_key_exchange c cr n sv r = Some ((sv\<lparr>ts_transcript := tr_add ?m (ts_transcript sv)\<rparr>, Ok ?m), r')"
    using a(3) t(2) body by (simp add: build_server_key_exchange_def r_ret_def step_defs transcript_push_Ok)
  then show thesis
    by (rule that [OF t(1,4)])
      (use body in \<open>simp add: handle_server_key_exchange_def step_defs transcript_push_Ok\<close>)
qed

lemma client_key_exchange_accepted:
  assumes laws: "p256_laws c q val dl" and live: "rng_live c r"
    and a: "party_ok val (tc_ecjpake cl)" "honest_one c cr (tc_ecjpake cl) (tc_client_round_one cl)"
      "ej_id (tc_ecjpake cl) = THREAD_CLIENT_ID"
    and b: "party_ok val b" "honest_one c cr b mb" "tc_server_round_one cl = Some mb"
    and nondeg: "base_log q val (tc_ecjpake cl) b \<noteq> 0"
  obtains p ta m r' where
    "dl p = base_log q val (tc_ecjpake cl) b" "honest_two c cr (tc_ecjpake cl) p ta"
    "build_client_key_exchange c cr n cl r = Some ((cl\<lparr>tc_transcript := tr_add m (tc_transcript cl)\<rparr>, Ok m), r')"
    "\<And>sv. handle_client_key_exchange c m sv =
       (sv\<lparr>ts_client_round_two := Some ta, ts_transcript := tr_add m (ts_transcript sv)\<rparr>, Ok ())"
proof -
  obtain p ta r' where t: "dl p = base_log q val (tc_ecjpake cl) b"
      "round_two c cr (tc_ecjpake cl) (tc_client_round_one cl) mb r = Some (Ok ta, r')" "rng_live c r'"
      "honest_two c cr (tc_ecjpake cl) p ta"
    using round_two_honest [OF laws live a(1,2) b(1,2) nondeg] by blast
  obtain body where body: "encode_tls_key_exchange c ta False = Ok body" "length body \<le> 168"
      "decode_tls_key_exchange c body THREAD_CLIENT_ID False = Ok ta"
    using honest_two_wire [OF laws a(1) _ t(4), of False] t(1) nondeg a(3) by metis
  let ?m = "\<lparr>hm_type = ClientKeyExchange, hm_seq = n, hm_payload = body\<rparr>"
  have "build_client_key_exchange c cr n cl r = Some ((cl\<lparr>tc_transcript := tr_add ?m (tc_transcript cl)\<rparr>, Ok ?m), r')"
    using b(3) t(2) body by (simp add: build_client_key_exchange_def r_ret_def step_defs transcript_push_Ok)
  then show thesis
    by (rule that [OF t(1,4)])
      (use body in \<open>simp add: handle_client_key_exchange_def step_defs transcript_push_Ok\<close>)
qed

lemma finish_agree:
  assumes laws: "p256_laws c q val dl"
    and a: "party_ok val a" "honest_one c cr a ma" and b: "party_ok val b" "honest_one c cr b mb"
    and secret: "ej_secret a = ej_secret b" and nondeg: "(val (ej_x1 a) + val (ej_x1 b)) mod q \<noteq> 0"
    and ta: "dl p = base_log q val a b" "base_log q val a b \<noteq> 0" "honest_two c cr a p ta"
    and tb: "dl p' = base_log q val b a" "base_log q val b a \<noteq> 0" "honest_two c cr b p' tb"
  obtains key where "ecjpake_finish c cr a ma mb tb = Ok key" "ecjpake_finish c cr b mb ma ta = Ok key"
proof -
  have s: "shared_log q val a b \<noteq> 0" "shared_log q val a b = shared_log q val b a"
    using shared_log_nonzero [OF laws a(1) b(1) secret nondeg] shared_log_sym(2) [of val a b q] secret by simp_all
  obtain P where P: "dl P = shared_log q val a b" "ecjpake_finish c cr a ma mb tb = derive_session_key c cr P"
    using finish_honest [OF laws a b tb] s(1) by auto
  obtain Q where Q: "dl Q = shared_log q val b a" "ecjpake_finish c cr b mb ma ta = derive_session_key c cr Q"
    using finish_honest [OF laws b a ta] s by auto
  have "P = Q"
    using P(1) Q(1) s(2) point_lawsD(3) [OF laws] by metis
  then show thesis
    using that P Q derive_session_key_Ok [OF laws, of P] s(1) by metis
qed

lemma key_material_total:
  assumes "hmac_total cr"
  obtains ms kb where "derive_master_secret cr pre crnd srnd = Ok ms"
    "derive_aes_128_ccm_8_key_block cr ms crnd srnd = Ok kb" "length ms = 48"
proof -
  have "derive_master_secret cr pre crnd srnd = Ok (take 48 (p_hash cr pre (str ''master secret'' @ crnd @ srnd) 2))"
    using tls12_prf_p_hash [OF assms, of 48 2] by (simp add: derive_master_secret_def)
  moreover obtain kb where "derive_aes_128_ccm_8_key_block cr
      (take 48 (p_hash cr pre (str ''master secret'' @ crnd @ srnd) 2)) crnd srnd = Ok kb"
    using key_block_lengths [OF assms] by blast
  ultimately show thesis
    by (rule that) simp
qed

lemma verify_data_total:
  assumes "hmac_total cr"
  obtains vd where "transcript_finished_verify_data cr t ms role = Ok vd" "length vd = 12"
proof -
  have "transcript_finished_verify_data cr t ms role = Ok (take 12 (p_hash cr ms
      ((case role of FinishedRole.Client \<Rightarrow> str ''client finished'' | FinishedRole.Server \<Rightarrow> str ''server finished'') @
        HandshakeTranscript_sha256 cr t) 1))"
    using tls12_prf_p_hash [OF assms, of 12 1]
    by (simp add: transcript_finished_verify_data_def finished_verify_data_def)
  then show thesis
    by (rule that) simp
qed

section \<open>The whole exchange\<close>

text \<open>
  The client and the server pass each other's messages on, in the order of the protocol.
  \<open>honest_key_exchange\<close>: the ClientHello with the server's cookie, the server's flight and the client's
  key exchange. \<open>honest_finished\<close>: the client's Finished and the server's. \<open>n\<close> gives the message
  sequence numbers.
\<close>

definition honest_key_exchange where
  "honest_key_exchange c cr ck n cl sv ra rb cl' sv' \<longleftrightarrow>
     (\<exists>kkpp body m0 m1 m2 m3 m4 cl1 cl2 cl3 cl4 sv1 sv2 sv3 sv4 hello hello' tb ra' rb'.
       encode_tls_kkpp c (tc_client_round_one cl) = Ok kkpp \<and>
       ClientHello_encode (thread_profile_with_ecjpake (tc_client_random cl) ck kkpp) = Ok body \<and>
       m0 = \<lparr>hm_type = HandshakeType.ClientHello, hm_seq = n 0, hm_payload = body\<rparr> \<and>
       record_client_hello m0 cl = (cl1, Ok ()) \<and> handle_client_hello c cr m0 sv = (sv1, Ok hello) \<and>
       build_server_hello c (n 1) sv1 = (sv2, Ok m1) \<and> handle_server_hello c cr m1 cl1 = (cl2, Ok hello') \<and>
       build_server_key_exchange c cr (n 2) sv2 rb = Some ((sv3, Ok m2), rb') \<and>
       handle_server_key_exchange c m2 cl2 = (cl3, Ok tb) \<and>
       build_server_hello_done (n 3) sv3 = (sv4, Ok m3) \<and> handle_server_hello_done m3 cl3 = (cl4, Ok ()) \<and>
       build_client_key_exchange c cr (n 4) cl4 ra = Some ((cl', Ok m4), ra') \<and>
       handle_client_key_exchange c m4 sv4 = (sv', Ok ()))"

definition honest_finished where
  "honest_finished c cr n cl sv km cl' sv' \<longleftrightarrow>
     (\<exists>m5 m6 cl1 sv1.
       build_client_finished c cr (n 5) cl = (cl1, Ok m5) \<and> verify_client_finished cr m5 km sv = (sv1, Ok ()) \<and>
       build_server_finished cr (n 6) km sv1 = (sv', Ok m6) \<and> verify_server_finished cr m6 km cl1 = (cl', Ok ()))"

lemma finished_exchange:
  assumes hmac: "hmac_total cr" and t: "tc_transcript cl = ts_transcript sv"
    and km: "client_derive_key_material c cr cl = Ok km"
  obtains cl' sv' where "honest_finished c cr n cl sv km cl' sv'" "tc_transcript cl' = ts_transcript sv'"
proof -
  obtain vd where vd: "transcript_finished_verify_data cr (ts_transcript sv) (master_secret km) FinishedRole.Client = Ok vd"
      "length vd = 12"
    using verify_data_total [OF hmac] by blast
  define m5 where "m5 = \<lparr>hm_type = Finished, hm_seq = n 5, hm_payload = vd\<rparr>"
  define cl1 where "cl1 = cl\<lparr>tc_transcript := tr_add m5 (tc_transcript cl)\<rparr>"
  define sv1 where "sv1 = sv\<lparr>ts_transcript := tr_add m5 (ts_transcript sv)\<rparr>"
  have s: "build_client_finished c cr (n 5) cl = (cl1, Ok m5)" "verify_client_finished cr m5 km sv = (sv1, Ok ())"
    using vd km t by (simp_all add: build_client_finished_def client_finished_verify_data_def
        verify_client_finished_def step_defs transcript_push_Ok m5_def cl1_def sv1_def)
  obtain vd' where vd': "transcript_finished_verify_data cr (ts_transcript sv1) (master_secret km) FinishedRole.Server = Ok vd'"
      "length vd' = 12"
    using verify_data_total [OF hmac] by blast
  define m6 where "m6 = \<lparr>hm_type = Finished, hm_seq = n 6, hm_payload = vd'\<rparr>"
  define cl2 where "cl2 = cl1\<lparr>tc_transcript := tr_add m6 (tc_transcript cl1)\<rparr>"
  define sv2 where "sv2 = sv1\<lparr>ts_transcript := tr_add m6 (ts_transcript sv1)\<rparr>"
  have t1: "tc_transcript cl1 = ts_transcript sv1"
    using t by (simp add: cl1_def sv1_def)
  have "build_server_finished cr (n 6) km sv1 = (sv2, Ok m6)" "verify_server_finished cr m6 km cl1 = (cl2, Ok ())"
    using vd' t1 by (simp_all add: build_server_finished_def verify_server_finished_def step_defs transcript_push_Ok m6_def cl2_def sv2_def)
  then have "honest_finished c cr n cl sv km cl2 sv2"
    unfolding honest_finished_def using s by blast
  then show thesis
    by (rule that) (use t1 in \<open>simp add: cl2_def sv2_def\<close>)
qed

lemma key_exchange_agrees:
  assumes laws: "p256_laws c q val dl" and fills: "rng_fills c" and hmac: "hmac_total cr"
    and live: "rng_live c ra" "rng_live c rb" and ck: "length ck \<le> 255"
    and client: "ThreadDtlsHandshake_new_with_rng c cr secret ra = Some (cl, ra')"
    and server: "ThreadDtlsServerHandshake_new_with_rng c cr secret rb = Some (sv, rb')"
    and nondeg: "(val (ej_x1 (tc_ecjpake cl)) + val (ej_x1 (ts_ecjpake sv))) mod q \<noteq> 0"
      "base_log q val (tc_ecjpake cl) (ts_ecjpake sv) \<noteq> 0" "base_log q val (ts_ecjpake sv) (tc_ecjpake cl) \<noteq> 0"
  obtains cl' sv' km where "honest_key_exchange c cr ck n cl sv ra' rb' cl' sv'"
    "client_derive_key_material c cr cl' = Ok km" "server_derive_key_material c cr sv' = Ok km"
    "tc_transcript cl' = ts_transcript sv'" "length (master_secret km) = 48"
proof -
  note A = client_new [OF laws fills live(1) client] and B = server_new [OF laws fills live(2) server]
  let ?a = "tc_ecjpake cl" and ?b = "ts_ecjpake sv"
  let ?ma = "tc_client_round_one cl" and ?mb = "ts_server_round_one sv"
  obtain kkpp body where hello: "encode_tls_kkpp c ?ma = Ok kkpp"
      "ClientHello_encode (thread_profile_with_ecjpake (tc_client_random cl) ck kkpp) = Ok body" "length body \<le> 61000"
    and accept: "\<And>n sv. let m = \<lparr>hm_type = HandshakeType.ClientHello, hm_seq = n, hm_payload = body\<rparr> in
       handle_client_hello c cr m sv = (sv\<lparr>ts_client_round_one := Some ?ma,
         ts_client_random := Some (tc_client_random cl), ts_transcript := tr_add m (ts_transcript sv)\<rparr>,
          Ok (thread_profile_with_ecjpake (tc_client_random cl) ck kkpp))"
    using client_hello_accepted [OF laws A(2,3,4,6) ck] by metis
  define m0 where "m0 = \<lparr>hm_type = HandshakeType.ClientHello, hm_seq = n 0, hm_payload = body\<rparr>"
  define cl1 where "cl1 = cl\<lparr>tc_transcript := tr_add m0 (tc_transcript cl)\<rparr>"
  define sv1 where "sv1 = sv\<lparr>ts_client_round_one := Some ?ma, ts_client_random := Some (tc_client_random cl),
      ts_transcript := tr_add m0 (ts_transcript sv)\<rparr>"
  have s0: "record_client_hello m0 cl = (cl1, Ok ())"
      "handle_client_hello c cr m0 sv = (sv1, Ok (thread_profile_with_ecjpake (tc_client_random cl) ck kkpp))"
    using hello(3) accept [of "n 0" sv] by (simp_all add: record_client_hello_def m0_def cl1_def sv1_def transcript_push_Ok Let_def)
  obtain m1 hello' where s1: "build_server_hello c (n 1) sv1 = (sv1\<lparr>ts_transcript := tr_add m1 (ts_transcript sv1)\<rparr>, Ok m1)"
      "\<And>cl. handle_server_hello c cr m1 cl = (cl\<lparr>tc_server_round_one := Some ?mb,
         tc_server_random := Some (ts_server_random sv), tc_transcript := tr_add m1 (tc_transcript cl)\<rparr>, Ok hello')"
    by (rule server_hello_accepted [OF laws, of ?b cr sv1 "tc_client_random cl" "n 1"])
      (use B in \<open>simp_all add: sv1_def\<close>)
  define sv2 where "sv2 = sv1\<lparr>ts_transcript := tr_add m1 (ts_transcript sv1)\<rparr>"
  define cl2 where "cl2 = cl1\<lparr>tc_server_round_one := Some ?mb, tc_server_random := Some (ts_server_random sv),
      tc_transcript := tr_add m1 (tc_transcript cl1)\<rparr>"
  obtain p' tb m2 rb'' where s2: "dl p' = base_log q val ?b ?a" "honest_two c cr ?b p' tb"
      "build_server_key_exchange c cr (n 2) sv2 rb' = Some ((sv2\<lparr>ts_transcript := tr_add m2 (ts_transcript sv2)\<rparr>, Ok m2), rb'')"
      "\<And>cl. handle_server_key_exchange c m2 cl =
         (cl\<lparr>tc_server_round_two := Some tb, tc_transcript := tr_add m2 (tc_transcript cl)\<rparr>, Ok tb)"
    by (rule server_key_exchange_accepted [OF laws B(1), of sv2 cr ?a ?ma "n 2"])
      (use A B nondeg in \<open>simp_all add: sv2_def sv1_def\<close>)
  define sv3 where "sv3 = sv2\<lparr>ts_transcript := tr_add m2 (ts_transcript sv2)\<rparr>"
  define cl3 where "cl3 = cl2\<lparr>tc_server_round_two := Some tb, tc_transcript := tr_add m2 (tc_transcript cl2)\<rparr>"
  define m3 where "m3 = \<lparr>hm_type = ServerHelloDone, hm_seq = n 3, hm_payload = []\<rparr>"
  define sv4 where "sv4 = sv3\<lparr>ts_transcript := tr_add m3 (ts_transcript sv3)\<rparr>"
  define cl4 where "cl4 = cl3\<lparr>tc_transcript := tr_add m3 (tc_transcript cl3)\<rparr>"
  have s3: "build_server_hello_done (n 3) sv3 = (sv4, Ok m3)" "handle_server_hello_done m3 cl3 = (cl4, Ok ())"
    by (simp_all add: build_server_hello_done_def handle_server_hello_done_def step_defs transcript_push_Ok m3_def sv4_def cl4_def)
  obtain p ta m4 ra'' where s4: "dl p = base_log q val ?a ?b" "honest_two c cr ?a p ta"
      "build_client_key_exchange c cr (n 4) cl4 ra' = Some ((cl4\<lparr>tc_transcript := tr_add m4 (tc_transcript cl4)\<rparr>, Ok m4), ra'')"
      "\<And>sv. handle_client_key_exchange c m4 sv =
         (sv\<lparr>ts_client_round_two := Some ta, ts_transcript := tr_add m4 (ts_transcript sv)\<rparr>, Ok ())"
    by (rule client_key_exchange_accepted [OF laws A(1), of cl4 cr ?b ?mb "n 4"])
      (use A B nondeg in \<open>simp_all add: cl4_def cl3_def cl2_def cl1_def\<close>)
  define cl5 where "cl5 = cl4\<lparr>tc_transcript := tr_add m4 (tc_transcript cl4)\<rparr>"
  define sv5 where "sv5 = sv4\<lparr>ts_client_round_two := Some ta, ts_transcript := tr_add m4 (ts_transcript sv4)\<rparr>"
  obtain key where key: "ecjpake_finish c cr ?a ?ma ?mb tb = Ok key" "ecjpake_finish c cr ?b ?mb ?ma ta = Ok key"
    using finish_agree [OF laws A(2,3) B(2,3) _ nondeg(1) s4(1) nondeg(2) s4(2) s2(1) nondeg(3) s2(2)] A(5) B(5) by metis
  obtain ms kb where ms: "derive_master_secret cr key (tc_client_random cl) (ts_server_random sv) = Ok ms"
      "derive_aes_128_ccm_8_key_block cr ms (tc_client_random cl) (ts_server_random sv) = Ok kb" "length ms = 48"
    using key_material_total [OF hmac] by blast
  define km where "km = \<lparr>master_secret = ms, key_block = kb\<rparr>"
  note states = cl5_def cl4_def cl3_def cl2_def cl1_def sv5_def sv4_def sv3_def sv2_def sv1_def
  have "client_derive_key_material c cr cl5 = Ok km" "server_derive_key_material c cr sv5 = Ok km"
    using key ms by (simp_all add: client_derive_key_material_def server_derive_key_material_def km_def states)
  moreover have "tc_transcript cl5 = ts_transcript sv5"
    using A(7) B(7) by (simp add: states)
  moreover have "honest_key_exchange c cr ck n cl sv ra' rb' cl5 sv5"
    unfolding honest_key_exchange_def
    using hello(1,2) m0_def s0 s1(1) [folded sv2_def] s1(2) [of cl1, folded cl2_def] s2(3) [folded sv3_def]
      s2(4) [of cl2, folded cl3_def] s3 s4(3) [folded cl5_def] s4(4) [of sv4, folded sv5_def]
    by blast
  ultimately show thesis
    using that ms(3) by (simp add: km_def)
qed

lemma toy_handshakes:
  obtains cl sv where "ThreadDtlsHandshake_new_with_rng toy_p256 toy_crypto [1] 1 = Some (cl, 5)"
    "ThreadDtlsServerHandshake_new_with_rng toy_p256 toy_crypto [1] 1 = Some (sv, 5)"
    "(z5_val (ej_x1 (tc_ecjpake cl)) + z5_val (ej_x1 (ts_ecjpake sv))) mod 5 \<noteq> 0"
    "base_log 5 z5_val (tc_ecjpake cl) (ts_ecjpake sv) \<noteq> 0" "base_log 5 z5_val (ts_ecjpake sv) (tc_ecjpake cl) \<noteq> 0"
proof -
  have r: "random_scalar toy_p256 False 1 = Some (Z1, 2)" "random_scalar toy_p256 False 2 = Some (Z2, 3)"
    "random_scalar toy_p256 False 3 = Some (Z3, 4)" "random_scalar toy_p256 False 4 = Some (Z4, 5)"
    by (subst random_scalar_unfold, simp add: toy_p256_def z5_of_def)+
  have f: "fill_bytes toy_p256 32 1 = (replicate 32 1, 1)"
    by (simp add: toy_p256_def)
  let ?p = "\<lambda>role. \<lparr>ej_role = role, ej_id = thread_participant_id role,
      ej_secret = scalar_from_secret toy_p256 toy_crypto [1], ej_x1 = Z1, ej_x2 = Z2\<rparr>"
  have new: "EcJpakeParty_new_thread_with_rng toy_p256 toy_crypto role [1] 1 = Some (?p role, 3)" for role
    using r by (simp add: EcJpakeParty_new_thread_with_rng_def EcJpakeParty_new_with_rng_def r_then_def r_ret_def)
  have one: "\<exists>m. round_one toy_p256 toy_crypto (?p role) 3 = Some (m, 5)" for role
    using r by (simp add: round_one_def SchnorrProof_generate_def r_then_def r_ret_def Let_def)
  obtain cl where cl: "ThreadDtlsHandshake_new_with_rng toy_p256 toy_crypto [1] 1 = Some (cl, 5)" "tc_ecjpake cl = ?p EcJpakeRole.Client"
    using new one [of EcJpakeRole.Client] f by (auto simp: ThreadDtlsHandshake_new_with_rng_def r_then_def r_ret_def)
  obtain sv where sv: "ThreadDtlsServerHandshake_new_with_rng toy_p256 toy_crypto [1] 1 = Some (sv, 5)" "ts_ecjpake sv = ?p EcJpakeRole.Server"
    using new one [of EcJpakeRole.Server] f by (auto simp: ThreadDtlsServerHandshake_new_with_rng_def r_then_def r_ret_def)
  show thesis
    by (rule that [OF cl(1) sv(1)]) (simp_all add: cl(2) sv(2) base_log_def)
qed

text \<open>C11: The Thread DTLS handshake, end to end. A client and a server created with the same password
complete the exchange whatever cookie (of at most 255 bytes) the server demanded and whatever
sequence numbers the messages carry: every message built by one side is accepted by the other, both
derive the same key material, each accepts the other's Finished message, and their transcripts
are equal at the end. The hypotheses are those of the key agreement, that HMAC accepts any key, and
that the generator fills a buffer completely.\<close>

theorem handshake_agreement:
  assumes laws: "p256_laws c q val dl" and fills: "rng_fills c" and hmac: "hmac_total cr"
    and live: "rng_live c ra" "rng_live c rb" and ck: "length ck \<le> 255"
    and client: "ThreadDtlsHandshake_new_with_rng c cr secret ra = Some (cl, ra')"
    and server: "ThreadDtlsServerHandshake_new_with_rng c cr secret rb = Some (sv, rb')"
    and nondeg: "(val (ej_x1 (tc_ecjpake cl)) + val (ej_x1 (ts_ecjpake sv))) mod q \<noteq> 0"
      "base_log q val (tc_ecjpake cl) (ts_ecjpake sv) \<noteq> 0" "base_log q val (ts_ecjpake sv) (tc_ecjpake cl) \<noteq> 0"
  shows "\<exists>cl1 sv1 cl2 sv2 km.
    honest_key_exchange c cr ck n cl sv ra' rb' cl1 sv1 \<and>
    client_derive_key_material c cr cl1 = Ok km \<and> server_derive_key_material c cr sv1 = Ok km \<and>
    length (master_secret km) = 48 \<and>
    honest_finished c cr n cl1 sv1 km cl2 sv2 \<and> tc_transcript cl2 = ts_transcript sv2"
proof -
  obtain cl1 sv1 km where ke: "honest_key_exchange c cr ck n cl sv ra' rb' cl1 sv1"
    "client_derive_key_material c cr cl1 = Ok km" "server_derive_key_material c cr sv1 = Ok km"
    "tc_transcript cl1 = ts_transcript sv1" "length (master_secret km) = 48"
    using key_exchange_agrees [OF laws fills hmac live ck client server nondeg] by metis
  obtain cl2 sv2 where "honest_finished c cr n cl1 sv1 km cl2 sv2" "tc_transcript cl2 = ts_transcript sv2"
    using finished_exchange [OF hmac ke(4,2)] by metis
  with ke show ?thesis
    by blast
qed

theorem handshake_agreement_witness:
  "\<exists>cl sv cl1 sv1 cl2 sv2 km.
    ThreadDtlsHandshake_new_with_rng toy_p256 toy_crypto [1] 1 = Some (cl, 5) \<and>
    ThreadDtlsServerHandshake_new_with_rng toy_p256 toy_crypto [1] 1 = Some (sv, 5) \<and>
    honest_key_exchange toy_p256 toy_crypto [9, 9] of_nat cl sv 5 5 cl1 sv1 \<and>
    server_derive_key_material toy_p256 toy_crypto sv1 = Ok km \<and>
    honest_finished toy_p256 toy_crypto of_nat cl1 sv1 km cl2 sv2"
proof -
  obtain cl sv where new: "ThreadDtlsHandshake_new_with_rng toy_p256 toy_crypto [1] 1 = Some (cl, 5)"
    "ThreadDtlsServerHandshake_new_with_rng toy_p256 toy_crypto [1] 1 = Some (sv, 5)"
    and nondeg: "(z5_val (ej_x1 (tc_ecjpake cl)) + z5_val (ej_x1 (ts_ecjpake sv))) mod 5 \<noteq> 0"
    "base_log 5 z5_val (tc_ecjpake cl) (ts_ecjpake sv) \<noteq> 0" "base_log 5 z5_val (ts_ecjpake sv) (tc_ecjpake cl) \<noteq> 0"
    by (rule toy_handshakes)
  have "length [9, 9 :: u8] \<le> 255"
    by simp
  from handshake_agreement [OF p256_laws_toy rng_fills_toy hmac_total_toy rng_live_toy rng_live_toy this new nondeg] new
  show ?thesis
    by blast
qed

lemma finished_binding:
  "verify_server_finished cr m km cl = (cl', Ok ()) \<Longrightarrow>
     hm_type m = Finished \<and> transcript_finished_verify_data cr (tc_transcript cl) (master_secret km) FinishedRole.Server = Ok (hm_payload m)"
  "verify_server_finished cr m km cl = (cl', Err e) \<Longrightarrow> cl' = cl"
  "verify_client_finished cr m km sv = (sv', Ok ()) \<Longrightarrow>
     hm_type m = Finished \<and> transcript_finished_verify_data cr (ts_transcript sv) (master_secret km) FinishedRole.Client = Ok (hm_payload m)"
  "verify_client_finished cr m km sv = (sv', Err e) \<Longrightarrow> sv' = sv"
  by (auto simp: verify_server_finished_def verify_client_finished_def st_then_def st_lift_def st_err_def
      tc_push_def ts_push_def HandshakeTranscript_push_def split: if_splits sum.splits prod.splits)

end
