(* ===== verification/Pskc.thy ===== *)
theory Pskc
  imports Datasets Foreign
begin

text \<open>
  Commissioner credentials and steering data (\<^verbatim>\<open>crypto/pskc.rs\<close>): the PSKc and its derivation by PBKDF2 over
  AES-CMAC-PRF-128, joiner identifiers, and the two-CRC Bloom filter of steering data. AES-CMAC
  (crate \<^verbatim>\<open>cmac\<close>) is an argument that returns a 16-byte tag, or \<open>None\<close> when it refuses the key. Shown:
  the derivation is the reference PBKDF2 and fails exactly on lengths out of range; the filter never
  forgets a joiner and sets at most two bits for each; the CRC is linear.
\<close>

section \<open>PSKc\<close>

definition MAX_PSKC_LEN :: nat where [const_defs]: "MAX_PSKC_LEN = 16"
definition MIN_COMMISSIONER_CREDENTIAL_LEN :: nat where [const_defs]: "MIN_COMMISSIONER_CREDENTIAL_LEN = 6"
definition MAX_COMMISSIONER_CREDENTIAL_LEN :: nat where [const_defs]: "MAX_COMMISSIONER_CREDENTIAL_LEN = 255"
definition PSKC_MAX_NETWORK_NAME_LEN :: nat where [const_defs]: "PSKC_MAX_NETWORK_NAME_LEN = 16"
definition JOINER_ID_LEN :: nat where [const_defs]: "JOINER_ID_LEN = 8"
definition LOCAL_EXTERNAL_ADDR_MASK :: u8 where [const_defs]: "LOCAL_EXTERNAL_ADDR_MASK = push_bit 1 1"
definition MAX_STEERING_DATA_LEN :: nat where [const_defs]: "MAX_STEERING_DATA_LEN = 16"

type_synonym cmac = "bytes \<Rightarrow> bytes \<Rightarrow> 128 word option"

datatype Pskc = Pskc (Pskc_as_bytes: bytes)

definition Pskc_from_hex :: "(bytes \<Rightarrow> string + bytes) \<Rightarrow> bytes \<Rightarrow> error + Pskc" where
  "Pskc_from_hex hex_decode v =
     and_then (map_err Hex (hex_decode v))
       (\<lambda>bs. if length bs = MAX_PSKC_LEN then Ok (Pskc bs)
             else Err (Dataset ''PSKc must be exactly 16 bytes''))"

definition pskc_from_active_dataset :: "Dataset \<Rightarrow> error + Pskc" where
  "pskc_from_active_dataset d =
     and_then (ok_or (Dataset_pskc d) (Dataset ''dataset does not contain PSKc''))
       (\<lambda>bs. if length bs = MAX_PSKC_LEN then Ok (Pskc bs)
             else Err (Dataset ''PSKc TLV must be 16 bytes''))"

section \<open>PBKDF2 over AES-CMAC-PRF-128\<close>

definition aes_cmac :: "cmac \<Rightarrow> bytes \<Rightarrow> bytes \<Rightarrow> error + bytes" where
  "aes_cmac mac key msg =
     and_then (ok_or (mac key msg) (error.Crypto ''invalid AES-CMAC key'')) (\<lambda>tag. Ok (to_be 16 tag))"

definition aes_cmac_prf_128 :: "cmac \<Rightarrow> bytes \<Rightarrow> bytes \<Rightarrow> error + bytes" where
  "aes_cmac_prf_128 mac key msg =
     and_then (if length key = 16 then Ok key else aes_cmac mac (replicate 16 0) key)
       (\<lambda>prf_key. aes_cmac mac prf_key msg)"

definition xor_bytes :: "bytes \<Rightarrow> bytes \<Rightarrow> bytes" where
  "xor_bytes t u = map2 (XOR) t u"

text \<open>The inner loop: \<open>n\<close> more applications of the PRF, each folded into \<open>t\<close>.\<close>

fun pbkdf2_rounds :: "cmac \<Rightarrow> bytes \<Rightarrow> nat \<Rightarrow> bytes \<Rightarrow> bytes \<Rightarrow> error + bytes" where
  "pbkdf2_rounds mac password 0 u t = Ok t"
| "pbkdf2_rounds mac password (Suc n) u t =
     and_then (aes_cmac_prf_128 mac password u)
       (\<lambda>u. pbkdf2_rounds mac password n u (xor_bytes t u))"

text \<open>The outer loop: blocks are appended until the output has its length.\<close>

function pbkdf2_blocks :: "cmac \<Rightarrow> bytes \<Rightarrow> bytes \<Rightarrow> u32 \<Rightarrow> nat \<Rightarrow> u32 \<Rightarrow> bytes \<Rightarrow> error + bytes" where
  "pbkdf2_blocks mac password salt iterations out_len block_counter out =
     (if length out < out_len then
        (case and_then (aes_cmac_prf_128 mac password (salt @ to_be 4 block_counter))
            (\<lambda>u. pbkdf2_rounds mac password (unat iterations - 1) u u) of
           Inl e \<Rightarrow> Err e
         | Inr t \<Rightarrow>
             let len = min (out_len - length out) 16 in
             if block_counter = - 1 then Err (error.Crypto ''PBKDF2 block counter overflow'')
             else pbkdf2_blocks mac password salt iterations out_len (block_counter + 1) (out @ take len t))
      else Ok out)"
  by pat_completeness auto

lemma length_aes_cmac: "aes_cmac mac key msg = Inr t \<Longrightarrow> length t = 16"
  by (auto simp: aes_cmac_def result_simps)

lemma length_aes_cmac_prf: "aes_cmac_prf_128 mac key msg = Inr t \<Longrightarrow> length t = 16"
  by (auto simp: aes_cmac_prf_128_def result_simps dest: length_aes_cmac)

lemma length_pbkdf2_rounds:
  "pbkdf2_rounds mac password n u t = Inr t' \<Longrightarrow> length t = 16 \<Longrightarrow> length t' = 16"
  by (induction n arbitrary: u t) (auto simp: result_simps xor_bytes_def dest: length_aes_cmac_prf)

termination pbkdf2_blocks
proof (relation "measure (\<lambda>(_, _, _, _, n, _, out). n - length out)")
  fix mac password salt iterations out_len block_counter out t len
  assume "length (out :: bytes) < out_len"
    and "and_then (aes_cmac_prf_128 mac password (salt @ to_be 4 (block_counter :: u32)))
      (\<lambda>u. pbkdf2_rounds mac password (unat (iterations :: u32) - 1) u u) = Inr t"
    and "len = min (out_len - length out) 16"
  then show "((mac, password, salt, iterations, out_len, block_counter + 1, out @ take len t),
      (mac, password, salt, iterations, out_len, block_counter, out))
      \<in> measure (\<lambda>(_, _, _, _, n, _, out). n - length out)"
    by (auto simp: result_simps dest!: length_pbkdf2_rounds length_aes_cmac_prf)
qed simp

declare pbkdf2_blocks.simps [simp del]

definition pbkdf2_aes_cmac_prf_128 :: "cmac \<Rightarrow> bytes \<Rightarrow> bytes \<Rightarrow> u32 \<Rightarrow> nat \<Rightarrow> error + bytes" where
  "pbkdf2_aes_cmac_prf_128 mac password salt iterations out_len =
     (if iterations = 0 then Err (error.Crypto ''PBKDF2 iteration count must be nonzero'')
      else pbkdf2_blocks mac password salt iterations out_len 1 [])"

definition generate_pskc :: "cmac \<Rightarrow> bytes \<Rightarrow> bytes \<Rightarrow> bytes \<Rightarrow> error + Pskc" where
  "generate_pskc mac passphrase network_name extended_pan_id =
     (if \<not> (MIN_COMMISSIONER_CREDENTIAL_LEN \<le> length passphrase \<and>
            length passphrase \<le> MAX_COMMISSIONER_CREDENTIAL_LEN)
      then Err (Dataset ''passphrase length must be in [6, 255]'')
      else if length network_name > PSKC_MAX_NETWORK_NAME_LEN
      then Err (Dataset ''network name is longer than 16 bytes'')
      else and_then (pbkdf2_aes_cmac_prf_128 mac passphrase
          (str ''Thread'' @ extended_pan_id @ network_name) 16384 MAX_PSKC_LEN)
        (\<lambda>out. Ok (Pskc out)))"

section \<open>Joiner identifiers and steering data\<close>

definition compute_joiner_id :: "crypto \<Rightarrow> u64 \<Rightarrow> bytes" where
  "compute_joiner_id cr eui64 =
     (let joiner_id = take JOINER_ID_LEN (to_be 32 (sha256 cr (to_be 8 eui64)))
      in joiner_id[0 := joiner_id ! 0 OR LOCAL_EXTERNAL_ADDR_MASK])"

definition crc16_bit :: "u16 \<Rightarrow> u16 \<Rightarrow> u16" where
  "crc16_bit poly crc = (if crc AND 0x8000 \<noteq> 0 then push_bit 1 crc XOR poly else push_bit 1 crc)"

definition crc16_byte :: "u16 \<Rightarrow> u16 \<Rightarrow> u8 \<Rightarrow> u16" where
  "crc16_byte poly crc b = (crc16_bit poly ^^ 8) (crc XOR push_bit 8 (ucast b))"

definition crc16 :: "u16 \<Rightarrow> bytes \<Rightarrow> u16" where
  "crc16 poly bs = foldl (crc16_byte poly) 0 bs"

definition bloom_set_bit :: "nat \<Rightarrow> bytes \<Rightarrow> bytes" where
  "bloom_set_bit b out =
     (let idx = length out - 1 - b div 8 in out[idx := out ! idx OR push_bit (b mod 8) 1])"

definition compute_bloom_filter :: "bytes \<Rightarrow> bytes \<Rightarrow> bytes" where
  "compute_bloom_filter out input =
     (let num_bits = length out * 8;
          ccitt = unat (crc16 0x1021 input) mod num_bits;
          ansi = unat (crc16 0x8005 input) mod num_bits
      in bloom_set_bit ansi (bloom_set_bit ccitt out))"

definition add_joiner_to_steering_data :: "bytes \<Rightarrow> bytes \<Rightarrow> bytes" where
  "add_joiner_to_steering_data steering_data joiner_id =
     compute_bloom_filter
       (if length steering_data \<noteq> MAX_STEERING_DATA_LEN then replicate MAX_STEERING_DATA_LEN 0 else steering_data)
       joiner_id"

section \<open>The derivation is PBKDF2\<close>

text \<open>
  The reference: \<open>U\<^sub>1 = PRF(P, S \<parallel> INT(i))\<close>, \<open>U\<^sub>j = PRF(P, U\<^sub>j\<^sub>-\<^sub>1)\<close>, and a block is the sum \<open>U\<^sub>1 XOR \<dots> XOR U\<^sub>c\<close>.
\<close>

definition cmac_total :: "cmac \<Rightarrow> bool" where
  "cmac_total mac \<longleftrightarrow> (\<forall>k m. length k = 16 \<longrightarrow> mac k m \<noteq> None)"

definition prf_word :: "cmac \<Rightarrow> bytes \<Rightarrow> bytes \<Rightarrow> 128 word" where
  "prf_word mac password msg =
     the (mac (if length password = 16 then password else to_be 16 (the (mac (replicate 16 0) password))) msg)"

primrec pbkdf2_U :: "cmac \<Rightarrow> bytes \<Rightarrow> bytes \<Rightarrow> nat \<Rightarrow> 128 word" where
  "pbkdf2_U mac password input 0 = prf_word mac password input"
| "pbkdf2_U mac password input (Suc j) = prf_word mac password (to_be 16 (pbkdf2_U mac password input j))"

primrec xor_upto :: "(nat \<Rightarrow> 128 word) \<Rightarrow> nat \<Rightarrow> 128 word" where
  "xor_upto f 0 = 0"
| "xor_upto f (Suc n) = xor_upto f n XOR f n"

lemma xor_bytes_to_be: "xor_bytes (to_be n v) (to_be n w) = to_be n (v XOR w)"
proof -
  have "rev (xor_bytes (to_be n v) (to_be n w)) = rev (to_be n (v XOR w))"
    by (intro nth_equalityI)
      (auto simp: xor_bytes_def rev_map zip_rev [symmetric] nth_rev_to_be intro!: bit_word_eqI
        simp: bit_ucast_iff bit_drop_bit_eq bit_xor_iff)
  then show ?thesis
    by simp
qed

lemma aes_cmac_prf_total:
  "cmac_total mac \<Longrightarrow> aes_cmac_prf_128 mac password msg = Ok (to_be 16 (prf_word mac password msg))"
proof -
  assume mac: "cmac_total mac"
  have tag: "mac k m = Some (the (mac k m))" if "length k = 16" for k m
    using mac that by (simp add: cmac_total_def)
  have "aes_cmac mac k m = Ok (to_be 16 (the (mac k m)))" if "length k = 16" for k m
    unfolding aes_cmac_def by (subst tag [OF that]) simp
  then show ?thesis
    by (simp add: aes_cmac_prf_128_def prf_word_def)
qed

lemma pbkdf2_rounds_total:
  assumes "cmac_total mac"
  shows "pbkdf2_rounds mac password n (to_be 16 (pbkdf2_U mac password input k))
      (to_be 16 (xor_upto (pbkdf2_U mac password input) (Suc k)))
    = Ok (to_be 16 (xor_upto (pbkdf2_U mac password input) (Suc k + n)))"
proof (induction n arbitrary: k)
  case (Suc n)
  show ?case
    using Suc.IH [of "Suc k"] by (simp add: aes_cmac_prf_total [OF assms] xor_bytes_to_be)
qed simp

text \<open>C23: Derivation of the PSKc. When AES-CMAC accepts every 16-byte key, the derivation fails exactly
for a passphrase outside 6 to 255 bytes or a network name of more than 16 bytes, each with its own
error; otherwise the PSKc is the first block of the reference PBKDF2 over AES-CMAC-PRF-128, with
the salt made of the text Thread, the extended PAN identifier and the network name, and 16384 iterations.\<close>

theorem pskc_derivation:
  assumes mac: "cmac_total mac"
  shows "generate_pskc mac passphrase network_name xpan =
    (if length passphrase < 6 \<or> 255 < length passphrase
     then Err (Dataset ''passphrase length must be in [6, 255]'')
     else if 16 < length network_name then Err (Dataset ''network name is longer than 16 bytes'')
     else Ok (Pskc (to_be 16 (xor_upto
       (pbkdf2_U mac passphrase (str ''Thread'' @ xpan @ network_name @ [0, 0, 0, 1])) 16384))))"
proof -
  let ?salt = "str ''Thread'' @ xpan @ network_name"
  let ?in = "?salt @ to_be 4 (1 :: u32)"
  have "pbkdf2_rounds mac passphrase 16383 (to_be 16 (pbkdf2_U mac passphrase ?in 0)) (to_be 16 (pbkdf2_U mac passphrase ?in 0))
      = Ok (to_be 16 (xor_upto (pbkdf2_U mac passphrase ?in) 16384))"
    using pbkdf2_rounds_total [OF mac, of passphrase 16383 ?in 0] by simp
  then have "pbkdf2_blocks mac passphrase ?salt 16384 16 1 [] =
      pbkdf2_blocks mac passphrase ?salt 16384 16 2 (to_be 16 (xor_upto (pbkdf2_U mac passphrase ?in) 16384))"
    by (subst pbkdf2_blocks.simps) (simp add: aes_cmac_prf_total [OF mac] Let_def)
  also have "\<dots> = Ok (to_be 16 (xor_upto (pbkdf2_U mac passphrase ?in) 16384))"
    by (subst pbkdf2_blocks.simps) simp
  finally have "pbkdf2_aes_cmac_prf_128 mac passphrase ?salt 16384 16 =
      Ok (to_be 16 (xor_upto (pbkdf2_U mac passphrase ?in) 16384))"
    by (simp add: pbkdf2_aes_cmac_prf_128_def)
  moreover have "?in = str ''Thread'' @ xpan @ network_name @ [0, 0, 0, 1]"
    by (simp add: to_be_unfold)
  ultimately show ?thesis
    by (simp add: generate_pskc_def const_defs)
qed

theorem pskc_derivation_witness:
  "generate_pskc (\<lambda>k m. Some (of_nat (length m))) (str ''secret'') [] [] =
     Ok (Pskc (to_be 16 (xor_upto (pbkdf2_U (\<lambda>k m. Some (of_nat (length m))) (str ''secret'')
       (str ''Thread'' @ [0, 0, 0, 1])) 16384)))"
proof -
  have "cmac_total (\<lambda>k m. Some (of_nat (length m)))"
    by (simp add: cmac_total_def)
  from pskc_derivation [OF this, of "str ''secret''" "[]" "[]"] show ?thesis
    by simp
qed

section \<open>Steering data\<close>

definition bloom_bit :: "bytes \<Rightarrow> nat \<Rightarrow> bool" where
  "bloom_bit sd k \<longleftrightarrow> bit (sd ! (length sd - 1 - k div 8)) (k mod 8)"

definition joiner_bits :: "bytes \<Rightarrow> nat set" where
  "joiner_bits j = {unat (crc16 0x1021 j) mod 128, unat (crc16 0x8005 j) mod 128}"

lemma length_bloom_set_bit [simp]: "length (bloom_set_bit b sd) = length sd"
  by (simp add: bloom_set_bit_def Let_def)

lemma bloom_bit_set:
  assumes "b < 8 * length sd" "k < 8 * length sd"
  shows "bloom_bit (bloom_set_bit b sd) k \<longleftrightarrow> bloom_bit sd k \<or> k = b"
proof -
  have l: "b div 8 < length sd" "k div 8 < length sd"
    using assms by auto
  have "bit (push_bit (b mod 8) (1 :: u8)) (k mod 8) \<longleftrightarrow> k mod 8 = b mod 8"
    by (auto simp: bit_exp_iff)
  moreover have "length sd - 1 - b div 8 = length sd - 1 - k div 8 \<longleftrightarrow> b div 8 = k div 8"
    using l by auto
  moreover have "k = b \<longleftrightarrow> k div 8 = b div 8 \<and> k mod 8 = b mod 8"
    by (metis div_mult_mod_eq)
  ultimately show ?thesis
    using l by (auto simp: bloom_bit_def bloom_set_bit_def Let_def nth_list_update bit_or_iff)
qed

lemma add_joiner_16:
  assumes "length sd = 16"
  shows "length (add_joiner_to_steering_data sd j) = 16"
    "k < 128 \<Longrightarrow> bloom_bit (add_joiner_to_steering_data sd j) k \<longleftrightarrow> bloom_bit sd k \<or> k \<in> joiner_bits j"
proof -
  have eq: "add_joiner_to_steering_data sd j =
      bloom_set_bit (unat (crc16 0x8005 j) mod 128) (bloom_set_bit (unat (crc16 0x1021 j) mod 128) sd)"
    using assms by (simp add: add_joiner_to_steering_data_def compute_bloom_filter_def Let_def const_defs)
  show "length (add_joiner_to_steering_data sd j) = 16"
    using assms by (simp add: eq)
  show "k < 128 \<Longrightarrow> bloom_bit (add_joiner_to_steering_data sd j) k \<longleftrightarrow> bloom_bit sd k \<or> k \<in> joiner_bits j"
    using assms by (auto simp: eq bloom_bit_set joiner_bits_def)
qed

text \<open>C38: Steering data is an exact Bloom filter. Starting from 16 bytes of steering data and adding any
sequence of joiners, the result has 16 bytes, and a bit of it is set exactly when it was set before or
is one of the two CRC bits of a joiner in the sequence: no joiner is forgotten, no other bit is set, and
the order of the additions does not matter. Data of any other length is discarded and counts as 16 zero bytes.\<close>

theorem steering_data_exact:
  assumes "k < 128"
  shows "bloom_bit (foldl add_joiner_to_steering_data sd js) k \<longleftrightarrow>
    (bloom_bit sd k \<and> (length sd = 16 \<or> js = [])) \<or> (\<exists>j \<in> set js. k \<in> joiner_bits j)"
proof -
  have exact: "bloom_bit (foldl add_joiner_to_steering_data sd js) k \<longleftrightarrow>
      bloom_bit sd k \<or> (\<exists>j \<in> set js. k \<in> joiner_bits j)" if "length sd = 16" for sd js
    using that
  proof (induction js arbitrary: sd)
    case (Cons j js)
    then show ?case
      using add_joiner_16 [OF Cons.prems] assms by auto
  qed simp
  show ?thesis
  proof (cases "length sd = 16 \<or> js = []")
    case False
    then obtain j js' where js: "js = j # js'"
      by (cases js) auto
    let ?z = "replicate 16 (0 :: u8)"
    have "foldl add_joiner_to_steering_data sd js = foldl add_joiner_to_steering_data ?z js"
      using False by (simp add: js add_joiner_to_steering_data_def const_defs)
    moreover have "\<not> bloom_bit ?z k"
      using assms by (simp add: bloom_bit_def)
    ultimately show ?thesis
      using exact [of ?z js] False by simp
  qed (auto simp: exact)
qed

theorem steering_data_exact_witness:
  "bloom_bit (foldl add_joiner_to_steering_data [] [[1, 2], [3]]) 5 \<longleftrightarrow> 5 \<in> joiner_bits [1, 2] \<or> 5 \<in> joiner_bits [3]"
  using steering_data_exact [of 5 "[]" "[[1, 2], [3]]"] by simp

section \<open>The CRC\<close>

lemma funpow_8: "(f ^^ 8) x = f (f (f (f (f (f (f (f x)))))))"
  by (simp add: eval_nat_numeral)

text \<open>The published check values over the text 123456789.\<close>

lemma crc16_check_values:
  "crc16 0x1021 (str ''123456789'') = 0x31c3" "crc16 0x8005 (str ''123456789'') = 0xfee8"
  by (simp_all add: crc16_def crc16_byte_def funpow_8 crc16_bit_def)

lemma crc16_bit_linear: "crc16_bit poly (a XOR b) = crc16_bit poly a XOR crc16_bit poly b"
proof -
  have top: "x AND 0x8000 \<noteq> 0 \<longleftrightarrow> bit x 15" for x :: u16
  proof -
    have "x AND 0x8000 = x AND push_bit 15 1"
      by (simp add: push_bit_eq_mult)
    also have "\<dots> \<noteq> 0 \<longleftrightarrow> bit x 15"
      by (metis and_exp_eq_0_iff_not_bit push_bit_of_1)
    finally show ?thesis .
  qed
  show ?thesis
    by (auto simp: crc16_bit_def top bit_xor_iff push_bit_xor xor.assoc xor.left_commute xor.commute)
qed

lemma crc16_linear:
  assumes "length xs = length ys"
  shows "crc16 poly (map2 (XOR) xs ys) = crc16 poly xs XOR crc16 poly ys"
proof -
  have pow: "(crc16_bit poly ^^ n) (a XOR b) = (crc16_bit poly ^^ n) a XOR (crc16_bit poly ^^ n) b" for n a b
    by (induction n) (simp_all add: crc16_bit_linear)
  have byte: "crc16_byte poly (a XOR b) (x XOR y) = crc16_byte poly a x XOR crc16_byte poly b y" for a b x y
  proof -
    have "(a XOR b) XOR push_bit 8 (ucast (x XOR y)) = (a XOR push_bit 8 (ucast x)) XOR (b XOR push_bit 8 (ucast y))"
      by (auto intro!: bit_word_eqI simp: bit_xor_iff bit_push_bit_iff bit_ucast_iff)
    then show ?thesis
      unfolding crc16_byte_def by (simp only: pow [symmetric])
  qed
  have "foldl (crc16_byte poly) (a XOR b) (map2 (XOR) xs ys) =
      foldl (crc16_byte poly) a xs XOR foldl (crc16_byte poly) b ys" for a b
    using assms by (induction xs ys arbitrary: a b rule: list_induct2) (simp_all add: byte)
  from this [of 0 0] show ?thesis
    by (simp add: crc16_def)
qed

end
