(* ===== verification/Joiner.thy ===== *)
theory Joiner
  imports Messages Session Thread_Handshake Pskc
begin

text \<open>
  Joiner commissioning sessions (\<^verbatim>\<open>commissioner/joiner.rs\<close>): the DTLS server side of a joiner whose records
  arrive through the relay, its JOIN_FIN exchange, and the table of enabled joiners. The application's
  decisions (the trait \<^verbatim>\<open>JoinerHandler\<close>) are a record of functions over a state of its own; a clock reading
  is a number of nanoseconds. The events a call pushes are its result, since an error drops them. Shown: the phases of a session
  only move forward, keep their invariant and bound the retransmissions; the router key is released only after the
  handler accepted an authenticated request, and the decision is made once; every protected record of a
  session has its own sequence number.
\<close>

section \<open>Finalization requests\<close>

definition MAX_DUPLICATE_FLIGHT_RETRANSMISSIONS :: u8 where
  "MAX_DUPLICATE_FLIGHT_RETRANSMISSIONS = 4"

definition JOINER_SESSION_TIMEOUT :: nat where
  "JOINER_SESSION_TIMEOUT = (60 + 20) * 1000000000"

definition joiner_id_from_iid :: "bytes \<Rightarrow> bytes" where
  "joiner_id_from_iid iid = iid[0 := iid ! 0 XOR LOCAL_EXTERNAL_ADDR_MASK]"

record JoinerFinalizeInfo =
  vendor_name :: bytes
  vendor_model :: bytes
  vendor_sw_version :: bytes
  vendor_stack_version :: bytes
  provisioning_url :: "bytes option"
  vendor_data :: "bytes option"

definition join_fin_required :: "TlvSet \<Rightarrow> u8 \<Rightarrow> string \<Rightarrow> error + bytes" where
  "join_fin_required ts t name =
     ok_or (last_value ts t) (Dataset (''JOIN_FIN.req missing '' @ name @ '' TLV''))"

definition join_fin_utf8 :: "bytes \<Rightarrow> string \<Rightarrow> error + bytes" where
  "join_fin_utf8 v name =
     (if valid_utf8 v then Ok v else Err (Dataset (''JOIN_FIN.req '' @ name @ '' TLV is not UTF-8'')))"

definition JoinerFinalizeInfo_from_payload :: "bytes \<Rightarrow> error + JoinerFinalizeInfo" where
  "JoinerFinalizeInfo_from_payload body =
     and_then (map_err Tlv (TlvSet_parse body))
       (\<lambda>ts. and_then (join_fin_required ts TLV_STATE ''State'')
       (\<lambda>_. and_then (and_then (join_fin_required ts TLV_VENDOR_NAME ''Vendor Name'')
                (\<lambda>v. join_fin_utf8 v ''Vendor Name''))
       (\<lambda>name. and_then (and_then (join_fin_required ts TLV_VENDOR_MODEL ''Vendor Model'')
                (\<lambda>v. join_fin_utf8 v ''Vendor Model''))
       (\<lambda>model. and_then (and_then (join_fin_required ts TLV_VENDOR_SW_VERSION ''Vendor SW Version'')
                (\<lambda>v. join_fin_utf8 v ''Vendor SW Version''))
       (\<lambda>sw. and_then (join_fin_required ts TLV_VENDOR_STACK_VERSION ''Vendor Stack Version'')
       (\<lambda>stack. and_then (map_transpose (\<lambda>v. join_fin_utf8 v ''Provisioning URL'')
                (last_value ts TLV_PROVISIONING_URL))
       (\<lambda>url. Ok \<lparr>vendor_name = name, vendor_model = model, vendor_sw_version = sw,
                  vendor_stack_version = stack, provisioning_url = url,
                  vendor_data = last_value ts TLV_VENDOR_DATA\<rparr>)))))))"

definition parse_join_fin :: "CoapMessage \<Rightarrow> error + JoinerFinalizeInfo" where
  "parse_join_fin request = JoinerFinalizeInfo_from_payload (coap_payload request)"

section \<open>Handlers\<close>

record 'h JoinerHandler =
  joiner_pskd :: "bytes \<Rightarrow> 'h \<Rightarrow> 'h \<times> bytes option"
  on_joiner_connected :: "bytes \<Rightarrow> 'h \<Rightarrow> 'h"
  on_joiner_finalize :: "bytes \<Rightarrow> JoinerFinalizeInfo \<Rightarrow> 'h \<Rightarrow> 'h \<times> bool"

record StaticJoinerHandler =
  wildcard_pskd :: "bytes option"
  by_joiner_id :: "(bytes \<times> bytes) list"

definition StaticJoinerHandler_new :: StaticJoinerHandler where
  "StaticJoinerHandler_new = \<lparr>wildcard_pskd = None, by_joiner_id = []\<rparr>"

definition enable_all :: "bytes \<Rightarrow> StaticJoinerHandler \<Rightarrow> StaticJoinerHandler" where
  "enable_all pskd h = h\<lparr>wildcard_pskd := Some pskd\<rparr>"

definition enable_joiner_id :: "bytes \<Rightarrow> bytes \<Rightarrow> StaticJoinerHandler \<Rightarrow> StaticJoinerHandler" where
  "enable_joiner_id joiner_id pskd h =
     h\<lparr>by_joiner_id := filter (\<lambda>(i, _). i \<noteq> joiner_id) (by_joiner_id h) @ [(joiner_id, pskd)]\<rparr>"

definition enable_eui64 :: "crypto \<Rightarrow> u64 \<Rightarrow> bytes \<Rightarrow> StaticJoinerHandler \<Rightarrow> StaticJoinerHandler" where
  "enable_eui64 cr eui pskd = enable_joiner_id (compute_joiner_id cr eui) pskd"

definition disable_joiner_id :: "bytes \<Rightarrow> StaticJoinerHandler \<Rightarrow> StaticJoinerHandler" where
  "disable_joiner_id joiner_id h = h\<lparr>by_joiner_id := filter (\<lambda>(i, _). i \<noteq> joiner_id) (by_joiner_id h)\<rparr>"

definition disable_all :: "StaticJoinerHandler \<Rightarrow> StaticJoinerHandler" where
  "disable_all h = h\<lparr>wildcard_pskd := None\<rparr>"

definition static_joiner_pskd :: "bytes \<Rightarrow> StaticJoinerHandler \<Rightarrow> bytes option" where
  "static_joiner_pskd joiner_id h =
     (case find (\<lambda>(i, _). i = joiner_id) (by_joiner_id h) of
        Some (_, pskd) \<Rightarrow> Some pskd
      | None \<Rightarrow> wildcard_pskd h)"

definition static_joiner_handler :: "StaticJoinerHandler JoinerHandler" where
  "static_joiner_handler =
     \<lparr>joiner_pskd = \<lambda>i h. (h, static_joiner_pskd i h),
      on_joiner_connected = \<lambda>i h. h,
      on_joiner_finalize = \<lambda>i info h. (h, True)\<rparr>"

section \<open>Sessions\<close>

datatype JoinerSessionEvent =
    Transmit bytes bool
  | JoinerConnected
  | JoinerFinalized bool JoinerFinalizeInfo

datatype JoinerSessionPhase = AwaitingClientHello | AwaitingClientFlight | Connected | Finalized

record 's JoinerSession =
  js_joiner_id :: bytes
  js_joiner_iid :: bytes
  js_udp_port :: u16
  js_router_locator :: u16
  js_phase :: JoinerSessionPhase
  js_handshake :: "'s ThreadDtlsServerHandshake"
  js_cookie :: DtlsCookieGenerator
  js_key_material :: "ThreadDtlsKeyMaterial option"
  accepted_client_hello :: "HandshakeMessage option"
  accepted_client_key_exchange :: "HandshakeMessage option"
  js_server_flight :: "DtlsRecord list"
  js_server_finished :: bytes
  server_flight_retransmissions :: u8
  server_finished_retransmissions :: u8
  js_replay_window :: ReplayWindow
  epoch0_sequence :: u64
  epoch1_sequence :: u64
  saw_client_change_cipher_spec :: bool
  finalize_decision :: "bool option"
  expires_at :: nat

definition JoinerSession_new ::
  "('r, 's, 'p) p256 \<Rightarrow> crypto \<Rightarrow> bytes \<Rightarrow> u16 \<Rightarrow> u16 \<Rightarrow> bytes \<Rightarrow> nat \<Rightarrow> ('r, 's JoinerSession) rand" where
  "JoinerSession_new c cr iid port locator pskd now =
     r_then (ThreadDtlsServerHandshake_new_with_rng c cr pskd)
       (\<lambda>handshake rng. case DtlsCookieGenerator_new_with_rng c rng of (generator, rng) \<Rightarrow>
          r_ret \<lparr>js_joiner_id = joiner_id_from_iid iid, js_joiner_iid = iid, js_udp_port = port,
             js_router_locator = locator, js_phase = AwaitingClientHello, js_handshake = handshake,
             js_cookie = generator, js_key_material = None, accepted_client_hello = None,
             accepted_client_key_exchange = None, js_server_flight = [], js_server_finished = [],
             server_flight_retransmissions = 0, server_finished_retransmissions = 0,
             js_replay_window = ReplayWindow_new, epoch0_sequence = 0, epoch1_sequence = 0,
             saw_client_change_cipher_spec = False, finalize_decision = None,
             expires_at = now + JOINER_SESSION_TIMEOUT\<rparr> rng)"

definition js_expired :: "nat \<Rightarrow> 's JoinerSession \<Rightarrow> bool" where
  "js_expired now s \<longleftrightarrow> now \<ge> expires_at s"

abbreviation dtls_result :: "dtls_error + 'a \<Rightarrow> error + 'a" where
  "dtls_result r \<equiv> map_err Dtls r"

definition with_handshake ::
  "('s ThreadDtlsServerHandshake, dtls_error, 'a) action \<Rightarrow> ('s JoinerSession, error, 'a) action" where
  "with_handshake m s = (case m (js_handshake s) of (h, r) \<Rightarrow> (s\<lparr>js_handshake := h\<rparr>, dtls_result r))"

definition key_material_required :: "'s JoinerSession \<Rightarrow> error + ThreadDtlsKeyMaterial" where
  "key_material_required s =
     ok_or (js_key_material s) (error.InvalidState ''joiner key material is not derived'')"

definition joiner_router_kek :: "crypto \<Rightarrow> 's JoinerSession \<Rightarrow> error + bytes" where
  "joiner_router_kek cr s =
     and_then (key_material_required s)
       (\<lambda>km. dtls_result (server_derive_joiner_router_kek cr km (js_handshake s)))"

definition js_open_record :: "crypto \<Rightarrow> DtlsRecord \<Rightarrow> ('s JoinerSession, error, bytes option) action" where
  "js_open_record cr r s =
     (if has_seen (js_replay_window s) (sequence_number (rec_header r)) then (s, Ok None)
      else st_then (st_lift (and_then (key_material_required s)
          (\<lambda>km. dtls_result (open_aes_128_ccm_8_record cr r (client_write_key (key_block km))
                  (client_write_iv (key_block km))))))
        (\<lambda>plaintext. st_then (st_modify (\<lambda>s. s\<lparr>js_replay_window :=
              mark_seen (sequence_number (rec_header r)) (js_replay_window s)\<rparr>))
        (\<lambda>_. st_ok (Some plaintext))) s)"

definition epoch0_record :: "ContentType \<Rightarrow> bytes \<Rightarrow> ('s JoinerSession, error, DtlsRecord) action" where
  "epoch0_record t body s =
     st_then (st_lift (dtls_result (DtlsRecord_new t 0 (epoch0_sequence s) body)))
       (\<lambda>r. st_then (st_modify (\<lambda>s. s\<lparr>epoch0_sequence := epoch0_sequence s + 1\<rparr>)) (\<lambda>_. st_ok r)) s"

definition plaintext_record :: "bytes \<Rightarrow> ('s JoinerSession, error, DtlsRecord) action" where
  "plaintext_record body = epoch0_record Handshake body"

definition plaintext_change_cipher_spec :: "('s JoinerSession, error, DtlsRecord) action" where
  "plaintext_change_cipher_spec = epoch0_record ChangeCipherSpec [1]"

text \<open>Protecting a record under the server's keys with the next sequence number of epoch 1.\<close>

definition epoch1_record :: "crypto \<Rightarrow> ContentType \<Rightarrow> ThreadDtlsKeyMaterial \<Rightarrow> bytes \<Rightarrow>
    ('s JoinerSession, error, DtlsRecord) action" where
  "epoch1_record cr t km body s =
     st_then (st_lift (dtls_result (protect_aes_128_ccm_8_record cr t 1 (epoch1_sequence s)
         (server_write_key (key_block km)) (server_write_iv (key_block km)) body)))
       (\<lambda>r. st_then (st_modify (\<lambda>s. s\<lparr>epoch1_sequence := epoch1_sequence s + 1\<rparr>)) (\<lambda>_. st_ok r)) s"

definition js_build_server_finished_flight :: "crypto \<Rightarrow> ('s JoinerSession, error, bytes) action" where
  "js_build_server_finished_flight cr =
     st_then (st_try key_material_required)
       (\<lambda>km. st_then plaintext_change_cipher_spec
       (\<lambda>ccs. st_then (st_get js_server_finished)
       (\<lambda>body. st_then (epoch1_record cr Handshake km body)
       (\<lambda>finished. st_lift (dtls_result (encode_datagram [ccs, finished]))))))"

text \<open>The \<open>Debug\<close> text of a handshake type.\<close>

fun show_handshake_type :: "HandshakeType \<Rightarrow> string" where
  "show_handshake_type HelloRequest = ''HelloRequest''"
| "show_handshake_type HandshakeType.ClientHello = ''ClientHello''"
| "show_handshake_type HandshakeType.ServerHello = ''ServerHello''"
| "show_handshake_type HandshakeType.HelloVerifyRequest = ''HelloVerifyRequest''"
| "show_handshake_type Certificate = ''Certificate''"
| "show_handshake_type ServerKeyExchange = ''ServerKeyExchange''"
| "show_handshake_type CertificateRequest = ''CertificateRequest''"
| "show_handshake_type ServerHelloDone = ''ServerHelloDone''"
| "show_handshake_type CertificateVerify = ''CertificateVerify''"
| "show_handshake_type ClientKeyExchange = ''ClientKeyExchange''"
| "show_handshake_type Finished = ''Finished''"

text \<open>The first ClientHello of a joiner is answered with a cookie request.\<close>

definition js_hello_verify ::
  "crypto \<Rightarrow> HandshakeMessage \<Rightarrow> ClientHello \<Rightarrow> u64 \<Rightarrow> ('s JoinerSession, error, JoinerSessionEvent list) action" where
  "js_hello_verify cr m hello record_sequence =
     st_try (\<lambda>s. dtls_result (and_then (cookie cr (js_cookie s) (ch_random hello))
       (\<lambda>ck. and_then (HelloVerifyRequest_encode \<lparr>hv_server_version = DTLS_1_2_VERSION, hv_cookie = ck\<rparr>)
       (\<lambda>body. and_then (HandshakeMessage_encode
            \<lparr>hm_type = HandshakeType.HelloVerifyRequest, hm_seq = hm_seq m, hm_payload = body\<rparr>)
       (\<lambda>bs. and_then (DtlsRecord_new Handshake 0 record_sequence bs)
       (\<lambda>r. and_then (DtlsRecord_encode r)
       (\<lambda>datagram. Ok [Transmit datagram False])))))))"

definition js_server_flight_records ::
  "HandshakeMessage \<Rightarrow> HandshakeMessage \<Rightarrow> HandshakeMessage \<Rightarrow> ('s JoinerSession, error, DtlsRecord list) action" where
  "js_server_flight_records server_hello key_exchange hello_done =
     st_then (st_lift (dtls_result (HandshakeMessage_encode server_hello)))
       (\<lambda>b. st_then (plaintext_record b)
       (\<lambda>r1. st_then (st_lift (dtls_result (HandshakeMessage_encode key_exchange)))
       (\<lambda>b. st_then (plaintext_record b)
       (\<lambda>r2. st_then (st_lift (dtls_result (HandshakeMessage_encode hello_done)))
       (\<lambda>b. st_then (plaintext_record b)
       (\<lambda>r3. st_ok [r1, r2, r3]))))))"

definition js_start_server_flight ::
  "('r, 's, 'p) p256 \<Rightarrow> crypto \<Rightarrow> HandshakeMessage \<Rightarrow> u64 \<Rightarrow> ('s JoinerSession, error, HandshakeMessage) action" where
  "js_start_server_flight c cr m record_sequence =
     st_then (with_handshake (handle_client_hello c cr m))
       (\<lambda>_. st_then (st_modify (\<lambda>s. s\<lparr>accepted_client_hello := Some m, epoch0_sequence := record_sequence\<rparr>))
       (\<lambda>_. with_handshake (build_server_hello c (hm_seq m))))"

definition js_end_server_flight ::
  "HandshakeMessage \<Rightarrow> HandshakeMessage \<Rightarrow> HandshakeMessage \<Rightarrow> ('s JoinerSession, error, bytes) action" where
  "js_end_server_flight m server_hello key_exchange =
     st_then (with_handshake (build_server_hello_done (hm_seq m + 2)))
       (\<lambda>hello_done. st_then (js_server_flight_records server_hello key_exchange hello_done)
       (\<lambda>flight. st_then (st_modify (\<lambda>s. s\<lparr>js_server_flight := flight\<rparr>))
       (\<lambda>_. st_lift (dtls_result (encode_datagram flight)))))"

definition js_accept_client_hello ::
  "('r, 's, 'p) p256 \<Rightarrow> crypto \<Rightarrow> HandshakeMessage \<Rightarrow> u64 \<Rightarrow>
     ('r, 's JoinerSession, error, JoinerSessionEvent list) rand_action" where
  "js_accept_client_hello c cr m record_sequence =
     ra_then (ra_lift (js_start_server_flight c cr m record_sequence))
       (\<lambda>server_hello. ra_then
          (\<lambda>s. r_then (build_server_key_exchange c cr (hm_seq m + 1) (js_handshake s))
             (\<lambda>(h, r). r_ret (s\<lparr>js_handshake := h\<rparr>, dtls_result r)))
       (\<lambda>key_exchange. ra_lift (st_then (js_end_server_flight m server_hello key_exchange)
         (\<lambda>datagram. st_then (st_modify (\<lambda>s. s\<lparr>js_phase := AwaitingClientFlight\<rparr>))
         (\<lambda>_. st_ok [Transmit datagram False])))))"

definition js_resend_server_flight ::
  "HandshakeMessage \<Rightarrow> ('s JoinerSession, error, JoinerSessionEvent list) action" where
  "js_resend_server_flight m s =
     (if accepted_client_hello s = Some m \<and>
         server_flight_retransmissions s < MAX_DUPLICATE_FLIGHT_RETRANSMISSIONS then
        (case renumber_epoch_zero_flight (js_server_flight s) (epoch0_sequence s) of (flight, n) \<Rightarrow>
           st_then (st_modify (\<lambda>s. s\<lparr>server_flight_retransmissions := server_flight_retransmissions s + 1,
               js_server_flight := flight, epoch0_sequence := n\<rparr>))
             (\<lambda>_. st_then (st_lift (dtls_result (encode_datagram flight)))
             (\<lambda>datagram. st_ok [Transmit datagram False])) s)
      else (s, Ok []))"

definition js_client_key_exchange ::
  "('r, 's, 'p) p256 \<Rightarrow> crypto \<Rightarrow> HandshakeMessage \<Rightarrow> ('s JoinerSession, error, JoinerSessionEvent list) action" where
  "js_client_key_exchange c cr m s =
     (if accepted_client_key_exchange s = Some m then (s, Ok [])
      else st_then (with_handshake (handle_client_key_exchange c m))
        (\<lambda>_. st_then (st_try (\<lambda>s. dtls_result (server_derive_key_material c cr (js_handshake s))))
        (\<lambda>km. st_then (st_modify (\<lambda>s. s\<lparr>js_key_material := Some km, accepted_client_key_exchange := Some m\<rparr>))
        (\<lambda>_. st_ok []))) s)"

definition handle_plaintext_handshake ::
  "('r, 's, 'p) p256 \<Rightarrow> crypto \<Rightarrow> HandshakeMessage \<Rightarrow> u64 \<Rightarrow>
     ('r, 's JoinerSession, error, JoinerSessionEvent list) rand_action" where
  "handle_plaintext_handshake c cr m record_sequence s =
     (case (hm_type m, js_phase s) of
        (HandshakeType.ClientHello, AwaitingClientHello) \<Rightarrow>
          (case ClientHello_decode (hm_payload m) of
             Inl e \<Rightarrow> r_ret (s, Err (Dtls e))
           | Inr hello \<Rightarrow>
               if \<not> cookie_verify cr (js_cookie s) (ch_random hello) (ch_cookie hello)
               then ra_lift (js_hello_verify cr m hello record_sequence) s
               else js_accept_client_hello c cr m record_sequence s)
      | (HandshakeType.ClientHello, AwaitingClientFlight) \<Rightarrow> ra_lift (js_resend_server_flight m) s
      | (ClientKeyExchange, AwaitingClientFlight) \<Rightarrow> ra_lift (js_client_key_exchange c cr m) s
      | _ \<Rightarrow> r_ret (s, Err (error.Crypto
               (''unexpected joiner handshake message '' @ show_handshake_type (hm_type m)))))"

definition js_answer_finished :: "crypto \<Rightarrow> HandshakeMessage \<Rightarrow> ('s JoinerSession, error, bytes) action" where
  "js_answer_finished cr m =
     st_then (st_try key_material_required)
       (\<lambda>km. st_then (with_handshake (verify_client_finished cr m km))
       (\<lambda>_. st_then (st_try (\<lambda>s. ok_or (accepted_client_hello s)
              (error.InvalidState ''accepted ClientHello is missing'')))
       (\<lambda>hello. st_then (with_handshake (build_server_finished cr (hm_seq hello + 3) km))
       (\<lambda>finished. st_then (st_lift (dtls_result (HandshakeMessage_encode finished)))
       (\<lambda>bs. st_then (st_modify (\<lambda>s. s\<lparr>js_server_finished := bs\<rparr>))
       (\<lambda>_. js_build_server_finished_flight cr))))))"

definition js_finished ::
  "crypto \<Rightarrow> HandshakeMessage \<Rightarrow> ('s JoinerSession, error, JoinerSessionEvent list) action" where
  "js_finished cr m =
     (if hm_type m \<noteq> Finished then st_ok []
      else st_then (js_answer_finished cr m)
        (\<lambda>datagram. st_then (st_modify (\<lambda>s. s\<lparr>js_phase := Connected\<rparr>))
        (\<lambda>_. st_ok [Transmit datagram False, JoinerConnected])))"

text \<open>A loop that stops at the first error and collects what its steps return.\<close>

fun st_each :: "('x \<Rightarrow> ('s, 'e, 'a list) action) \<Rightarrow> 'x list \<Rightarrow> ('s, 'e, 'a list) action" where
  "st_each f [] = st_ok []"
| "st_each f (x # xs) = st_then (f x) (\<lambda>ys. st_then (st_each f xs) (\<lambda>zs. st_ok (ys @ zs)))"

fun ra_each :: "('x \<Rightarrow> ('r, 's, 'e, 'a list) rand_action) \<Rightarrow> 'x list \<Rightarrow> ('r, 's, 'e, 'a list) rand_action" where
  "ra_each f [] = ra_lift (st_ok [])"
| "ra_each f (x # xs) = ra_then (f x) (\<lambda>ys. ra_then (ra_each f xs) (\<lambda>zs. ra_lift (st_ok (ys @ zs))))"

definition handle_encrypted_handshake ::
  "crypto \<Rightarrow> DtlsRecord \<Rightarrow> ('s JoinerSession, error, JoinerSessionEvent list) action" where
  "handle_encrypted_handshake cr r s =
     (if js_phase s \<noteq> AwaitingClientFlight \<or> \<not> saw_client_change_cipher_spec s \<or> js_key_material s = None
      then (s, Ok [])
      else st_then (js_open_record cr r)
        (\<lambda>plaintext. case plaintext of
             None \<Rightarrow> st_ok []
           | Some bs \<Rightarrow>
               st_then (st_lift (dtls_result (and_then (DtlsRecord_new Handshake 1 0 bs)
                   parse_unfragmented_handshake_messages)))
                 (st_each (js_finished cr))) s)"

definition js_finalize_response ::
  "crypto \<Rightarrow> CoapMessage \<Rightarrow> bool \<Rightarrow> ('s JoinerSession, error, DtlsRecord) action" where
  "js_finalize_response cr request accepted =
     (let state = if accepted then Accept else Reject;
          response = \<lparr>coap_ty = Acknowledgement, coap_code = CoapCode_CHANGED, message_id = message_id request,
            token = token request, options = [], coap_payload = [TLV_STATE, 1, MeshcopState_to_wire state]\<rparr>
      in st_then (st_try key_material_required)
           (\<lambda>km. st_then (st_lift (CoapMessage_encode response))
           (\<lambda>body. epoch1_record cr ApplicationData km body)))"

definition js_answer_finalize ::
  "crypto \<Rightarrow> CoapMessage \<Rightarrow> JoinerFinalizeInfo \<Rightarrow> bool \<Rightarrow> ('s JoinerSession, error, JoinerSessionEvent list) action" where
  "js_answer_finalize cr request info accepted =
     st_then (js_finalize_response cr request accepted)
       (\<lambda>r. st_then (st_get (\<lambda>s. js_phase s \<noteq> Finalized))
       (\<lambda>first_decision. st_then (st_modify (\<lambda>s. s\<lparr>js_phase := Finalized\<rparr>))
       (\<lambda>_. st_then (st_lift (dtls_result (DtlsRecord_encode r)))
       (\<lambda>datagram. st_ok (Transmit datagram accepted #
           (if first_decision then [JoinerFinalized accepted info] else []))))))"

definition js_decide ::
  "'h JoinerHandler \<Rightarrow> JoinerFinalizeInfo \<Rightarrow> ('s JoinerSession \<times> 'h, error, bool) action" where
  "js_decide hdl info = (\<lambda>(s, h).
     case finalize_decision s of
       Some d \<Rightarrow> ((s, h), Ok d)
     | None \<Rightarrow>
         (case on_joiner_finalize hdl (js_joiner_id s) info h of
            (h', d) \<Rightarrow> ((s\<lparr>finalize_decision := Some d\<rparr>, h'), Ok d)))"

definition with_session :: "('s JoinerSession, error, 'a) action \<Rightarrow> ('s JoinerSession \<times> 'h, error, 'a) action" where
  "with_session m = (\<lambda>(s, h). case m s of (s', r) \<Rightarrow> ((s', h), r))"

definition js_established :: "'s JoinerSession \<Rightarrow> bool" where
  "js_established s \<longleftrightarrow> js_phase s = Connected \<or> js_phase s = Finalized"

definition handle_application_data ::
  "crypto \<Rightarrow> 'h JoinerHandler \<Rightarrow> DtlsRecord \<Rightarrow> ('s JoinerSession \<times> 'h, error, JoinerSessionEvent list) action" where
  "handle_application_data cr hdl r = (\<lambda>(s, h).
     if \<not> js_established s then ((s, h), Ok [])
     else case js_open_record cr r s of
         (s, Inr (Some plaintext)) \<Rightarrow>
           st_then (with_session (st_modify (\<lambda>s. s\<lparr>js_server_finished := []\<rparr>)))
             (\<lambda>_. st_then (st_lift (CoapMessage_decode plaintext))
             (\<lambda>request. st_then (st_lift (uri_path request))
             (\<lambda>path. if path \<noteq> Some uri_JOIN_FIN then st_ok []
                else st_then (st_lift (parse_join_fin request))
                  (\<lambda>info. st_then (js_decide hdl info)
                  (\<lambda>accepted. with_session (js_answer_finalize cr request info accepted)))))) (s, h)
       | (s, _) \<Rightarrow> ((s, h), Ok []))"

definition receive_record ::
  "('r, 's, 'p) p256 \<Rightarrow> crypto \<Rightarrow> 'h JoinerHandler \<Rightarrow> bool \<Rightarrow> DtlsRecord \<Rightarrow>
     ('r, 's JoinerSession \<times> 'h, error, JoinerSessionEvent list) rand_action" where
  "receive_record c cr hdl was_established r = (\<lambda>(s, h).
     let ep = epoch (rec_header r); t = content_type (rec_header r) in
     if ep = 0 \<and> t = Handshake \<and> \<not> was_established then
       (case parse_unfragmented_handshake_messages r of
          Inl _ \<Rightarrow> r_ret ((s, h), Ok [])
        | Inr messages \<Rightarrow>
            r_then (ra_each (\<lambda>m. handle_plaintext_handshake c cr m (sequence_number (rec_header r))) messages s)
              (\<lambda>(s', res). r_ret ((s', h), res)))
     else if ep = 0 \<and> t = ChangeCipherSpec then
       (if rec_payload r \<noteq> [1] then r_ret ((s, h), Err (error.Crypto ''invalid ChangeCipherSpec payload''))
        else r_ret ((s\<lparr>saw_client_change_cipher_spec := True\<rparr>, h), Ok []))
     else if ep = 1 \<and> t = Handshake then ra_lift (with_session (handle_encrypted_handshake cr r)) (s, h)
     else if ep = 1 \<and> t = ApplicationData then ra_lift (handle_application_data cr hdl r) (s, h)
     else if ep = 0 \<and> t = Alert \<and> \<not> js_established s then
       r_ret ((s, h), Err (error.Crypto (''joiner DTLS alert epoch='' @ show_nat (unat ep) @ '' seq='' @
          show_nat (unat (sequence_number (rec_header r))))))
     else if ep = 1 \<and> t = Alert then
       (case js_open_record cr r s of
          (s', Inr (Some plaintext)) \<Rightarrow>
            r_ret ((s', h), Err (error.Crypto (''joiner DTLS alert epoch=1 seq='' @
              show_nat (unat (sequence_number (rec_header r))) @
              '' level='' @ show_nat (unat (if plaintext = [] then 0 else plaintext ! 0)) @
              '' description='' @ show_nat (unat (if length plaintext < 2 then 0 else plaintext ! 1)))))
        | (s', _) \<Rightarrow> r_ret ((s', h), Ok []))
     else r_ret ((s, h), Ok []))"

definition js_resend_finished ::
  "crypto \<Rightarrow> DtlsRecord list \<Rightarrow> ('s JoinerSession, error, JoinerSessionEvent list) action" where
  "js_resend_finished cr rs s =
     (if js_established s \<and> js_server_finished s \<noteq> [] \<and> is_client_finished_flight rs \<and>
         server_finished_retransmissions s < MAX_DUPLICATE_FLIGHT_RETRANSMISSIONS then
        st_then (st_modify (\<lambda>s. s\<lparr>server_finished_retransmissions := server_finished_retransmissions s + 1\<rparr>))
          (\<lambda>_. st_then (js_build_server_finished_flight cr)
          (\<lambda>datagram. st_ok [Transmit datagram False])) s
      else (s, Ok []))"

definition JoinerSession_receive ::
  "('r, 's, 'p) p256 \<Rightarrow> crypto \<Rightarrow> 'h JoinerHandler \<Rightarrow> bytes \<Rightarrow>
     ('r, 's JoinerSession \<times> 'h, error, JoinerSessionEvent list) rand_action" where
  "JoinerSession_receive c cr hdl encapsulated = (\<lambda>(s, h).
     case parse_datagram encapsulated of
       Inl _ \<Rightarrow> r_ret ((s, h), Ok [])
     | Inr records \<Rightarrow>
         let was_established = js_established s in
         ra_then (ra_lift (with_session (js_resend_finished cr records)))
           (\<lambda>events. ra_then (ra_each (receive_record c cr hdl was_established) records)
           (\<lambda>more. ra_lift (st_ok (events @ more)))) (s, h))"

section \<open>Phases and decisions\<close>

fun phase_rank :: "JoinerSessionPhase \<Rightarrow> nat" where
  "phase_rank AwaitingClientHello = 0"
| "phase_rank AwaitingClientFlight = 1"
| "phase_rank Connected = 2"
| "phase_rank Finalized = 3"

text \<open>What the steps inside a handler leave alone.\<close>

definition js_frame :: "'s JoinerSession \<Rightarrow> 's JoinerSession \<Rightarrow> bool" where
  "js_frame s t \<longleftrightarrow>
     js_joiner_id t = js_joiner_id s \<and> js_joiner_iid t = js_joiner_iid s \<and> js_udp_port t = js_udp_port s \<and>
     js_router_locator t = js_router_locator s \<and> js_cookie t = js_cookie s \<and> expires_at t = expires_at s \<and>
     js_phase t = js_phase s \<and> finalize_decision t = finalize_decision s \<and>
     js_key_material t = js_key_material s \<and>
     server_flight_retransmissions t = server_flight_retransmissions s \<and>
     server_finished_retransmissions t = server_finished_retransmissions s"

interpretation js: frame js_frame
  by unfold_locales (auto simp: js_frame_def)

lemma js_framed_with_handshake: "js.framed (with_handshake m)"
  by (simp add: js.framed_def with_handshake_def js_frame_def split: prod.split)

lemma js_framed_open_record: "js.framed (js_open_record cr r)"
  by (auto simp: js.framed_def js_open_record_def js_frame_def st_then_def st_lift_def st_modify_def st_ok_def
      split: sum.split)

lemma js_framed_epoch0_record: "js.framed (epoch0_record t body)"
  by (auto simp: js.framed_def epoch0_record_def js_frame_def st_then_def st_lift_def st_modify_def st_ok_def
      split: sum.split)

lemma js_framed_epoch1_record: "js.framed (epoch1_record cr t km body)"
  by (auto simp: js.framed_def epoch1_record_def js_frame_def st_then_def st_lift_def st_modify_def st_ok_def
      split: sum.split)

lemmas js_framed = js.framed_intros js_framed_with_handshake js_framed_open_record js_framed_epoch0_record
  js_framed_epoch1_record

lemma js_framed_finished_flight: "js.framed (js_build_server_finished_flight cr)"
  unfolding js_build_server_finished_flight_def plaintext_change_cipher_spec_def
  by (intro js_framed)

lemma js_framed_server_flight: "js.framed (js_server_flight_records a b d)"
  unfolding js_server_flight_records_def plaintext_record_def by (intro js_framed)

lemma js_framed_hello_verify: "js.framed (js_hello_verify cr m hello sn)"
  unfolding js_hello_verify_def by (intro js_framed)

text \<open>
  The invariant of a session, how one call may change it, and what an event it reports says of the state it
  leaves.
\<close>

definition js_inv :: "'s JoinerSession \<Rightarrow> bool" where
  "js_inv s \<longleftrightarrow>
     server_flight_retransmissions s \<le> MAX_DUPLICATE_FLIGHT_RETRANSMISSIONS \<and>
     server_finished_retransmissions s \<le> MAX_DUPLICATE_FLIGHT_RETRANSMISSIONS \<and>
     (js_phase s = AwaitingClientHello \<longrightarrow> js_key_material s = None) \<and>
     (js_established s \<longrightarrow> js_key_material s \<noteq> None) \<and>
     (js_phase s = Finalized \<longrightarrow> finalize_decision s \<noteq> None)"

definition js_progress :: "'s JoinerSession \<Rightarrow> 's JoinerSession \<Rightarrow> bool" where
  "js_progress s t \<longleftrightarrow>
     js_joiner_id t = js_joiner_id s \<and> js_joiner_iid t = js_joiner_iid s \<and> js_udp_port t = js_udp_port s \<and>
     js_router_locator t = js_router_locator s \<and> js_cookie t = js_cookie s \<and> expires_at t = expires_at s \<and>
     phase_rank (js_phase s) \<le> phase_rank (js_phase t) \<and>
     (finalize_decision s \<noteq> None \<longrightarrow> finalize_decision t = finalize_decision s) \<and>
     server_flight_retransmissions s \<le> server_flight_retransmissions t \<and>
     server_finished_retransmissions s \<le> server_finished_retransmissions t"

fun js_event_ok :: "'s JoinerSession \<Rightarrow> JoinerSessionEvent \<Rightarrow> bool" where
  "js_event_ok s (Transmit datagram kek) \<longleftrightarrow> kek \<longrightarrow> js_phase s = Finalized \<and> finalize_decision s = Some True"
| "js_event_ok s JoinerConnected \<longleftrightarrow> js_established s"
| "js_event_ok s (JoinerFinalized accepted info) \<longleftrightarrow> js_phase s = Finalized \<and> finalize_decision s = Some accepted"

fun is_finalized :: "JoinerSessionEvent \<Rightarrow> bool" where
  "is_finalized (JoinerFinalized _ _) = True"
| "is_finalized _ = False"

definition finalized_count :: "JoinerSessionEvent list \<Rightarrow> nat" where
  "finalized_count evs = length (filter is_finalized evs)"

definition js_good :: "'s JoinerSession \<Rightarrow> 's JoinerSession \<times> (error + JoinerSessionEvent list) \<Rightarrow> bool" where
  "js_good s out \<longleftrightarrow>
     (js_inv s \<longrightarrow> js_inv (fst out)) \<and> js_progress s (fst out) \<and>
     (\<forall>evs. snd out = Inr evs \<longrightarrow>
        (\<forall>e \<in> set evs. js_event_ok (fst out) e) \<and>
        finalized_count evs + of_bool (js_phase s = Finalized) = of_bool (js_phase (fst out) = Finalized))"

lemma js_progress_refl: "js_progress s s"
  by (simp add: js_progress_def)

lemma js_progress_trans: "js_progress s t \<Longrightarrow> js_progress t u \<Longrightarrow> js_progress s u"
  by (auto simp: js_progress_def)

lemma rank_Finalized: "phase_rank Finalized \<le> phase_rank p \<Longrightarrow> p = Finalized"
  by (cases p) simp_all

lemma established_rank: "js_established s \<longleftrightarrow> 2 \<le> phase_rank (js_phase s)"
  by (cases "js_phase s") (simp_all add: js_established_def)

lemma js_event_ok_progress:
  assumes "js_event_ok s e" "js_progress s t"
  shows "js_event_ok t e"
proof -
  have "js_phase s = Finalized \<Longrightarrow> js_phase t = Finalized" "js_established s \<Longrightarrow> js_established t"
    using assms(2) rank_Finalized [of "js_phase t"] by (auto simp: js_progress_def established_rank)
  then show ?thesis
    using assms by (cases e) (auto simp: js_progress_def)
qed

lemma js_good_frame:
  "js_frame s t \<Longrightarrow> js_good s (t, Inl e)"
  "js_frame s t \<Longrightarrow> list_all (\<lambda>e. \<exists>d. e = Transmit d False) evs \<Longrightarrow> js_good s (t, Inr evs)"
proof -
  show "js_frame s t \<Longrightarrow> js_good s (t, Inl e)"
    by (auto simp: js_good_def js_frame_def js_inv_def js_progress_def js_established_def)
  assume f: "js_frame s t" and evs: "list_all (\<lambda>e. \<exists>d. e = Transmit d False) evs"
  have "\<forall>e \<in> set evs. js_event_ok t e" "finalized_count evs = 0"
    using evs by (auto simp: list_all_iff finalized_count_def filter_empty_conv)
  then show "js_good s (t, Inr evs)"
    using f by (auto simp: js_good_def js_frame_def js_inv_def js_progress_def js_established_def)
qed

lemma js_good_seq:
  assumes "js_good s (t, Inr evs)" "js_good t (u, res)"
  shows "js_good s (u, map_sum id ((@) evs) res)"
proof -
  have p: "js_progress s t" "js_progress t u" "js_inv s \<longrightarrow> js_inv u"
    and evs: "\<forall>e \<in> set evs. js_event_ok t e"
      "finalized_count evs + of_bool (js_phase s = Finalized) = of_bool (js_phase t = Finalized)"
    using assms by (simp_all add: js_good_def)
  have "\<forall>e \<in> set evs. js_event_ok u e"
    using evs(1) p(2) js_event_ok_progress by blast
  moreover have "(\<forall>e \<in> set more. js_event_ok u e) \<and>
      finalized_count more + of_bool (js_phase t = Finalized) = of_bool (js_phase u = Finalized)" if "res = Inr more" for more
    using assms(2) that by (simp add: js_good_def)
  moreover have "finalized_count (evs @ more) = finalized_count evs + finalized_count more" for more
    by (simp add: finalized_count_def)
  ultimately show ?thesis
    using p js_progress_trans [OF p(1,2)] evs(2) by (cases res) (auto simp: js_good_def)
qed


lemma js_framed_handlers:
  "js.framed (js_answer_finished cr m)" "js.framed (js_finalize_response cr request accepted)"
  "js.framed (js_start_server_flight c cr m sn)" "js.framed (js_end_server_flight m a b)"
proof -
  have mods: "js.framed (st_modify (\<lambda>s. s\<lparr>js_server_finished := bs\<rparr>))"
    "js.framed (st_modify (\<lambda>s. s\<lparr>accepted_client_hello := h, epoch0_sequence := n\<rparr>))"
    "js.framed (st_modify (\<lambda>s. s\<lparr>js_server_flight := fl\<rparr>))" for bs h n fl
    by (auto intro!: js.framed_modify simp: js_frame_def)
  show "js.framed (js_answer_finished cr m)" "js.framed (js_finalize_response cr request accepted)"
    "js.framed (js_start_server_flight c cr m sn)" "js.framed (js_end_server_flight m a b)"
    unfolding js_answer_finished_def js_finalize_response_def js_start_server_flight_def js_end_server_flight_def Let_def
    by (intro js.framed_then js.framed_pure js_framed_with_handshake js_framed_finished_flight js_framed_server_flight
        js_framed_epoch1_record mods)+
qed

text \<open>The guard of the encrypted handshake, which its loop keeps.\<close>

definition js_in_flight :: "'s JoinerSession \<Rightarrow> bool" where
  "js_in_flight s \<longleftrightarrow> (js_phase s = AwaitingClientFlight \<or> js_phase s = Connected) \<and> js_key_material s \<noteq> None"

lemma js_good_finished:
  assumes "js_in_flight s"
  shows "js_good s (js_finished cr m s) \<and> js_in_flight (fst (js_finished cr m s))"
proof (cases "hm_type m = Finished")
  case True
  let ?G = "\<lambda>out. js_good s out \<and> js_in_flight (fst out)"
  have "?G (st_then (js_answer_finished cr m)
        (\<lambda>datagram. st_then (st_modify (\<lambda>s. s\<lparr>js_phase := Connected\<rparr>))
        (\<lambda>_. st_ok [Transmit datagram False, JoinerConnected])) s)"
  proof (rule js.outcome_then [where G = ?G, OF js.frame_refl [of s] js_framed_handlers(1)])
    fix datagram t
    assume "js_frame s t"
    then show "?G (st_then (st_modify (\<lambda>s. s\<lparr>js_phase := Connected\<rparr>))
        (\<lambda>_. st_ok [Transmit datagram False, JoinerConnected]) t)"
      using assms
      by (auto simp: st_then_def st_modify_def st_ok_def js_good_def js_frame_def js_inv_def js_progress_def
          js_established_def js_in_flight_def finalized_count_def)
  next
    fix e t
    assume "js_frame s t"
    then show "?G (t, Inl e)"
      using assms js_good_frame(1) by (auto simp: js_frame_def js_in_flight_def)
  qed
  with True show ?thesis
    by (simp add: js_finished_def)
next
  case False
  then show ?thesis
    using assms js_good_frame(2) [OF js.frame_refl [of s], of "[]"] by (simp add: js_finished_def st_ok_def)
qed

lemma js_good_each_finished:
  "js_in_flight s \<Longrightarrow> js_good s (st_each (js_finished cr) ms s)"
proof (induction ms arbitrary: s)
  case Nil
  then show ?case
    using js_good_frame(2) [OF js.frame_refl [of s], of "[]"] by (simp add: st_ok_def)
next
  case (Cons m ms)
  obtain t res where t: "js_finished cr m s = (t, res)"
    by fastforce
  then have g: "js_good s (t, res)" "js_in_flight t"
    using js_good_finished [OF Cons.prems, of cr m] by simp_all
  show ?case
  proof (cases res)
    case (Inl e)
    then show ?thesis
      using t g by (simp add: st_then_def)
  next
    case (Inr evs)
    obtain u res' where u: "st_each (js_finished cr) ms t = (u, res')"
      by fastforce
    have "js_good s (u, map_sum id ((@) evs) res')"
      using js_good_seq [of s t evs u res'] g Cons.IH [OF g(2)] Inr u by simp
    then show ?thesis
      using t Inr u by (cases res') (simp_all add: st_then_def st_ok_def)
  qed
qed

lemma js_good_after: "js_good s (t, Inr []) \<Longrightarrow> js_good t out \<Longrightarrow> js_good s out"
  using js_good_seq [of s t "[]" "fst out" "snd out"] by (cases out; cases "snd out") simp_all

lemma js_good_after_frame: "js_frame s t \<Longrightarrow> js_good t out \<Longrightarrow> js_good s out"
  using js_good_after js_good_frame(2) [of s t "[]"] by simp

lemma js_good_nothing: "js_good s (s, Inr [])" "js_good s (s, Inl e)"
  using js_good_frame(2) [OF js.frame_refl [of s], of "[]"] js_good_frame(1) [OF js.frame_refl [of s]] by simp_all

lemma js_good_encrypted: "js_good s (handle_encrypted_handshake cr r s)"
proof (cases "js_phase s \<noteq> AwaitingClientFlight \<or> \<not> saw_client_change_cipher_spec s \<or> js_key_material s = None")
  case True
  then show ?thesis
    using js_good_frame(2) [OF js.frame_refl [of s], of "[]"] by (simp add: handle_encrypted_handshake_def)
next
  case False
  have "js_good s (st_then (js_open_record cr r)
        (\<lambda>plaintext. case plaintext of
             None \<Rightarrow> st_ok []
           | Some bs \<Rightarrow>
               st_then (st_lift (dtls_result (and_then (DtlsRecord_new Handshake 1 0 bs)
                   parse_unfragmented_handshake_messages)))
                 (st_each (js_finished cr))) s)"
  proof (rule js.outcome_then [where G = "js_good s", OF js.frame_refl [of s] js_framed_open_record])
    fix plaintext t
    assume f: "js_frame s t"
    then have t: "js_in_flight t"
      using False by (simp add: js_in_flight_def js_frame_def)
    show "js_good s ((case plaintext of
             None \<Rightarrow> st_ok []
           | Some bs \<Rightarrow>
               st_then (st_lift (dtls_result (and_then (DtlsRecord_new Handshake 1 0 bs)
                   parse_unfragmented_handshake_messages)))
                 (st_each (js_finished cr))) t)"
      by (rule js_good_after_frame [OF f])
        (use js_good_each_finished [OF t, of cr] js_good_nothing [of t] in
          \<open>auto simp: st_then_def st_lift_def st_ok_def split: option.split sum.split\<close>)
  qed (rule js_good_frame)
  with False show ?thesis
    by (auto simp: handle_encrypted_handshake_def)
qed

lemma js_good_answer_finalize:
  assumes "js_established s" "finalize_decision s = Some accepted"
  shows "js_good s (js_answer_finalize cr request info accepted s)"
  unfolding js_answer_finalize_def
proof (rule js.outcome_then [where G = "js_good s", OF js.frame_refl [of s] js_framed_handlers(2)])
  fix r t
  assume "js_frame s t"
  then show "js_good s (st_then (st_get (\<lambda>s. js_phase s \<noteq> Finalized))
       (\<lambda>first_decision. st_then (st_modify (\<lambda>s. s\<lparr>js_phase := Finalized\<rparr>))
       (\<lambda>_. st_then (st_lift (dtls_result (DtlsRecord_encode r)))
       (\<lambda>datagram. st_ok (Transmit datagram accepted #
           (if first_decision then [JoinerFinalized accepted info] else []))))) t)"
    using assms
    by (auto simp: st_then_def st_modify_def st_ok_def st_get_def st_lift_def js_good_def js_frame_def js_inv_def
        js_progress_def js_established_def finalized_count_def split: sum.split)
qed (rule js_good_frame)

lemma retransmission_step: "(n :: u8) < MAX_DUPLICATE_FLIGHT_RETRANSMISSIONS \<Longrightarrow>
  n + 1 \<le> MAX_DUPLICATE_FLIGHT_RETRANSMISSIONS \<and> n \<le> n + 1"
  by (auto simp: MAX_DUPLICATE_FLIGHT_RETRANSMISSIONS_def word_less_nat_alt word_le_nat_alt unat_word_ariths)

lemma js_good_resend_server_flight:
  assumes "js_phase s = AwaitingClientFlight"
  shows "js_good s (js_resend_server_flight m s)"
proof (cases "accepted_client_hello s = Some m \<and> server_flight_retransmissions s < MAX_DUPLICATE_FLIGHT_RETRANSMISSIONS")
  case True
  obtain fl n where "renumber_epoch_zero_flight (js_server_flight s) (epoch0_sequence s) = (fl, n)"
    by fastforce
  with True assms retransmission_step [of "server_flight_retransmissions s"] show ?thesis
    by (auto simp: js_resend_server_flight_def st_then_def st_modify_def st_lift_def st_ok_def js_good_def js_inv_def
        js_progress_def js_established_def finalized_count_def split: sum.split)
next
  case False
  then show ?thesis
    using js_good_nothing(1) [of s] by (auto simp: js_resend_server_flight_def)
qed

lemma js_good_resend_finished: "js_good s (js_resend_finished cr rs s)"
proof (cases "js_established s \<and> js_server_finished s \<noteq> [] \<and> is_client_finished_flight rs \<and>
    server_finished_retransmissions s < MAX_DUPLICATE_FLIGHT_RETRANSMISSIONS")
  case True
  define t where "t = s\<lparr>server_finished_retransmissions := server_finished_retransmissions s + 1\<rparr>"
  have t: "js_good s (t, Inr [])"
    using True retransmission_step [of "server_finished_retransmissions s"]
    by (auto simp: t_def js_good_def js_inv_def js_progress_def js_established_def finalized_count_def)
  have "js_good t (st_then (js_build_server_finished_flight cr) (\<lambda>datagram. st_ok [Transmit datagram False]) t)"
    by (rule js.outcome_then [where G = "js_good t", OF js.frame_refl [of t] js_framed_finished_flight])
      (auto simp: st_ok_def js_good_frame)
  from js_good_after [OF t this] True show ?thesis
    by (simp add: js_resend_finished_def st_then_def [of "st_modify _"] st_modify_def t_def)
next
  case False
  then show ?thesis
    using js_good_nothing(1) [of s] by (auto simp: js_resend_finished_def)
qed

lemma js_good_client_key_exchange:
  assumes "js_phase s = AwaitingClientFlight"
  shows "js_good s (js_client_key_exchange c cr m s)"
proof (cases "accepted_client_key_exchange s = Some m")
  case False
  have "js_good s (st_then (with_handshake (handle_client_key_exchange c m))
        (\<lambda>_. st_then (st_try (\<lambda>s. dtls_result (server_derive_key_material c cr (js_handshake s))))
        (\<lambda>km. st_then (st_modify (\<lambda>s. s\<lparr>js_key_material := Some km, accepted_client_key_exchange := Some m\<rparr>))
        (\<lambda>_. st_ok []))) s)"
    by (rule js.outcome_then [where G = "js_good s", OF js.frame_refl [of s] js_framed_with_handshake],
        rule js.outcome_then [where G = "js_good s", OF _ js.framed_pure(5)])
      (use assms in \<open>auto simp: st_then_def st_modify_def st_ok_def js_good_def js_frame_def js_inv_def js_progress_def
        js_established_def finalized_count_def\<close>)
  with False show ?thesis
    by (simp add: js_client_key_exchange_def)
qed (use js_good_nothing(1) [of s] in \<open>simp add: js_client_key_exchange_def\<close>)

lemma js_good_hello_verify: "js_good s (js_hello_verify cr m hello sn s)"
proof -
  obtain res where res: "js_hello_verify cr m hello sn s = (s, res)"
    by (simp add: js_hello_verify_def st_try_def)
  then have "list_all (\<lambda>e. \<exists>d. e = Transmit d False) evs" if "res = Inr evs" for evs
    using that by (auto simp: js_hello_verify_def st_try_def result_simps)
  then show ?thesis
    using res js_good_frame [OF js.frame_refl [of s]] by (cases res) simp_all
qed

lemma js_good_phase:
  assumes "js_frame s t" "js_phase s = AwaitingClientHello"
  shows "js_good s (t\<lparr>js_phase := AwaitingClientFlight\<rparr>, Inr [Transmit datagram False])"
  using assms
  by (auto simp: js_good_def js_frame_def js_inv_def js_progress_def js_established_def finalized_count_def)

lemma js_good_accept_client_hello:
  assumes "js_phase s = AwaitingClientHello"
  shows "r_outcome (js_good s) (js_accept_client_hello c cr m sn s)"
  unfolding js_accept_client_hello_def
proof (rule r_outcome_ra_then [where H = "\<lambda>out. js_frame s (fst out)"])
  show "r_outcome (\<lambda>out. js_frame s (fst out)) (ra_lift (js_start_server_flight c cr m sn) s)"
    using js.framedD [OF js_framed_handlers(3)] by simp
next
  fix t :: "'a JoinerSession" and server_hello
  assume t: "js_frame s (fst (t, Inr server_hello :: error + HandshakeMessage))"
  let ?kx = "\<lambda>s. r_then (build_server_key_exchange c cr (hm_seq m + 1) (js_handshake s))
    (\<lambda>(h, r). r_ret (s\<lparr>js_handshake := h\<rparr>, dtls_result r))"
  have kx: "r_outcome (\<lambda>out. js_frame s (fst out)) (?kx t)"
    by (rule r_outcome_then [where H = "\<lambda>_. True"]) (use t in \<open>auto simp: js_frame_def\<close>)
  have fin: "js_good s (st_then (js_end_server_flight m server_hello key_exchange)
         (\<lambda>datagram. st_then (st_modify (\<lambda>s. s\<lparr>js_phase := AwaitingClientFlight\<rparr>))
         (\<lambda>_. st_ok [Transmit datagram False])) u)" if "js_frame s u" for u key_exchange
    by (rule js.outcome_then [where G = "js_good s", OF that js_framed_handlers(4)])
      (use assms in \<open>auto simp: st_then_def st_modify_def st_ok_def intro: js_good_phase js_good_frame\<close>)
  show "r_outcome (js_good s) (ra_then ?kx
       (\<lambda>key_exchange. ra_lift (st_then (js_end_server_flight m server_hello key_exchange)
         (\<lambda>datagram. st_then (st_modify (\<lambda>s. s\<lparr>js_phase := AwaitingClientFlight\<rparr>))
         (\<lambda>_. st_ok [Transmit datagram False])))) t)"
    by (rule r_outcome_ra_then [where m = ?kx, OF kx]) (use fin in \<open>simp_all add: js_good_frame\<close>)
qed (simp add: js_good_frame)

lemma js_good_plaintext: "r_outcome (js_good s) (handle_plaintext_handshake c cr m sn s)"
  using js_good_accept_client_hello [of s c cr m sn] js_good_hello_verify [of s cr m _ sn]
    js_good_resend_server_flight [of s m] js_good_client_key_exchange [of s c cr m]
    js_good_frame(1) [OF js.frame_refl [of s]]
  by (auto simp: handle_plaintext_handshake_def split: HandshakeType.split JoinerSessionPhase.split sum.split)

text \<open>A loop keeps what every step keeps, when the outcomes of consecutive steps compose.\<close>

lemma r_outcome_each:
  assumes refl: "\<And>s. G s (s, Inr [])"
    and seq: "\<And>s t u evs res. G s (t, Inr evs) \<Longrightarrow> G t (u, res) \<Longrightarrow> G s (u, map_sum id ((@) evs) res)"
    and step: "\<And>x s. r_outcome (G s) (f x s)"
  shows "r_outcome (G s) (ra_each f xs s)"
proof (induction xs arbitrary: s)
  case Nil
  then show ?case
    using refl by (simp add: st_ok_def)
next
  case (Cons x xs)
  have rest: "r_outcome (G s) (ra_then (ra_each f xs) (\<lambda>zs. ra_lift (st_ok (ys @ zs))) t)" if "G s (t, Inr ys)" for t ys
    by (rule r_outcome_ra_then [OF Cons.IH]) (use seq [OF that] in \<open>force simp: st_ok_def\<close>)+
  then show ?case
    by (auto intro: r_outcome_ra_then [OF step])
qed

text \<open>The same relation with the application's handler beside the session.\<close>

abbreviation jh_good ::
  "'s JoinerSession \<times> 'h \<Rightarrow> ('s JoinerSession \<times> 'h) \<times> (error + JoinerSessionEvent list) \<Rightarrow> bool" where
  "jh_good s out \<equiv> js_good (fst s) (fst (fst out), snd out)"

lemma jh_good_with_session: "jh_good s (with_session m s) \<longleftrightarrow> js_good (fst s) (m (fst s))"
  by (simp add: with_session_def split: prod.split)

interpretation jh: frame "\<lambda>a b :: 's JoinerSession \<times> 'h. js_frame (fst a) (fst b)"
  by unfold_locales (auto simp: js_frame_def)

lemma jh_framed_with_session: "js.framed m \<Longrightarrow> jh.framed (with_session m)"
  by (auto simp: jh.framed_def js.framed_def with_session_def split: prod.split) (metis fst_conv)

lemma js_decide_outcome:
  assumes "js_decide hdl info (s, h) = ((t, h'), res)"
  shows "\<exists>d. res = Inr d \<and> finalize_decision t = Some d \<and> js_good s (t, Inr []) \<and> js_phase t = js_phase s"
proof (cases "finalize_decision s")
  case None
  obtain h'' d where "on_joiner_finalize hdl (js_joiner_id s) info h = (h'', d)"
    by fastforce
  with None assms have "t = s\<lparr>finalize_decision := Some d\<rparr>" "res = Inr d"
    by (simp_all add: js_decide_def)
  with None show ?thesis
    by (simp add: js_good_def js_inv_def js_progress_def js_established_def finalized_count_def)
next
  case (Some d)
  with assms show ?thesis
    using js_good_nothing(1) by (simp add: js_decide_def)
qed

lemma jh_good_decide:
  assumes "js_frame s t" "js_established s"
  shows "jh_good (s, h) (st_then (js_decide hdl info)
    (\<lambda>accepted. with_session (js_answer_finalize cr request info accepted)) (t, h'))"
proof -
  obtain u h'' res where u: "js_decide hdl info (t, h') = ((u, h''), res)"
    by (metis prod.exhaust)
  obtain d where d: "res = Inr d" "finalize_decision u = Some d" "js_good t (u, Inr [])" "js_phase u = js_phase t"
    using js_decide_outcome [OF u] by blast
  have "js_established u"
    using assms d(4) by (simp add: js_established_def js_frame_def)
  then have "js_good s (js_answer_finalize cr request info d u)"
    using js_good_answer_finalize [OF _ d(2)] js_good_after [OF d(3)] js_good_after_frame [OF assms(1)] by blast
  then show ?thesis
    using u d(1) by (auto simp: st_then_def with_session_def split: prod.split)
qed

lemma jh_good_application_data:
  fixes s :: "'s JoinerSession \<times> 'h"
  shows "jh_good s (handle_application_data cr hdl r s)"
proof (cases "js_established (fst s)")
  case True
  obtain s0 h where s: "s = (s0, h)"
    by (cases s)
  obtain t res where t: "js_open_record cr r s0 = (t, res)"
    by fastforce
  then have f: "js_frame s0 t"
    using js.framedD [OF js_framed_open_record, of s0 cr r] by simp
  have mod: "jh.framed (with_session (st_modify (\<lambda>s. s\<lparr>js_server_finished := []\<rparr>)) :: (_ JoinerSession \<times> _, error, unit) action)"
    by (intro jh_framed_with_session js.framed_modify) (simp add: js_frame_def)
  have "jh_good s (st_then (with_session (st_modify (\<lambda>s. s\<lparr>js_server_finished := []\<rparr>)))
             (\<lambda>_. st_then (st_lift (CoapMessage_decode plaintext))
             (\<lambda>request. st_then (st_lift (uri_path request))
             (\<lambda>path. if path \<noteq> Some uri_JOIN_FIN then st_ok []
                else st_then (st_lift (parse_join_fin request))
                  (\<lambda>info. st_then (js_decide hdl info)
                  (\<lambda>accepted. with_session (js_answer_finalize cr request info accepted)))))) (t, h))" for plaintext
  proof (rule jh.outcome_then [where G = "jh_good s" and ?s0.0 = s, OF _ mod])
    show "js_frame (fst s) (fst (t, h))"
      using f s by simp
    show "js_frame (fst s) (fst u) \<Longrightarrow> jh_good s (u, Inl e)" for u e
      by (simp add: js_good_frame)
    fix v :: unit and u :: "'s JoinerSession \<times> 'h"
    assume u: "js_frame (fst s) (fst u)"
    show "jh_good s (st_then (st_lift (CoapMessage_decode plaintext))
             (\<lambda>request. st_then (st_lift (uri_path request))
             (\<lambda>path. if path \<noteq> Some uri_JOIN_FIN then st_ok []
                else st_then (st_lift (parse_join_fin request))
                  (\<lambda>info. st_then (js_decide hdl info)
                  (\<lambda>accepted. with_session (js_answer_finalize cr request info accepted))))) u)"
      using True u s jh_good_decide [of s0 "fst u" h hdl _ cr _ "snd u"] js_good_frame [OF u]
      by (auto simp: st_then_def [of "st_lift _"] st_lift_def st_ok_def split: sum.split)
  qed
  then show ?thesis
    using True s t f js_good_frame(2) [OF f, of "[]"]
    by (auto simp: handle_application_data_def split: sum.split option.split)
qed (use js_good_nothing(1) [of "fst s"] in \<open>auto simp: handle_application_data_def split: prod.split\<close>)


lemma js_good_change_cipher_spec: "js_good s (s\<lparr>saw_client_change_cipher_spec := True\<rparr>, Inr [])"
  by (rule js_good_frame(2)) (simp_all add: js_frame_def)

lemma js_good_open_record:
  assumes "js_open_record cr r s = (t, res)"
  shows "js_good s (t, Inr [])" "js_good s (t, Inl e)"
  using js.framedD [OF js_framed_open_record, of s cr r] assms js_good_frame [of s t] by auto

lemma jh_good_receive_record:
  fixes s :: "'s JoinerSession \<times> 'h" and c :: "('r, 's, 'p) p256"
  shows "r_outcome (jh_good s) (receive_record c cr hdl established r s)"
proof -
  obtain s0 h where s: "s = (s0, h)"
    by (cases s)
  have loop: "r_outcome (js_good s0) (ra_each (\<lambda>m. handle_plaintext_handshake c cr m n) ms s0)" for n ms
    by (rule r_outcome_each) (use js_good_nothing(1) js_good_seq js_good_plaintext in blast)+
  have branches:
    "r_outcome (jh_good (s0, h)) (r_then (ra_each (\<lambda>m. handle_plaintext_handshake c cr m n) ms s0)
              (\<lambda>(s', res). r_ret ((s', h), res)))"
    "r_outcome (jh_good (s0, h)) (r_ret ((s0, h), Inr []))"
    "r_outcome (jh_good (s0, h)) (r_ret ((s0, h), Inl e))"
    "r_outcome (jh_good (s0, h)) (r_ret ((s0\<lparr>saw_client_change_cipher_spec := True\<rparr>, h), Inr []))"
    "r_outcome (jh_good (s0, h)) (ra_lift (with_session (handle_encrypted_handshake cr r)) (s0, h))"
    "r_outcome (jh_good (s0, h)) (ra_lift (handle_application_data cr hdl r) (s0, h))" for n ms e
  proof -
    show "r_outcome (jh_good (s0, h)) (r_then (ra_each (\<lambda>m. handle_plaintext_handshake c cr m n) ms s0)
              (\<lambda>(s', res). r_ret ((s', h), res)))"
      by (rule r_outcome_then [OF loop]) auto
  qed (use jh_good_application_data [of "(s0, h)" cr hdl r] jh_good_with_session [of "(s0, h)" "handle_encrypted_handshake cr r"] in
      \<open>simp_all add: js_good_nothing js_good_change_cipher_spec js_good_encrypted\<close>)
  have alert: "r_outcome (jh_good (s0, h)) (case js_open_record cr r s0 of
          (s', Inr (Some plaintext)) \<Rightarrow> r_ret ((s', h), Inl (f plaintext))
        | (s', _) \<Rightarrow> r_ret ((s', h), Inr []))" for f
    using js_good_open_record [of cr r s0] by (auto split: prod.split sum.split option.split)
  have split: "(P \<Longrightarrow> r_outcome G a) \<Longrightarrow> (\<not> P \<Longrightarrow> r_outcome G b) \<Longrightarrow> r_outcome G (if P then a else b)"
    "(\<And>x. r_outcome G (k x)) \<Longrightarrow> (\<And>x. r_outcome G (l x)) \<Longrightarrow> r_outcome G (case res of Inl x \<Rightarrow> k x | Inr x \<Rightarrow> l x)"
    for P and G :: "('s JoinerSession \<times> 'h) \<times> (error + JoinerSessionEvent list) \<Rightarrow> bool"
      and a b :: "('r, _) rand" and k l and res :: "dtls_error + HandshakeMessage list"
    by (auto split: sum.split)
  show ?thesis
    unfolding receive_record_def Let_def s prod.case by (intro split branches alert)
qed

lemma jh_good_receive:
  fixes s :: "'s JoinerSession \<times> 'h" and c :: "('r, 's, 'p) p256"
  shows "r_outcome (jh_good s) (JoinerSession_receive c cr hdl datagram s)"
proof -
  have seq: "jh_good s (t, Inr evs) \<Longrightarrow> jh_good t (u, res) \<Longrightarrow> jh_good s (u, map_sum id ((@) evs) res)"
    for s t u :: "'s JoinerSession \<times> 'h" and evs res
    using js_good_seq by simp
  have "r_outcome (jh_good s) (ra_then (ra_lift (with_session (js_resend_finished cr records)))
           (\<lambda>events. ra_then (ra_each (receive_record c cr hdl est) records)
           (\<lambda>more. ra_lift (st_ok (events @ more)))) s)" for est records
  proof (rule r_outcome_ra_then [where H = "jh_good s"])
    show "r_outcome (jh_good s) (ra_lift (with_session (js_resend_finished cr records)) s)"
      using js_good_resend_finished [of "fst s" cr records] jh_good_with_session [of s] by simp
  next
    fix t :: "'s JoinerSession \<times> 'h" and events
    assume t: "jh_good s (t, Inr events)"
    have "r_outcome (jh_good t) (ra_each (receive_record c cr hdl est) records t)"
      by (rule r_outcome_each) (use js_good_nothing(1) seq jh_good_receive_record in auto)
    then show "r_outcome (jh_good s) (ra_then (ra_each (receive_record c cr hdl est) records)
           (\<lambda>more. ra_lift (st_ok (events @ more))) t)"
      by (rule r_outcome_ra_then) (use seq [OF t] in \<open>force simp: st_ok_def\<close>)+
  qed auto
  then show ?thesis
    using js_good_nothing(1) [of "fst s"]
    by (auto simp: JoinerSession_receive_def Let_def split: sum.split prod.split)
qed

section \<open>Runs of a session\<close>

text \<open>
  A session as the commissioner drives it: it is created for a relayed datagram, and every further
  datagram is fed to it while it answers without an error; the first error removes it. The events are
  collected in order.
\<close>

inductive js_run ::
  "('r, 's, 'p) p256 \<Rightarrow> crypto \<Rightarrow> 'h JoinerHandler \<Rightarrow> 's JoinerSession \<times> 'h \<Rightarrow> JoinerSessionEvent list \<Rightarrow> bool"
  for c cr hdl where
  js_new: "JoinerSession_new c cr iid port locator pskd now r = Some (s, r') \<Longrightarrow> js_run c cr hdl (s, h) []"
| js_datagram: "js_run c cr hdl s evs \<Longrightarrow> JoinerSession_receive c cr hdl datagram s r = Some ((s', Inr evs'), r') \<Longrightarrow>
    js_run c cr hdl s' (evs @ evs')"

lemma js_new_state:
  assumes "JoinerSession_new c cr iid port locator pskd now r = Some (s, r')"
  shows "js_inv s" "js_phase s = AwaitingClientHello" "finalize_decision s = None"
    "js_joiner_id s = joiner_id_from_iid iid" "js_joiner_iid s = iid" "js_udp_port s = port"
    "js_router_locator s = locator" "expires_at s = now + JOINER_SESSION_TIMEOUT"
  using assms
  by (auto simp: JoinerSession_new_def r_then_def r_ret_def js_inv_def js_established_def split: option.splits prod.splits)

lemma js_receive_good:
  assumes "JoinerSession_receive c cr hdl datagram s r = Some (out, r')"
  shows "js_good (fst s) (fst (fst out), snd out)"
  using jh_good_receive [of s c cr hdl datagram] assms unfolding r_outcome_def by blast

lemma js_run_good:
  assumes "js_run c cr hdl s evs"
  shows "js_inv (fst s) \<and> (\<forall>e \<in> set evs. js_event_ok (fst s) e) \<and>
    finalized_count evs = of_bool (js_phase (fst s) = Finalized)"
  using assms
proof (induction rule: js_run.induct)
  case (js_new iid port locator pskd now r s r' h)
  then show ?case
    using js_new_state [OF js_new] by (simp add: finalized_count_def)
next
  case (js_datagram s evs datagram r s' evs' r')
  note g = js_receive_good [OF js_datagram.hyps(2), simplified]
  have "js_event_ok (fst s') e" if "e \<in> set evs" for e
    using that js_datagram.IH js_event_ok_progress g by (auto simp: js_good_def)
  with g js_datagram.IH show ?case
    by (auto simp: js_good_def finalized_count_def)
qed

lemma toy_session:
  obtains s where "JoinerSession_new toy_p256 toy_crypto iid port locator [1] now 1 = Some (s, 5)"
proof -
  obtain cl sv where "ThreadDtlsServerHandshake_new_with_rng toy_p256 toy_crypto [1] 1 = Some (sv, 5)"
    by (rule toy_handshakes)
  moreover have "fill_bytes toy_p256 32 5 = (replicate 32 5, 5)"
    by (simp add: toy_p256_def)
  ultimately show thesis
    using that by (simp add: JoinerSession_new_def DtlsCookieGenerator_new_with_rng_def r_then_def r_ret_def)
qed

text \<open>C9: In every run of a joiner session the two retransmission budgets hold at most four repetitions, the key
material is derived before the session is established, a datagram asks for the key of the joiner router
only after the application accepted the joiner in this session, the reported decision is the recorded
one, and the decision is reported exactly once, namely when the session becomes finalized.\<close>

theorem joiner_session_safe:
  assumes "js_run c cr hdl (s, h) evs"
  shows "server_flight_retransmissions s \<le> 4 \<and> server_finished_retransmissions s \<le> 4 \<and>
    (js_phase s = Connected \<or> js_phase s = Finalized \<longrightarrow> js_key_material s \<noteq> None) \<and>
    (\<forall>datagram. Transmit datagram True \<in> set evs \<longrightarrow> js_phase s = Finalized \<and> finalize_decision s = Some True) \<and>
    (\<forall>accepted info. JoinerFinalized accepted info \<in> set evs \<longrightarrow> finalize_decision s = Some accepted) \<and>
    length (filter is_finalized evs) = of_bool (js_phase s = Finalized)"
  using js_run_good [OF assms]
  by (fastforce simp: js_inv_def js_established_def finalized_count_def MAX_DUPLICATE_FLIGHT_RETRANSMISSIONS_def)

theorem joiner_session_safe_witness:
  "\<exists>s. js_run toy_p256 toy_crypto static_joiner_handler (s, StaticJoinerHandler_new) [] \<and>
    server_flight_retransmissions s \<le> 4 \<and> js_phase s \<noteq> Finalized"
proof -
  obtain s where "JoinerSession_new toy_p256 toy_crypto [2, 0, 0, 0, 0, 0, 0, 1] 1000 0x5400 [1] 0 1 = Some (s, 5)"
    by (rule toy_session)
  then have run: "js_run toy_p256 toy_crypto static_joiner_handler (s, StaticJoinerHandler_new) []"
    by (rule js_new)
  with joiner_session_safe [OF run] show ?thesis
    by (intro exI [of _ s]) simp
qed

text \<open>C21: One call leaves the identity of a session, its relay address, its cookie key and its deadline alone,
never moves it back to an earlier phase and never revises a decision of the application, whatever the
datagram holds and also when the call fails.\<close>

theorem joiner_session_monotone:
  assumes "JoinerSession_receive c cr hdl datagram (s, h) r = Some (((t, h'), res), r')"
  shows "js_joiner_id t = js_joiner_id s \<and> js_joiner_iid t = js_joiner_iid s \<and> js_udp_port t = js_udp_port s \<and>
    js_router_locator t = js_router_locator s \<and> js_cookie t = js_cookie s \<and> expires_at t = expires_at s \<and>
    phase_rank (js_phase s) \<le> phase_rank (js_phase t) \<and>
    (\<forall>d. finalize_decision s = Some d \<longrightarrow> finalize_decision t = Some d)"
  using js_receive_good [OF assms] by (auto simp: js_good_def js_progress_def)

theorem joiner_session_monotone_witness:
  "\<exists>s t h'. JoinerSession_new toy_p256 toy_crypto [2, 0, 0, 0, 0, 0, 0, 1] 1000 0x5400 [1] 0 1 = Some (s, 5) \<and>
    JoinerSession_receive toy_p256 toy_crypto static_joiner_handler [20, 0xfe, 0xfd, 0, 0, 0, 0, 0, 0, 0, 5, 0, 1, 1]
      (s, StaticJoinerHandler_new) 5 = Some (((t, h'), Ok []), 5) \<and>
    saw_client_change_cipher_spec t \<and> expires_at t = expires_at s"
proof -
  let ?r = "\<lparr>rec_header = \<lparr>content_type = ChangeCipherSpec, rec_version = 0xfefd, epoch = 0, sequence_number = 5,
    rec_length = 1\<rparr>, rec_payload = [1]\<rparr>"
  obtain s where s: "JoinerSession_new toy_p256 toy_crypto [2, 0, 0, 0, 0, 0, 0, 1] 1000 0x5400 [1] 0 1 = Some (s, 5)"
    by (rule toy_session)
  have "encode_datagram [?r] = Ok [20, 0xfe, 0xfd, 0, 0, 0, 0, 0, 0, 0, 5, 0, 1, 1]"
    by (simp add: DtlsRecord_encode_def RecordHeader_encode_def to_be_unfold to_be_6)
  then have "parse_datagram [20, 0xfe, 0xfd, 0, 0, 0, 0, 0, 0, 0, 5, 0, 1, 1] = Ok [?r]"
    by (simp add: dtls_record.codec_bij)
  then have r: "JoinerSession_receive toy_p256 toy_crypto static_joiner_handler
      [20, 0xfe, 0xfd, 0, 0, 0, 0, 0, 0, 0, 5, 0, 1, 1] (s, StaticJoinerHandler_new) 5 =
      Some (((s\<lparr>saw_client_change_cipher_spec := True\<rparr>, StaticJoinerHandler_new), Ok []), 5)"
    by (simp add: JoinerSession_receive_def Let_def js_resend_finished_def is_client_finished_flight_def with_session_def
        ra_lift_def ra_then_def receive_record_def r_ret_def st_ok_def)
  have e: "expires_at (s\<lparr>saw_client_change_cipher_spec := True\<rparr>) = expires_at s"
    using joiner_session_monotone [OF r] by blast
  show ?thesis
    by (intro exI conjI, rule s, rule r) (simp, rule e)
qed

text \<open>C37: A plaintext record of type ChangeCipherSpec whose body is not the single byte 1 makes the session fail in
every phase, also after the handshake, although nothing authenticates the record.\<close>

theorem forged_change_cipher_spec_fails:
  assumes "parse_datagram datagram = Ok [\<lparr>rec_header = hdr, rec_payload = body\<rparr>]"
    "epoch hdr = 0" "content_type hdr = ChangeCipherSpec" "body \<noteq> [1]"
  shows "JoinerSession_receive c cr hdl datagram (s, h) r =
    Some (((s, h), Err (error.Crypto ''invalid ChangeCipherSpec payload'')), r)"
proof -
  have "\<not> is_client_finished_flight [\<lparr>rec_header = hdr, rec_payload = body\<rparr>]"
    using assms(2,3) by (simp add: is_client_finished_flight_def)
  then show ?thesis
    using assms
    by (simp add: JoinerSession_receive_def Let_def js_resend_finished_def with_session_def ra_lift_def ra_then_def
        receive_record_def r_ret_def)
qed

theorem forged_change_cipher_spec_fails_witness:
  "\<exists>s. js_phase s = Connected \<and>
     JoinerSession_receive toy_p256 toy_crypto static_joiner_handler
       [20, 0xfe, 0xfd, 0, 0, 0, 0, 0, 0, 0, 5, 0, 1, 0] (s, StaticJoinerHandler_new) 0 =
     Some (((s, StaticJoinerHandler_new), Err (error.Crypto ''invalid ChangeCipherSpec payload'')), 0)"
proof -
  let ?hdr = "\<lparr>content_type = ChangeCipherSpec, rec_version = 0xfefd, epoch = 0, sequence_number = 5, rec_length = 1\<rparr>"
  let ?r = "\<lparr>rec_header = ?hdr, rec_payload = [0]\<rparr>"
  have "encode_datagram [?r] = Ok [20, 0xfe, 0xfd, 0, 0, 0, 0, 0, 0, 0, 5, 0, 1, 0]"
    by (simp add: DtlsRecord_encode_def RecordHeader_encode_def to_be_unfold to_be_6)
  then have parse: "parse_datagram [20, 0xfe, 0xfd, 0, 0, 0, 0, 0, 0, 0, 5, 0, 1, 0] = Ok [?r]"
    by (simp add: dtls_record.codec_bij)
  obtain s where "JoinerSession_new toy_p256 toy_crypto [2, 0, 0, 0, 0, 0, 0, 1] 1000 0x5400 [1] 0 1 = Some (s, 5)"
    by (rule toy_session)
  have "JoinerSession_receive toy_p256 toy_crypto static_joiner_handler [20, 0xfe, 0xfd, 0, 0, 0, 0, 0, 0, 0, 5, 0, 1, 0]
      (s\<lparr>js_phase := Connected\<rparr>, StaticJoinerHandler_new) 0 =
    Some (((s\<lparr>js_phase := Connected\<rparr>, StaticJoinerHandler_new), Err (error.Crypto ''invalid ChangeCipherSpec payload'')), 0)"
    by (rule forged_change_cipher_spec_fails [OF parse]) simp_all
  then show ?thesis
    by (intro exI [of _ "s\<lparr>js_phase := Connected\<rparr>"]) simp
qed

end
