(* ===== verification/Config.thy ===== *)
theory Config
  imports Messages Pskc
begin

text \<open>
  The configuration of a commissioner (\<^verbatim>\<open>commissioner/config.rs\<close>) with its builder, the public types of a
  session (\<^verbatim>\<open>commissioner/types.rs\<close>) and the helpers its client shares (\<^verbatim>\<open>commissioner/client/mod.rs\<close>).
  Durations are numbers of nanoseconds.
\<close>

abbreviation secs :: "nat \<Rightarrow> nat" where
  "secs n \<equiv> n * 1000000000"

section \<open>Configuration\<close>

definition MIN_KEEPALIVE_INTERVAL :: nat where [const_defs]: "MIN_KEEPALIVE_INTERVAL = secs 30"
definition MAX_KEEPALIVE_INTERVAL :: nat where [const_defs]: "MAX_KEEPALIVE_INTERVAL = secs 45"
definition DEFAULT_KEEPALIVE_INTERVAL :: nat where [const_defs]: "DEFAULT_KEEPALIVE_INTERVAL = secs 40"
definition DEFAULT_DOMAIN_NAME :: bytes where [const_defs]: "DEFAULT_DOMAIN_NAME = str ''Thread''"
definition DEFAULT_EVENT_CAPACITY :: nat where [const_defs]: "DEFAULT_EVENT_CAPACITY = 64"

datatype KeepAliveMode = Automatic | Manual

record CommissionerConfig =
  commissioner_id :: bytes
  cfg_pskc :: Pskc
  keepalive_interval :: nat
  keep_alive :: KeepAliveMode
  event_capacity :: nat
  domain_name :: bytes
  enable_ccm :: bool

definition CommissionerConfig_pskc :: "bytes \<Rightarrow> Pskc \<Rightarrow> CommissionerConfig" where
  "CommissionerConfig_pskc i p =
     \<lparr>commissioner_id = i, cfg_pskc = p, keepalive_interval = DEFAULT_KEEPALIVE_INTERVAL,
      keep_alive = Automatic, event_capacity = DEFAULT_EVENT_CAPACITY, domain_name = DEFAULT_DOMAIN_NAME,
      enable_ccm = False\<rparr>"

definition CommissionerConfig_from_dataset :: "bytes \<Rightarrow> Dataset \<Rightarrow> error + CommissionerConfig" where
  "CommissionerConfig_from_dataset i d =
     and_then (pskc_from_active_dataset d) (\<lambda>p. Ok (CommissionerConfig_pskc i p))"

definition CommissionerConfig_validate :: "CommissionerConfig \<Rightarrow> error + unit" where
  "CommissionerConfig_validate c =
     (if \<not> (MIN_KEEPALIVE_INTERVAL \<le> keepalive_interval c \<and> keepalive_interval c \<le> MAX_KEEPALIVE_INTERVAL) then
        Err (Configuration ''keepalive interval must be between 30 and 45 seconds'')
      else if event_capacity c = 0 then Err (Configuration ''event capacity must be non-zero'')
      else Ok ())"

record CommissionerConfigBuilder =
  b_commissioner_id :: bytes
  b_pskc :: "Pskc option"
  b_keepalive_interval :: nat
  b_keep_alive :: KeepAliveMode
  b_event_capacity :: nat
  b_domain_name :: bytes
  b_enable_ccm :: bool

definition CommissionerConfigBuilder_new :: "bytes \<Rightarrow> CommissionerConfigBuilder" where
  "CommissionerConfigBuilder_new i =
     \<lparr>b_commissioner_id = i, b_pskc = None, b_keepalive_interval = DEFAULT_KEEPALIVE_INTERVAL,
      b_keep_alive = Automatic, b_event_capacity = DEFAULT_EVENT_CAPACITY, b_domain_name = DEFAULT_DOMAIN_NAME,
      b_enable_ccm = False\<rparr>"

definition builder_pskc :: "Pskc \<Rightarrow> CommissionerConfigBuilder \<Rightarrow> CommissionerConfigBuilder" where
  "builder_pskc p b = b\<lparr>b_pskc := Some p\<rparr>"

definition builder_from_dataset :: "Dataset \<Rightarrow> CommissionerConfigBuilder \<Rightarrow> error + CommissionerConfigBuilder" where
  "builder_from_dataset d b = and_then (pskc_from_active_dataset d) (\<lambda>p. Ok (b\<lparr>b_pskc := Some p\<rparr>))"

definition builder_keepalive_interval :: "nat \<Rightarrow> CommissionerConfigBuilder \<Rightarrow> CommissionerConfigBuilder" where
  "builder_keepalive_interval i b = b\<lparr>b_keepalive_interval := i\<rparr>"

definition builder_keep_alive :: "KeepAliveMode \<Rightarrow> CommissionerConfigBuilder \<Rightarrow> CommissionerConfigBuilder" where
  "builder_keep_alive k b = b\<lparr>b_keep_alive := k\<rparr>"

definition builder_event_capacity :: "nat \<Rightarrow> CommissionerConfigBuilder \<Rightarrow> CommissionerConfigBuilder" where
  "builder_event_capacity n b = b\<lparr>b_event_capacity := n\<rparr>"

definition builder_domain_name :: "bytes \<Rightarrow> CommissionerConfigBuilder \<Rightarrow> CommissionerConfigBuilder" where
  "builder_domain_name d b = b\<lparr>b_domain_name := d\<rparr>"

definition builder_enable_ccm :: "bool \<Rightarrow> CommissionerConfigBuilder \<Rightarrow> CommissionerConfigBuilder" where
  "builder_enable_ccm e b = b\<lparr>b_enable_ccm := e\<rparr>"

definition builder_build :: "CommissionerConfigBuilder \<Rightarrow> error + CommissionerConfig" where
  "builder_build b =
     and_then (ok_or (b_pskc b) (Configuration ''a PSKc is required''))
       (\<lambda>p. let c = \<lparr>commissioner_id = b_commissioner_id b, cfg_pskc = p,
                keepalive_interval = b_keepalive_interval b, keep_alive = b_keep_alive b,
                event_capacity = b_event_capacity b, domain_name = b_domain_name b, enable_ccm = b_enable_ccm b\<rparr>
            in and_then (CommissionerConfig_validate c) (\<lambda>_. Ok c))"

section \<open>Public types\<close>

datatype SessionStatus = Connected | Idle | Petitioning | Active u16 | Closed close_reason

fun SessionStatus_session_id :: "SessionStatus \<Rightarrow> u16 option" where
  "SessionStatus_session_id (Active i) = Some i"
| "SessionStatus_session_id _ = None"

definition SessionStatus_is_active :: "SessionStatus \<Rightarrow> bool" where
  "SessionStatus_is_active st \<longleftrightarrow> (case st of Active _ \<Rightarrow> True | _ \<Rightarrow> False)"

datatype Destination = BorderAgent | Mesh (mesh_address: Ipv6Addr) (mesh_port: u16)

datatype ResultCode = ResultAccept | ResultReject | ResultPending

record PetitionResponse =
  pr_session_id :: u16
  pr_existing_commissioner_id :: "bytes option"

section \<open>Helpers of the client\<close>

definition aloc_address :: "bytes \<Rightarrow> u16 \<Rightarrow> Ipv6Addr" where
  "aloc_address mesh_local_prefix aloc16 =
     from_be (mesh_local_prefix @ [0x00, 0x00, 0x00, 0xff, 0xfe, 0x00] @ to_be 2 aloc16)"

fun require_dataset_tlvs :: "Dataset \<Rightarrow> (u8 \<times> string) list \<Rightarrow> error + unit" where
  "require_dataset_tlvs d [] = Ok ()"
| "require_dataset_tlvs d ((t, name) # required) =
     (if Dataset_raw d t = None then Err (Dataset (name @ '' TLV is mandatory''))
      else require_dataset_tlvs d required)"

definition strip_managed_commissioner_tlvs :: "Dataset \<Rightarrow> Dataset" where
  "strip_managed_commissioner_tlvs d =
     Dataset_remove_all TLV_BORDER_AGENT_LOCATOR (Dataset_remove_all TLV_COMMISSIONER_SESSION_ID d)"

definition check_state_response :: "CoapMessage \<Rightarrow> bool \<Rightarrow> error + unit" where
  "check_state_response response state_mandatory =
     and_then (parse_state_response response state_mandatory)
       (\<lambda>state. case state of
          None \<Rightarrow> Ok ()
        | Some Accept \<Rightarrow> Ok ()
        | Some Pending \<Rightarrow> Err (InvalidState ''MeshCoP response is pending'')
        | Some Reject \<Rightarrow> Err (InvalidState ''MeshCoP request was rejected''))"

definition require_success_response :: "CoapMessage \<Rightarrow> error + CoapMessage" where
  "require_success_response response =
     (let cl = drop_bit 5 (coap_code response) in
      if cl = 4 \<or> cl = 5 then Err (InvalidState ''MeshCoP exchange returned a CoAP error response'')
      else Ok response)"

definition COAP_EXCHANGE_TIMEOUT :: nat where [const_defs]: "COAP_EXCHANGE_TIMEOUT = secs 12"
definition SESSION_REPLACEMENT_MARGIN :: nat where [const_defs]: "SESSION_REPLACEMENT_MARGIN = secs 3"
definition DTLS_HANDSHAKE_TIMEOUT :: nat where
  "DTLS_HANDSHAKE_TIMEOUT =
     secs (MIN_KEEPALIVE_INTERVAL div secs 1 - COAP_EXCHANGE_TIMEOUT div secs 1 - SESSION_REPLACEMENT_MARGIN div secs 1)"

fun result_code_from_meshcop_state :: "MeshcopState \<Rightarrow> ResultCode" where
  "result_code_from_meshcop_state Accept = ResultAccept"
| "result_code_from_meshcop_state Pending = ResultPending"
| "result_code_from_meshcop_state Reject = ResultReject"

section \<open>Built configurations are valid\<close>

lemma builder_build_iff:
  "builder_build b = Ok c \<longleftrightarrow>
     (\<exists>p. b_pskc b = Some p \<and> CommissionerConfig_validate c = Ok () \<and>
        c = \<lparr>commissioner_id = b_commissioner_id b, cfg_pskc = p, keepalive_interval = b_keepalive_interval b,
             keep_alive = b_keep_alive b, event_capacity = b_event_capacity b, domain_name = b_domain_name b,
             enable_ccm = b_enable_ccm b\<rparr>)"
  by (cases "b_pskc b") (auto simp: builder_build_def Let_def and_then_def split: sum.splits)

lemma pskc_config_valid: "CommissionerConfig_validate (CommissionerConfig_pskc i p) = Ok ()"
  by (simp add: CommissionerConfig_validate_def CommissionerConfig_pskc_def const_defs)

lemma handshake_and_petition_fit:
  "DTLS_HANDSHAKE_TIMEOUT + COAP_EXCHANGE_TIMEOUT + SESSION_REPLACEMENT_MARGIN \<le> MIN_KEEPALIVE_INTERVAL"
  by (simp add: DTLS_HANDSHAKE_TIMEOUT_def const_defs)

end
