(* ===== verification/Duplicates.thy ===== *)
theory Duplicates
  imports Config
begin

text \<open>
  The memory of answered confirmable messages (\<^verbatim>\<open>commissioner/client/driver/duplicates.rs\<close>). A method that
  reads the clock takes the reading as its first argument.
\<close>

definition EXCHANGE_LIFETIME :: nat where [const_defs]: "EXCHANGE_LIFETIME = secs 247"
definition MAX_REMEMBERED :: nat where [const_defs]: "MAX_REMEMBERED = 64"

record Answered =
  an_origin :: Destination
  an_message_id :: u16
  an_reply :: CoapMessage
  an_at :: nat

type_synonym AnsweredMessages = "Answered list"

definition forget_expired :: "nat \<Rightarrow> AnsweredMessages \<Rightarrow> AnsweredMessages" where
  "forget_expired now es = dropWhile (\<lambda>e. now - an_at e \<ge> EXCHANGE_LIFETIME) es"

definition reply_to :: "nat \<Rightarrow> Destination \<Rightarrow> u16 \<Rightarrow> AnsweredMessages \<Rightarrow> AnsweredMessages \<times> CoapMessage option" where
  "reply_to now origin mid es =
     (let es = forget_expired now es in
      (es, map_option an_reply (find (\<lambda>e. an_origin e = origin \<and> an_message_id e = mid) es)))"

definition remember :: "nat \<Rightarrow> Destination \<Rightarrow> u16 \<Rightarrow> CoapMessage \<Rightarrow> AnsweredMessages \<Rightarrow> AnsweredMessages" where
  "remember now origin mid reply es =
     (let es = forget_expired now es;
          es = (if length es = MAX_REMEMBERED then tl es else es)
      in es @ [\<lparr>an_origin = origin, an_message_id = mid, an_reply = reply, an_at = now\<rparr>])"

definition forget_border_agent :: "AnsweredMessages \<Rightarrow> AnsweredMessages" where
  "forget_border_agent es = filter (\<lambda>e. an_origin e \<noteq> BorderAgent) es"

section \<open>What is remembered\<close>

lemma length_forget_expired: "length (forget_expired now es) \<le> length es"
  by (simp add: forget_expired_def length_dropWhile_le)

lemma answered_bounded:
  assumes "length es \<le> MAX_REMEMBERED"
  shows "length (fst (reply_to now origin mid es)) \<le> MAX_REMEMBERED"
    "length (forget_border_agent es) \<le> MAX_REMEMBERED"
    "length (remember now origin mid r es) \<le> MAX_REMEMBERED"
  using assms length_forget_expired [of now es]
  by (auto simp: reply_to_def forget_border_agent_def remember_def Let_def MAX_REMEMBERED_def
      intro: le_trans [OF length_filter_le])

text \<open>An entry is remembered as long as it is neither expired nor pushed out by newer ones.\<close>

definition remembers :: "Answered \<Rightarrow> nat \<Rightarrow> AnsweredMessages \<Rightarrow> bool" where
  "remembers e k es \<longleftrightarrow>
     (\<exists>A B. es = A @ e # B \<and> length B \<le> k \<and> (\<forall>a \<in> set A. an_at a \<le> an_at e) \<and>
        (\<forall>a \<in> set A \<union> set B. \<not> (an_origin a = an_origin e \<and> an_message_id a = an_message_id e)))"

lemma forget_expired_append:
  "now - an_at e < EXCHANGE_LIFETIME \<Longrightarrow> forget_expired now (A @ e # B) = forget_expired now A @ e # B"
  unfolding forget_expired_def by (induction A) auto

lemma set_forget_expired: "a \<in> set (forget_expired now es) \<Longrightarrow> a \<in> set es"
  unfolding forget_expired_def by (rule set_dropWhileD)

lemma remembers_remember:
  assumes "remembers e k es" "Suc k < MAX_REMEMBERED" "n - an_at e < EXCHANGE_LIFETIME"
    "\<not> (origin = an_origin e \<and> mid = an_message_id e)"
  shows "remembers e (Suc k) (remember n origin mid r es)"
proof -
  obtain A B where es: "es = A @ e # B" "length B \<le> k" "\<forall>a \<in> set A. an_at a \<le> an_at e"
    "\<forall>a \<in> set A \<union> set B. \<not> (an_origin a = an_origin e \<and> an_message_id a = an_message_id e)"
    using assms(1) unfolding remembers_def by blast
  let ?A = "forget_expired n A" and ?x = "\<lparr>an_origin = origin, an_message_id = mid, an_reply = r, an_at = n\<rparr>"
  have A: "set ?A \<subseteq> set A"
    using set_forget_expired by blast
  show ?thesis
  proof (cases "length (?A @ e # B) = MAX_REMEMBERED")
    case True
    then have ne: "?A \<noteq> []"
      using es(2) assms(2) by auto
    then have "remember n origin mid r es = tl ?A @ e # (B @ [?x])"
      using True by (simp add: remember_def es(1) forget_expired_append [OF assms(3)] Let_def)
    moreover have "set (tl ?A) \<subseteq> set A"
      using A ne by (cases ?A) auto
    ultimately show ?thesis
      using es(2-4) assms(4) unfolding remembers_def
      by (intro exI [of _ "tl ?A"] exI [of _ "B @ [?x]"]) auto
  next
    case False
    then have "remember n origin mid r es = ?A @ e # (B @ [?x])"
      by (simp add: remember_def es(1) forget_expired_append [OF assms(3)] Let_def)
    with A es(2-4) assms(4) show ?thesis
      unfolding remembers_def by (intro exI [of _ ?A] exI [of _ "B @ [?x]"]) auto
  qed
qed

lemma remembers_reply:
  assumes "remembers e k es"
  shows "snd (reply_to t (an_origin e) (an_message_id e) es) =
    (if t - an_at e < EXCHANGE_LIFETIME then Some (an_reply e) else None)"
proof -
  let ?P = "\<lambda>x. an_origin x = an_origin e \<and> an_message_id x = an_message_id e"
  obtain A B where es: "es = A @ e # B" "\<forall>a \<in> set A. an_at a \<le> an_at e" "\<forall>a \<in> set A \<union> set B. \<not> ?P a"
    using assms unfolding remembers_def by blast
  show ?thesis
  proof (cases "t - an_at e < EXCHANGE_LIFETIME")
    case True
    have "find ?P (xs @ e # B) = Some e" if "\<forall>a \<in> set xs. \<not> ?P a" for xs
      using that by (induction xs) auto
    then have "find ?P (forget_expired t A @ e # B) = Some e"
      using es(3) set_forget_expired by blast
    with True show ?thesis
      by (simp add: reply_to_def es(1) forget_expired_append Let_def)
  next
    case False
    have "forget_expired t (xs @ e # B) = forget_expired t B" if "\<forall>a \<in> set xs. an_at a \<le> an_at e" for xs
      using that False unfolding forget_expired_def by (induction xs) auto
    moreover have "find ?P (forget_expired t B) = None"
      using es(3) set_forget_expired by (fastforce simp: find_None_iff)
    ultimately show ?thesis
      using False es(2) by (simp add: reply_to_def es(1) Let_def)
  qed
qed

lemma remembers_fold:
  assumes "remembers e k es" "length later + k < MAX_REMEMBERED"
    "\<forall>(n, og, m, r) \<in> set later. n - an_at e < EXCHANGE_LIFETIME \<and> (og, m) \<noteq> (an_origin e, an_message_id e)"
  shows "remembers e (length later + k) (fold (\<lambda>(n, og, m, r). remember n og m r) later es)"
  using assms
proof (induction later arbitrary: k es)
  case (Cons x later)
  obtain n og m r where x: "x = (n, og, m, r)"
    by (cases x) auto
  have "remembers e (Suc k) (remember n og m r es)"
    using Cons.prems x by (intro remembers_remember) auto
  then show ?case
    using Cons.IH [of "Suc k"] Cons.prems x by simp
qed simp

text \<open>A retransmitted confirmable message is recognized for as long as its sender may repeat it: the reply
given to it is found again at every time before 247 seconds have passed, as long as fewer than 64 other
messages were answered meanwhile, and it is found for this sender and message identifier only. After
that time it is forgotten.\<close>

theorem answered_again:
  assumes past: "\<forall>e \<in> set es. an_at e \<le> now"
    and new: "\<forall>e \<in> set es. \<not> (an_origin e = origin \<and> an_message_id e = mid)"
    and later: "length later < 64"
      "\<forall>(n, og, m, r) \<in> set later. n - now < secs 247 \<and> (og, m) \<noteq> (origin, mid)"
  shows "snd (reply_to t origin mid (fold (\<lambda>(n, og, m, r). remember n og m r) later (remember now origin mid reply es))) =
    (if t - now < secs 247 then Some reply else None)"
proof -
  let ?e = "\<lparr>an_origin = origin, an_message_id = mid, an_reply = reply, an_at = now\<rparr>"
  let ?es = "forget_expired now es"
  have "remembers ?e 0 (remember now origin mid reply es)"
    unfolding remembers_def remember_def Let_def
    by (rule exI [of _ "if length ?es = MAX_REMEMBERED then tl ?es else ?es"], rule exI [of _ "[]"])
      (use past new set_forget_expired in \<open>auto dest!: list.set_sel(2) [rotated] simp: MAX_REMEMBERED_def\<close>)
  then have "remembers ?e (length later + 0) (fold (\<lambda>(n, og, m, r). remember n og m r) later (remember now origin mid reply es))"
    by (rule remembers_fold) (use later in \<open>auto simp: const_defs\<close>)
  from remembers_reply [OF this, of t] show ?thesis
    by (simp add: EXCHANGE_LIFETIME_def)
qed

theorem answered_again_witness:
  "snd (reply_to 5 BorderAgent 7 (remember 3 BorderAgent 8 (empty_ack 8) (remember 2 BorderAgent 7 (empty_ack 7) []))) =
     Some (empty_ack 7)"
  using answered_again [of "[]" 2 BorderAgent 7 "[(3, BorderAgent, 8, empty_ack 8)]" 5 "empty_ack 7"] by simp

end
