(* ===== verification/Effects.thy ===== *)
theory Effects
  imports P256 "HOL-Library.Multiset"
begin

text \<open>
  Computations on a state that may fail to return: \<open>('s, 'a) rand\<close> of \<open>P256\<close> read with a program state
  in place of the generator. The theory adds reading and changing the state, early return of an error,
  and a weakest precondition in two strengths: \<open>wp L m Q s\<close> says that a result of \<open>m\<close> started in \<open>s\<close>
  satisfies \<open>Q\<close>, and that there is a result when \<open>L\<close> holds. A proof with \<open>L\<close> left open is one of
  partial correctness and, under the assumption \<open>L\<close>, one of termination.
\<close>

named_theorems wp_simps \<open>weakest preconditions of the primitives\<close>

definition r_get :: "('s \<Rightarrow> 'a) \<Rightarrow> ('s, 'a) rand" where
  "r_get f s = Some (f s, s)"

definition r_modify :: "('s \<Rightarrow> 's) \<Rightarrow> ('s, unit) rand" where
  "r_modify f s = Some ((), f s)"

text \<open>The \<open>?\<close> operator on a result.\<close>

definition r_try :: "('s, 'e + 'a) rand \<Rightarrow> ('a \<Rightarrow> ('s, 'e + 'b) rand) \<Rightarrow> ('s, 'e + 'b) rand" where
  "r_try m f = r_then m (\<lambda>res. case res of Inl e \<Rightarrow> r_ret (Inl e) | Inr v \<Rightarrow> f v)"

definition wp :: "bool \<Rightarrow> ('s, 'a) rand \<Rightarrow> ('a \<Rightarrow> 's \<Rightarrow> bool) \<Rightarrow> 's \<Rightarrow> bool" where
  "wp L m Q s = (case m s of None \<Rightarrow> \<not> L | Some (x, t) \<Rightarrow> Q x t)"

lemma wp_ret [wp_simps]: "wp L (r_ret x) Q = Q x"
  by (simp add: wp_def r_ret_def fun_eq_iff)

lemma wp_then [wp_simps]: "wp L (r_then m f) Q = wp L m (\<lambda>x. wp L (f x) Q)"
  by (simp add: wp_def r_then_def fun_eq_iff split: option.split)

lemma wp_get [wp_simps]: "wp L (r_get f) Q = (\<lambda>s. Q (f s) s)"
  by (simp add: wp_def r_get_def fun_eq_iff)

lemma wp_modify [wp_simps]: "wp L (r_modify f) Q = (\<lambda>s. Q () (f s))"
  by (simp add: wp_def r_modify_def fun_eq_iff)

lemma wp_try [wp_simps]:
  "wp L (r_try m f) Q = wp L m (\<lambda>res. case res of Inl e \<Rightarrow> Q (Inl e) | Inr v \<Rightarrow> wp L (f v) Q)"
  unfolding r_try_def wp_then
  by (intro arg_cong [where f = "wp L m"] ext) (simp add: wp_ret split: sum.split)

lemma wp_cong_state: "wp L (\<lambda>s. m s s) Q s \<longleftrightarrow> wp L (m s) Q s"
  by (simp add: wp_def)

lemma wp_mono: "wp L m R s \<Longrightarrow> (\<And>x t. R x t \<Longrightarrow> Q x t) \<Longrightarrow> wp L m Q s"
  by (auto simp: wp_def split: option.splits)

lemma wp_conj: "wp L m (\<lambda>x t. Q x t \<and> R x t) s \<longleftrightarrow> wp L m Q s \<and> wp L m R s"
  by (auto simp: wp_def split: option.split)

lemma wp_if: "(b \<Longrightarrow> wp L m Q s) \<Longrightarrow> (\<not> b \<Longrightarrow> wp L m' Q s) \<Longrightarrow> wp L (if b then m else m') Q s"
  by simp

lemma wpD: "wp L m Q s \<Longrightarrow> m s = Some (x, t) \<Longrightarrow> Q x t"
  by (simp add: wp_def)

lemma wp_total: "wp True m Q s \<Longrightarrow> \<exists>x t. m s = Some (x, t) \<and> Q x t"
  by (auto simp: wp_def split: option.splits)

section \<open>Removing by position\<close>

definition remove_at :: "nat \<Rightarrow> 'a list \<Rightarrow> 'a list" where
  "remove_at i xs = take i xs @ drop (Suc i) xs"

lemma remove_at_split: "i < length xs \<Longrightarrow> xs = take i xs @ xs ! i # drop (Suc i) xs"
  by (rule id_take_nth_drop)

lemma mset_remove_at: "i < length xs \<Longrightarrow> mset xs = add_mset (xs ! i) (mset (remove_at i xs))"
  by (subst remove_at_split, assumption) (simp only: mset_append mset.simps remove_at_def, simp)

lemma mset_map_remove_at: "i < length xs \<Longrightarrow> mset (map f xs) = add_mset (f (xs ! i)) (mset (map f (remove_at i xs)))"
  by (simp add: mset_remove_at)

lemma length_remove_at: "i < length xs \<Longrightarrow> length (remove_at i xs) = length xs - 1"
  by (simp add: remove_at_def)

lemma set_remove_at: "set (remove_at i xs) \<subseteq> set xs"
  by (auto simp: remove_at_def dest: in_set_takeD in_set_dropD)

lemma distinct_remove_at: "distinct (map f xs) \<Longrightarrow> distinct (map f (remove_at i xs))"
proof (cases "i < length xs")
  case True
  assume "distinct (map f xs)"
  then have "distinct (map f (take i xs @ xs ! i # drop (Suc i) xs))"
    using remove_at_split [OF True] by simp
  then show ?thesis
    by (auto simp: remove_at_def)
qed (simp add: remove_at_def)

text \<open>\<open>Iterator::position\<close>.\<close>

fun position :: "('a \<Rightarrow> bool) \<Rightarrow> 'a list \<Rightarrow> nat option" where
  "position P [] = None"
| "position P (x # xs) = (if P x then Some 0 else map_option Suc (position P xs))"

lemma position_SomeD: "position P xs = Some i \<Longrightarrow> i < length xs \<and> P (xs ! i)"
  by (induction xs arbitrary: i) (auto split: if_splits)

lemma position_NoneD: "position P xs = None \<Longrightarrow> x \<in> set xs \<Longrightarrow> \<not> P x"
  by (induction xs) (auto split: if_splits)

end
