(* ===== verification/Driver.thy ===== *)
theory Driver
  imports Joiner Duplicates Effects
begin

text \<open>
  The session driver of the commissioner (\<^verbatim>\<open>commissioner/client/driver/\<close>): the task that owns the connection
  to the border agent and handles commands of the handles, received datagrams and timers. \<open>exchange.rs\<close>
  tracks outstanding requests, \<open>incoming.rs\<close> routes what arrives, \<open>relay.rs\<close> drives joiner sessions,
  \<open>link.rs\<close> is the DTLS session and \<open>mod.rs\<close> the loop.

  A method is a computation on the driver's state. The platform (clock, random numbers, sending on the
  DTLS session, a new handshake) is a record of functions. A reply channel of a handle is a number, and
  the driver's answers and published events are collected in order. The methods that complete, start,
  fail and queue exchanges call each other; they take fuel, which \<open>driver_fuel\<close> supplies from the length
  of the queue. A computation without a result either draws tokens forever or has no fuel; the theory
  \<open>Driver_Safety\<close> shows that the fuel is always enough.
\<close>

section \<open>State\<close>

datatype CommissionerEvent =
    SessionLost close_reason
  | Lagged u64
  | KeepAliveResponse ResultCode
  | DatasetChanged
  | PanIdConflict string u32 u16
  | EnergyReport string u32 bytes
  | JoinerMessage bytes u16 bytes
  | DiagnosticAnswer string NetDiagData
  | JoinerConnected bytes
  | JoinerFinalized bytes bool JoinerFinalizeInfo

datatype Reply =
    ExchangeReply "error + CoapMessage option"
  | PetitionReply "error + PetitionResponse"
  | KeepAliveReply "error + ResultCode"
  | ResignReply "error + unit"

definition COAP_ACK_TIMEOUT :: nat where [const_defs]: "COAP_ACK_TIMEOUT = secs 2"
definition COAP_ACK_RANDOM_WINDOW_MILLIS :: nat where [const_defs]: "COAP_ACK_RANDOM_WINDOW_MILLIS = 1000"
definition COAP_MAX_RETRANSMIT :: u8 where [const_defs]: "COAP_MAX_RETRANSMIT = 2"
definition MAX_APPLICATION_IN_FLIGHT :: nat where [const_defs]: "MAX_APPLICATION_IN_FLIGHT = 1"
definition TOKEN_LENGTH :: nat where [const_defs]: "TOKEN_LENGTH = 4"
definition COAP_RESET_ERROR :: string where "COAP_RESET_ERROR = ''CoAP request was reset by the peer''"
definition RESIGNING :: string where "RESIGNING = ''commissioner is resigning''"

record CoapRetransmitSchedule =
  rs_timeout :: nat
  retransmissions :: u8

definition CoapRetransmitSchedule_new :: "nat \<Rightarrow> CoapRetransmitSchedule" where
  "CoapRetransmitSchedule_new t = \<lparr>rs_timeout = t, retransmissions = 0\<rparr>"

definition CoapRetransmitSchedule_randomized :: "u32 \<Rightarrow> CoapRetransmitSchedule" where
  "CoapRetransmitSchedule_randomized random =
     CoapRetransmitSchedule_new
       (COAP_ACK_TIMEOUT + unat random mod (COAP_ACK_RANDOM_WINDOW_MILLIS + 1) * 1000000)"

definition CoapRetransmitSchedule_timeout :: "CoapRetransmitSchedule \<Rightarrow> nat option" where
  "CoapRetransmitSchedule_timeout s =
     (if retransmissions s < COAP_MAX_RETRANSMIT then Some (rs_timeout s) else None)"

definition record_retransmission :: "CoapRetransmitSchedule \<Rightarrow> CoapRetransmitSchedule" where
  "record_retransmission s =
     s\<lparr>retransmissions := (if retransmissions s = 255 then 255 else retransmissions s + 1),
       rs_timeout := 2 * rs_timeout s\<rparr>"

record Outbound =
  out_message :: CoapMessage
  out_destination :: Destination
  expect_response :: bool
  out_label :: string

datatype Completion =
    Caller u64 nat
  | Petition nat
  | KeepAlive "nat option"
  | Resign "nat option"

fun is_application :: "Completion \<Rightarrow> bool" where
  "is_application (Caller _ _) = True"
| "is_application _ = False"

fun is_caller :: "u64 \<Rightarrow> Completion \<Rightarrow> bool" where
  "is_caller i (Caller j _) \<longleftrightarrow> i = j"
| "is_caller i _ = False"

fun is_petition :: "Completion \<Rightarrow> bool" where
  "is_petition (Petition _) = True"
| "is_petition _ = False"

fun is_keep_alive :: "Completion \<Rightarrow> bool" where
  "is_keep_alive (KeepAlive _) = True"
| "is_keep_alive _ = False"

fun is_resign :: "Completion \<Rightarrow> bool" where
  "is_resign (Resign _) = True"
| "is_resign _ = False"

record Pending =
  pd_request :: CoapMessage
  pd_destination :: Destination
  pd_label :: string
  pd_retransmit :: "CoapRetransmitSchedule option"
  retry_at :: "nat option"
  deadline :: nat
  pd_completion :: Completion

definition is_proxied :: "Pending \<Rightarrow> bool" where
  "is_proxied p \<longleftrightarrow> pd_destination p \<noteq> BorderAgent"

record Exchanges =
  in_flight :: "Pending list"
  queued :: "(Outbound \<times> Completion) list"

definition application_in_flight :: "Exchanges \<Rightarrow> nat" where
  "application_in_flight x = length (filter (\<lambda>p. is_application (pd_completion p)) (in_flight x))"

definition resigning :: "Exchanges \<Rightarrow> bool" where
  "resigning x \<longleftrightarrow> list_ex (\<lambda>p. is_resign (pd_completion p)) (in_flight x)"

definition keep_alive_outstanding :: "Exchanges \<Rightarrow> bool" where
  "keep_alive_outstanding x \<longleftrightarrow> list_ex (\<lambda>p. is_keep_alive (pd_completion p)) (in_flight x)"

definition Exchanges_withdraw :: "u64 \<Rightarrow> Exchanges \<Rightarrow> Exchanges \<times> bool" where
  "Exchanges_withdraw i x =
     (case position (\<lambda>(_, c). is_caller i c) (queued x) of
        Some index \<Rightarrow> (x\<lparr>queued := remove_at index (queued x)\<rparr>, True)
      | None \<Rightarrow>
          (case position (\<lambda>p. is_caller i (pd_completion p)) (in_flight x) of
             Some index \<Rightarrow> (x\<lparr>in_flight := remove_at index (in_flight x)\<rparr>, True)
           | None \<Rightarrow> (x, False)))"

text \<open>\<open>Iterator::min\<close>.\<close>

definition list_min :: "nat list \<Rightarrow> nat option" where
  "list_min ts = (if ts = [] then None else Some (Min (set ts)))"

definition Exchanges_next_deadline :: "Exchanges \<Rightarrow> nat option" where
  "Exchanges_next_deadline x =
     list_min (concat (map (\<lambda>p. case retry_at p of None \<Rightarrow> [deadline p] | Some t \<Rightarrow> [t, deadline p]) (in_flight x)))"

definition Exchanges_drain :: "Exchanges \<Rightarrow> Exchanges \<times> Completion list" where
  "Exchanges_drain x =
     (x\<lparr>in_flight := [], queued := []\<rparr>, map pd_completion (in_flight x) @ map snd (queued x))"

record ('r, 's, 'p, 'w, 'd) platform =
  pf_curve :: "('r, 's, 'p) p256"
  pf_crypto :: crypto
  clock :: "'w \<Rightarrow> nat \<times> 'w"
  next_u32 :: "'r \<Rightarrow> u32 \<times> 'r"
  dtls_send :: "'d \<Rightarrow> bytes \<Rightarrow> 'w \<Rightarrow> ('d \<times> (dtls_error + unit)) \<times> 'w"
  dtls_connect :: "'w \<Rightarrow> (error + 'd) \<times> 'w"

record ('r, 's, 'h, 'w, 'd) Driver =
  d_link :: "'d option"
  d_config :: CommissionerConfig
  d_border_agent :: string
  d_prefix :: "bytes option"
  d_generation :: u64
  d_events :: "CommissionerEvent list"
  d_replies :: "(nat \<times> Reply) list"
  d_status :: SessionStatus
  next_message_id :: u16
  exchanges :: Exchanges
  d_answered :: AnsweredMessages
  keep_alive_at :: "nat option"
  joiner_handler :: "('h JoinerHandler \<times> 'h) option"
  joiner_sessions :: "bytes \<Rightarrow> 's JoinerSession option"
  handles_dropped :: bool
  d_rng :: 'r
  d_world :: 'w

type_synonym ('r, 's, 'h, 'w, 'd, 'a) driver_action = "(('r, 's, 'h, 'w, 'd) Driver, 'a) rand"

definition Driver_new :: "'d \<Rightarrow> CommissionerConfig \<Rightarrow> string \<Rightarrow> 'r \<Rightarrow> 'w \<Rightarrow> ('r, 's, 'h, 'w, 'd) Driver" where
  "Driver_new link config border_agent rng world =
     \<lparr>d_link = Some link, d_config = config, d_border_agent = border_agent, d_prefix = None, d_generation = 0,
      d_events = [], d_replies = [], d_status = Connected, next_message_id = 0,
      exchanges = \<lparr>in_flight = [], queued = []\<rparr>, d_answered = [], keep_alive_at = None, joiner_handler = None,
      joiner_sessions = Map.empty, handles_dropped = False, d_rng = rng, d_world = world\<rparr>"

section \<open>Primitives\<close>

fun status_closed :: "SessionStatus \<Rightarrow> bool" where
  "status_closed (Closed _) = True"
| "status_closed _ = False"

definition is_closed :: "('r, 's, 'h, 'w, 'd) Driver \<Rightarrow> bool" where
  "is_closed d \<longleftrightarrow> status_closed (d_status d)"

definition Driver_session_id :: "('r, 's, 'h, 'w, 'd) Driver \<Rightarrow> u16 option" where
  "Driver_session_id d = SessionStatus_session_id (d_status d)"

definition set_status :: "SessionStatus \<Rightarrow> ('r, 's, 'h, 'w, 'd, unit) driver_action" where
  "set_status st = r_modify (\<lambda>d. d\<lparr>d_status := st\<rparr>)"

definition publish :: "CommissionerEvent \<Rightarrow> ('r, 's, 'h, 'w, 'd, unit) driver_action" where
  "publish ev = r_modify (\<lambda>d. d\<lparr>d_events := d_events d @ [ev]\<rparr>)"

text \<open>Sending on the reply channel of a handle, and \<open>Instant::now\<close>.\<close>

definition oneshot_send :: "nat \<Rightarrow> Reply \<Rightarrow> ('r, 's, 'h, 'w, 'd, unit) driver_action" where
  "oneshot_send reply v = r_modify (\<lambda>d. d\<lparr>d_replies := d_replies d @ [(reply, v)]\<rparr>)"

definition oneshot_send_opt :: "nat option \<Rightarrow> Reply \<Rightarrow> ('r, 's, 'h, 'w, 'd, unit) driver_action" where
  "oneshot_send_opt reply v = (case reply of None \<Rightarrow> r_ret () | Some i \<Rightarrow> oneshot_send i v)"

definition driver_now :: "('r, 's, 'p, 'w, 'd) platform \<Rightarrow> ('r, 's, 'h, 'w, 'd, nat) driver_action" where
  "driver_now e d = (case clock e (d_world d) of (t, w) \<Rightarrow> Some (t, d\<lparr>d_world := w\<rparr>))"

definition Link_is_open :: "('r, 's, 'h, 'w, 'd) Driver \<Rightarrow> bool" where
  "Link_is_open d \<longleftrightarrow> d_link d \<noteq> None"

definition Link_close :: "('r, 's, 'h, 'w, 'd, unit) driver_action" where
  "Link_close = r_modify (\<lambda>d. d\<lparr>d_link := None\<rparr>)"

definition Link_reopen :: "('r, 's, 'p, 'w, 'd) platform \<Rightarrow> ('r, 's, 'h, 'w, 'd, error + unit) driver_action" where
  "Link_reopen e d =
     (case dtls_connect e (d_world d) of
        (Inl err, w) \<Rightarrow> Some (Err err, d\<lparr>d_link := None, d_world := w\<rparr>)
      | (Inr session, w) \<Rightarrow> Some (Ok (), d\<lparr>d_link := Some session, d_world := w\<rparr>))"

definition Link_send ::
  "('r, 's, 'p, 'w, 'd) platform \<Rightarrow> CoapMessage \<Rightarrow> ('r, 's, 'h, 'w, 'd, error + unit) driver_action" where
  "Link_send e m d =
     (case d_link d of
        None \<Rightarrow> Some (Err (error.InvalidState ''DTLS session is not established''), d)
      | Some session \<Rightarrow>
          (case CoapMessage_encode m of
             Inl err \<Rightarrow> Some (Err err, d)
           | Inr wire \<Rightarrow>
               (case dtls_send e session wire (d_world d) of
                  ((session', res), w) \<Rightarrow> Some (map_err Dtls res, d\<lparr>d_link := Some session', d_world := w\<rparr>))))"

partial_function (option) unused_token :: "('r, 's, 'p) p256 \<Rightarrow> bytes list \<Rightarrow> 'r \<Rightarrow> (bytes \<times> 'r) option" where
  "unused_token c toks r =
     (case fill_bytes c TOKEN_LENGTH r of (tok, r') \<Rightarrow>
        if tok \<in> set toks then unused_token c toks r' else Some (tok, r'))"

definition assign_identity ::
  "('r, 's, 'p, 'w, 'd) platform \<Rightarrow> CoapMessage \<Rightarrow> ('r, 's, 'h, 'w, 'd, CoapMessage) driver_action" where
  "assign_identity e m d =
     (let mid = next_message_id d + 1 in
      case unused_token (pf_curve e) (map (\<lambda>p. token (pd_request p)) (in_flight (exchanges d))) (d_rng d) of
        None \<Rightarrow> None
      | Some (tok, r) \<Rightarrow>
          Some (m\<lparr>message_id := mid, token := tok\<rparr>, d\<lparr>next_message_id := mid, d_rng := r\<rparr>))"

definition wire_message ::
  "('r, 's, 'p, 'w, 'd) platform \<Rightarrow> CoapMessage \<Rightarrow> Destination \<Rightarrow>
     ('r, 's, 'h, 'w, 'd, error + CoapMessage) driver_action" where
  "wire_message e request dest =
     (case dest of
        BorderAgent \<Rightarrow> r_ret (Ok request)
      | Mesh address port \<Rightarrow>
          (case and_then (CoapMessage_encode request) (\<lambda>inner. udp_tx_request 0 [] address port inner) of
             Inl err \<Rightarrow> r_ret (Err err)
           | Inr outer \<Rightarrow> r_then (assign_identity e outer) (\<lambda>outer. r_ret (Ok outer))))"

definition is_response :: "CoapMessage \<Rightarrow> bool" where
  "is_response m \<longleftrightarrow> (let cl = drop_bit 5 (coap_code m) in cl = 2 \<or> cl = 4 \<or> cl = 5)"

fun is_transport_error :: "error \<Rightarrow> bool" where
  "is_transport_error (Io _) = True"
| "is_transport_error (Dtls _) = True"
| "is_transport_error _ = False"

definition control_request :: "CoapMessage \<Rightarrow> CommissionerOperation \<Rightarrow> Outbound" where
  "control_request m operation =
     \<lparr>out_message = m, out_destination = BorderAgent, expect_response = True, out_label = operation_label operation\<rparr>"

definition response_required :: "error + CoapMessage option \<Rightarrow> error + CoapMessage" where
  "response_required outcome =
     and_then outcome (\<lambda>response.
       and_then (ok_or response (error.InvalidState ''MeshCoP exchange produced no response'')) require_success_response)"

section \<open>Outcomes of session control\<close>

definition schedule_keep_alive :: "('r, 's, 'p, 'w, 'd) platform \<Rightarrow> ('r, 's, 'h, 'w, 'd, unit) driver_action" where
  "schedule_keep_alive e d =
     (if keep_alive (d_config d) = Automatic \<and> Driver_session_id d \<noteq> None then
        r_then (driver_now e)
          (\<lambda>now. r_modify (\<lambda>d. d\<lparr>keep_alive_at := Some (now + keepalive_interval (d_config d))\<rparr>)) d
      else r_ret () d)"

definition petition_result :: "error + CoapMessage option \<Rightarrow> error + PetitionResponse" where
  "petition_result outcome =
     and_then (response_required outcome)
       (\<lambda>response. and_then (parse_petition_response response)
       (\<lambda>petition. case pet_state petition of
            Accept \<Rightarrow>
              and_then (ok_or (pet_session_id petition) (error.InvalidState ''petition accepted without a session ID''))
                (\<lambda>i. Ok \<lparr>pr_session_id = i, pr_existing_commissioner_id = existing_commissioner_id petition\<rparr>)
          | MeshcopState.Pending \<Rightarrow> Err (error.InvalidState ''petition response is pending'')
          | Reject \<Rightarrow> Err (error.PetitionRejected (existing_commissioner_id petition))))"

definition petition_outcome ::
  "('r, 's, 'p, 'w, 'd) platform \<Rightarrow> error + CoapMessage option \<Rightarrow>
     ('r, 's, 'h, 'w, 'd, error + PetitionResponse) driver_action" where
  "petition_outcome e outcome d =
     (let result = petition_result outcome in
      if is_closed d then r_ret result d
      else r_then (case result of
               Inr petition \<Rightarrow> r_then (set_status (Active (pr_session_id petition))) (\<lambda>_. schedule_keep_alive e)
             | Inl _ \<Rightarrow> set_status Connected)
             (\<lambda>_. r_ret result) d)"

definition resign_result :: "error + CoapMessage option \<Rightarrow> error + unit" where
  "resign_result outcome =
     and_then (response_required outcome)
       (\<lambda>response. and_then (parse_state_response response True)
       (\<lambda>state. if state = Some MeshcopState.Pending then Err (error.InvalidState ''resign response is pending'')
                else Ok ()))"

definition keep_alive_result :: "error + CoapMessage option \<Rightarrow> error + ResultCode" where
  "keep_alive_result outcome =
     and_then (response_required outcome)
       (\<lambda>response. and_then (parse_state_response response True)
       (\<lambda>state. ok_or (map_option result_code_from_meshcop_state state)
          (error.InvalidState ''keepalive response did not include state'')))"

fun keep_alive_end :: "error + ResultCode \<Rightarrow> close_reason option" where
  "keep_alive_end (Inr ResultAccept) = None"
| "keep_alive_end (Inr ResultReject) = Some KeepAliveRejected"
| "keep_alive_end (Inr ResultPending) = Some KeepAlivePending"
| "keep_alive_end (Inl err) = Some (KeepAliveFailed (error_to_string err))"

section \<open>Exchanges\<close>

definition pop_queued :: "('r, 's, 'h, 'w, 'd, unit) driver_action" where
  "pop_queued = r_modify (\<lambda>d. d\<lparr>exchanges := (exchanges d)\<lparr>queued := tl (queued (exchanges d))\<rparr>\<rparr>)"

definition push_pending :: "Pending \<Rightarrow> ('r, 's, 'h, 'w, 'd, unit) driver_action" where
  "push_pending p = r_modify (\<lambda>d. d\<lparr>exchanges := (exchanges d)\<lparr>in_flight := in_flight (exchanges d) @ [p]\<rparr>\<rparr>)"

definition drain_exchanges :: "('r, 's, 'h, 'w, 'd, Completion list) driver_action" where
  "drain_exchanges d = (case Exchanges_drain (exchanges d) of (x, cs) \<Rightarrow> Some (cs, d\<lparr>exchanges := x\<rparr>))"

definition random_schedule ::
  "('r, 's, 'p, 'w, 'd) platform \<Rightarrow> ('r, 's, 'h, 'w, 'd, CoapRetransmitSchedule) driver_action" where
  "random_schedule e d =
     (case next_u32 e (d_rng d) of (random, r) \<Rightarrow> Some (CoapRetransmitSchedule_randomized random, d\<lparr>d_rng := r\<rparr>))"

definition track_pending ::
  "('r, 's, 'p, 'w, 'd) platform \<Rightarrow> CoapMessage \<Rightarrow> Outbound \<Rightarrow> Completion \<Rightarrow> ('r, 's, 'h, 'w, 'd, unit) driver_action" where
  "track_pending e m request cmp =
     r_then (driver_now e)
       (\<lambda>now. r_then (if coap_ty m = Confirmable then r_then (random_schedule e) (\<lambda>s. r_ret (Some s)) else r_ret None)
       (\<lambda>retransmit. push_pending
          \<lparr>pd_request = m, pd_destination = out_destination request, pd_label = out_label request,
           pd_retransmit = retransmit,
           retry_at = map_option (\<lambda>t. now + t) (Option.bind retransmit CoapRetransmitSchedule_timeout),
           deadline = now + COAP_EXCHANGE_TIMEOUT, pd_completion = cmp\<rparr>))"

definition begin_end_session :: "close_reason \<Rightarrow> ('r, 's, 'h, 'w, 'd, unit) driver_action" where
  "begin_end_session reason =
     r_modify (\<lambda>d. d\<lparr>d_status := Closed reason, keep_alive_at := None, joiner_sessions := Map.empty, d_link := None\<rparr>)"

text \<open>
  The methods that call each other. Each takes a function \<open>k\<close> that performs a call; \<open>driver_call\<close> ties the
  knot with fuel.
\<close>

datatype DriverCall =
    CallComplete Completion "error + CoapMessage option"
  | CallSendQueued
  | CallStart Outbound Completion
  | CallEndSession close_reason

type_synonym ('r, 's, 'h, 'w, 'd) driver_calls = "DriverCall \<Rightarrow> ('r, 's, 'h, 'w, 'd, unit) driver_action"

definition Driver_keep_alive_outcome ::
  "('r, 's, 'p, 'w, 'd) platform \<Rightarrow> ('r, 's, 'h, 'w, 'd) driver_calls \<Rightarrow> error + CoapMessage option \<Rightarrow> nat option \<Rightarrow>
     ('r, 's, 'h, 'w, 'd, unit) driver_action" where
  "Driver_keep_alive_outcome e k outcome reply =
     (let result = keep_alive_result outcome in
      r_then (case result of Inr code \<Rightarrow> publish (KeepAliveResponse code) | Inl _ \<Rightarrow> r_ret ())
        (\<lambda>_. r_then (oneshot_send_opt reply (KeepAliveReply result))
        (\<lambda>_. case keep_alive_end result of
            None \<Rightarrow> schedule_keep_alive e
          | Some reason \<Rightarrow> k (CallEndSession reason))))"

definition Driver_complete ::
  "('r, 's, 'p, 'w, 'd) platform \<Rightarrow> ('r, 's, 'h, 'w, 'd) driver_calls \<Rightarrow> Completion \<Rightarrow> error + CoapMessage option \<Rightarrow>
     ('r, 's, 'h, 'w, 'd, unit) driver_action" where
  "Driver_complete e k cmp outcome =
     (case cmp of
        Caller i reply \<Rightarrow> r_then (oneshot_send reply (ExchangeReply outcome)) (\<lambda>_. k CallSendQueued)
      | Petition reply \<Rightarrow> r_then (petition_outcome e outcome) (\<lambda>result. oneshot_send reply (PetitionReply result))
      | KeepAlive reply \<Rightarrow> Driver_keep_alive_outcome e k outcome reply
      | Resign reply \<Rightarrow>
          r_then (k (CallEndSession Resigned)) (\<lambda>_. oneshot_send_opt reply (ResignReply (resign_result outcome))))"

definition Driver_send_queued :: "('r, 's, 'h, 'w, 'd) driver_calls \<Rightarrow> ('r, 's, 'h, 'w, 'd, unit) driver_action" where
  "Driver_send_queued k d =
     (if application_in_flight (exchanges d) < MAX_APPLICATION_IN_FLIGHT then
       (case queued (exchanges d) of
          [] \<Rightarrow> r_ret () d
        | (request, cmp) # _ \<Rightarrow>
            r_then pop_queued
              (\<lambda>_. r_then (k (CallStart request cmp))
              (\<lambda>_. r_then (r_get is_closed)
              (\<lambda>closed. if closed then r_ret () else k CallSendQueued))) d)
     else r_ret () d)"

definition Driver_fail_send ::
  "('r, 's, 'h, 'w, 'd) driver_calls \<Rightarrow> Completion \<Rightarrow> error \<Rightarrow> ('r, 's, 'h, 'w, 'd, unit) driver_action" where
  "Driver_fail_send k cmp err =
     r_then (if is_transport_error err then k (CallEndSession (TransportFailed (error_to_string err))) else r_ret ())
       (\<lambda>_. k (CallComplete cmp (Err err)))"

definition Driver_start ::
  "('r, 's, 'p, 'w, 'd) platform \<Rightarrow> ('r, 's, 'h, 'w, 'd) driver_calls \<Rightarrow> Outbound \<Rightarrow> Completion \<Rightarrow>
     ('r, 's, 'h, 'w, 'd, unit) driver_action" where
  "Driver_start e k request cmp =
     r_then (assign_identity e (out_message request))
       (\<lambda>m. r_then (wire_message e m (out_destination request))
       (\<lambda>wire. case wire of
            Inl err \<Rightarrow> k (CallComplete cmp (Err err))
          | Inr wire \<Rightarrow>
              r_then (Link_send e wire)
                (\<lambda>sent. case sent of
                     Inl err \<Rightarrow> Driver_fail_send k cmp err
                   | Inr _ \<Rightarrow>
                       if \<not> expect_response request then k (CallComplete cmp (Ok None))
                       else track_pending e m request cmp)))"

primrec complete_all ::
  "('r, 's, 'h, 'w, 'd) driver_calls \<Rightarrow> error \<Rightarrow> Completion list \<Rightarrow> ('r, 's, 'h, 'w, 'd, unit) driver_action" where
  "complete_all k err [] = r_ret ()"
| "complete_all k err (c # cs) = r_then (k (CallComplete c (Err err))) (\<lambda>_. complete_all k err cs)"

definition Driver_fail_all ::
  "('r, 's, 'h, 'w, 'd) driver_calls \<Rightarrow> error \<Rightarrow> ('r, 's, 'h, 'w, 'd, unit) driver_action" where
  "Driver_fail_all k err = r_then drain_exchanges (complete_all k err)"

definition Driver_end_session ::
  "('r, 's, 'h, 'w, 'd) driver_calls \<Rightarrow> close_reason \<Rightarrow> ('r, 's, 'h, 'w, 'd, unit) driver_action" where
  "Driver_end_session k reason d =
     (if is_closed d then r_ret () d
      else r_then (begin_end_session reason)
        (\<lambda>_. r_then (Driver_fail_all k
                (if reason \<noteq> Resigned then error.SessionLost reason else error.SessionClosed))
        (\<lambda>_. if reason \<noteq> Resigned then publish (SessionLost reason) else r_ret ())) d)"

primrec driver_call ::
  "('r, 's, 'p, 'w, 'd) platform \<Rightarrow> nat \<Rightarrow> ('r, 's, 'h, 'w, 'd) driver_calls" where
  "driver_call e 0 = (\<lambda>_ _. None)"
| "driver_call e (Suc n) = (\<lambda>call.
     case call of
       CallComplete cmp outcome \<Rightarrow> Driver_complete e (driver_call e n) cmp outcome
     | CallSendQueued \<Rightarrow> Driver_send_queued (driver_call e n)
     | CallStart request cmp \<Rightarrow> Driver_start e (driver_call e n) request cmp
     | CallEndSession reason \<Rightarrow> Driver_end_session (driver_call e n) reason)"

definition driver_fuel :: "('r, 's, 'h, 'w, 'd) Driver \<Rightarrow> nat" where
  "driver_fuel d = 4 * length (queued (exchanges d)) + 12"

definition calls :: "('r, 's, 'p, 'w, 'd) platform \<Rightarrow> ('r, 's, 'h, 'w, 'd) driver_calls" where
  "calls e call d = driver_call e (driver_fuel d) call d"

definition Driver_submit ::
  "('r, 's, 'p, 'w, 'd) platform \<Rightarrow> Outbound \<Rightarrow> Completion \<Rightarrow> ('r, 's, 'h, 'w, 'd, unit) driver_action" where
  "Driver_submit e request cmp =
     r_then (r_modify (\<lambda>d. d\<lparr>exchanges := (exchanges d)\<lparr>queued := queued (exchanges d) @ [(request, cmp)]\<rparr>\<rparr>))
       (\<lambda>_. calls e CallSendQueued)"

definition Driver_withdraw ::
  "('r, 's, 'p, 'w, 'd) platform \<Rightarrow> u64 \<Rightarrow> ('r, 's, 'h, 'w, 'd, unit) driver_action" where
  "Driver_withdraw e i d =
     (case Exchanges_withdraw i (exchanges d) of
        (x, found) \<Rightarrow> (if found then calls e CallSendQueued else r_ret ()) (d\<lparr>exchanges := x\<rparr>))"

definition transport_failed ::
  "('r, 's, 'p, 'w, 'd) platform \<Rightarrow> string \<Rightarrow> ('r, 's, 'h, 'w, 'd, unit) driver_action" where
  "transport_failed e err = calls e (CallEndSession (TransportFailed err))"

section \<open>Timers\<close>

definition remove_pending :: "nat \<Rightarrow> ('r, 's, 'h, 'w, 'd, unit) driver_action" where
  "remove_pending i =
     r_modify (\<lambda>d. d\<lparr>exchanges := (exchanges d)\<lparr>in_flight := remove_at i (in_flight (exchanges d))\<rparr>\<rparr>)"

definition retransmitted :: "nat \<Rightarrow> Pending \<Rightarrow> Pending" where
  "retransmitted now p =
     (case pd_retransmit p of
        None \<Rightarrow> p
      | Some s \<Rightarrow>
          (let s = record_retransmission s in
           p\<lparr>pd_retransmit := Some s, retry_at := map_option (\<lambda>t. now + t) (CoapRetransmitSchedule_timeout s)\<rparr>))"

definition update_pending :: "nat \<Rightarrow> (Pending \<Rightarrow> Pending) \<Rightarrow> ('r, 's, 'h, 'w, 'd, unit) driver_action" where
  "update_pending i f =
     r_modify (\<lambda>d. d\<lparr>exchanges := (exchanges d)\<lparr>in_flight :=
       (in_flight (exchanges d))[i := f (in_flight (exchanges d) ! i)]\<rparr>\<rparr>)"

text \<open>Sending a request again; the outcome says whether the transport failed.\<close>

definition resend_pending ::
  "('r, 's, 'p, 'w, 'd) platform \<Rightarrow> Pending \<Rightarrow> ('r, 's, 'h, 'w, 'd, error option) driver_action" where
  "resend_pending e p =
     r_then (r_try (wire_message e (pd_request p) (pd_destination p)) (Link_send e))
       (\<lambda>res. r_ret (case res of Inl err \<Rightarrow> if is_transport_error err then Some err else None | Inr _ \<Rightarrow> None))"

primrec exchange_timers ::
  "('r, 's, 'p, 'w, 'd) platform \<Rightarrow> nat \<Rightarrow> nat \<Rightarrow> nat \<Rightarrow> ('r, 's, 'h, 'w, 'd, unit) driver_action" where
  "exchange_timers e 0 = (\<lambda>now index _. None)"
| "exchange_timers e (Suc n) = (\<lambda>now index d.
     if index < length (in_flight (exchanges d)) then
       (let p = in_flight (exchanges d) ! index in
        if deadline p \<le> now then
          r_then (remove_pending index)
            (\<lambda>_. r_then (calls e (CallComplete (pd_completion p) (Err (error.Timeout ''MeshCoP exchange timed out''))))
            (\<lambda>_. r_then (r_get is_closed)
            (\<lambda>closed. if closed then r_ret () else exchange_timers e n now index))) d
        else if (case retry_at p of None \<Rightarrow> False | Some t \<Rightarrow> t \<le> now) then
          r_then (resend_pending e p)
            (\<lambda>failure. case failure of
                 Some err \<Rightarrow> transport_failed e (error_to_string err)
               | None \<Rightarrow>
                   r_then (update_pending index (retransmitted now)) (\<lambda>_. exchange_timers e n now (index + 1))) d
        else exchange_timers e n now (index + 1) d)
     else calls e CallSendQueued d)"

definition run_exchange_timers ::
  "('r, 's, 'p, 'w, 'd) platform \<Rightarrow> ('r, 's, 'h, 'w, 'd, unit) driver_action" where
  "run_exchange_timers e =
     r_then (driver_now e)
       (\<lambda>now d. exchange_timers e
          (2 * (length (in_flight (exchanges d)) + length (queued (exchanges d))) + 1) now 0 d)"

section \<open>Commands\<close>

definition ensure_open :: "('r, 's, 'p, 'w, 'd) platform \<Rightarrow> ('r, 's, 'h, 'w, 'd, error + unit) driver_action" where
  "ensure_open e =
     r_then (r_get Link_is_open)
       (\<lambda>opened. if opened then r_ret (Ok ())
        else r_try (Link_reopen e)
          (\<lambda>_. r_then (r_modify (\<lambda>d. d\<lparr>d_answered := forget_border_agent (d_answered d)\<rparr>))
          (\<lambda>_. r_then (set_status Connected) (\<lambda>_. r_ret (Ok ())))))"

fun petition_refusal :: "SessionStatus \<Rightarrow> string option" where
  "petition_refusal Connected = None"
| "petition_refusal Idle = None"
| "petition_refusal Petitioning = Some ''petition is already active''"
| "petition_refusal (Active _) = Some ''commissioner is already active''"
| "petition_refusal (Closed _) = Some ''commissioner is disconnected''"

definition Driver_petition ::
  "('r, 's, 'p, 'w, 'd) platform \<Rightarrow> nat \<Rightarrow> ('r, 's, 'h, 'w, 'd, unit) driver_action" where
  "Driver_petition e reply =
     r_then (r_get (\<lambda>d. petition_refusal (d_status d)))
       (\<lambda>refusal. case refusal of
            Some why \<Rightarrow> oneshot_send reply (PetitionReply (Err (error.InvalidState why)))
          | None \<Rightarrow>
              r_then (ensure_open e)
                (\<lambda>opened. case opened of
                     Inl err \<Rightarrow> oneshot_send reply (PetitionReply (Err err))
                   | Inr _ \<Rightarrow>
                       r_then (r_get (\<lambda>d. petition_request 0 [] (commissioner_id (d_config d))))
                         (\<lambda>request. case request of
                              Inl err \<Rightarrow> oneshot_send reply (PetitionReply (Err err))
                            | Inr m \<Rightarrow>
                                r_then (set_status Petitioning)
                                  (\<lambda>_. calls e (CallStart (control_request m CommissionerOperation.Petition)
                                     (Petition reply))))))"

definition send_keep_alive ::
  "('r, 's, 'p, 'w, 'd) platform \<Rightarrow> Completion \<Rightarrow> ('r, 's, 'h, 'w, 'd, unit) driver_action" where
  "send_keep_alive e cmp =
     r_then (r_get Driver_session_id)
       (\<lambda>session_id. case session_id of
            None \<Rightarrow> calls e (CallComplete cmp (Err (error.InvalidState ''commissioner session is not active'')))
          | Some i \<Rightarrow>
              r_then (r_modify (\<lambda>d. d\<lparr>keep_alive_at := None\<rparr>))
                (\<lambda>_. case keep_alive_request 0 [] i True of
                     Inr m \<Rightarrow> calls e (CallStart (control_request m CommissionerOperation.KeepAlive) cmp)
                   | Inl err \<Rightarrow> calls e (CallComplete cmp (Err err))))"

definition Driver_resign ::
  "('r, 's, 'p, 'w, 'd) platform \<Rightarrow> nat option \<Rightarrow> ('r, 's, 'h, 'w, 'd, unit) driver_action" where
  "Driver_resign e reply =
     r_then (r_get Driver_session_id)
       (\<lambda>session_id. case session_id of
            None \<Rightarrow>
              r_then (calls e (CallEndSession Resigned)) (\<lambda>_. oneshot_send_opt reply (ResignReply (Ok ())))
          | Some i \<Rightarrow>
              r_then (r_modify (\<lambda>d. d\<lparr>keep_alive_at := None\<rparr>))
                (\<lambda>_. case keep_alive_request 0 [] i False of
                     Inr m \<Rightarrow> calls e (CallStart (control_request m CommissionerOperation.KeepAlive) (Resign reply))
                   | Inl err \<Rightarrow> calls e (CallComplete (Resign reply) (Err err))))"

datatype 'h Command =
    Exchange u64 Outbound nat
  | Withdraw u64
  | PetitionCommand nat
  | KeepAliveCommand nat
  | ResignCommand nat
  | SetJoinerHandler "('h JoinerHandler \<times> 'h) option"

definition keep_alive_refusal :: "('r, 's, 'h, 'w, 'd) Driver \<Rightarrow> string option" where
  "keep_alive_refusal d =
     (if Driver_session_id d = None then Some ''commissioner session is not active''
      else if resigning (exchanges d) then Some RESIGNING
      else if keep_alive_outstanding (exchanges d) then Some ''a keep-alive is already outstanding''
      else None)"

definition handle_command ::
  "('r, 's, 'p, 'w, 'd) platform \<Rightarrow> 'h Command \<Rightarrow> ('r, 's, 'h, 'w, 'd, unit) driver_action" where
  "handle_command e command =
     (case command of
        Exchange i request reply \<Rightarrow>
          r_then (r_get (\<lambda>d. resigning (exchanges d)))
            (\<lambda>busy. if busy then oneshot_send reply (ExchangeReply (Err (error.InvalidState RESIGNING)))
             else r_then (ensure_open e)
               (\<lambda>opened. case opened of
                    Inl err \<Rightarrow> oneshot_send reply (ExchangeReply (Err err))
                  | Inr _ \<Rightarrow> Driver_submit e request (Caller i reply)))
      | Withdraw i \<Rightarrow> Driver_withdraw e i
      | PetitionCommand reply \<Rightarrow> Driver_petition e reply
      | KeepAliveCommand reply \<Rightarrow>
          r_then (r_get keep_alive_refusal)
            (\<lambda>refusal. case refusal of
                 Some why \<Rightarrow> oneshot_send reply (KeepAliveReply (Err (error.InvalidState why)))
               | None \<Rightarrow> send_keep_alive e (KeepAlive (Some reply)))
      | ResignCommand reply \<Rightarrow>
          r_then (r_get (\<lambda>d. resigning (exchanges d)))
            (\<lambda>busy. if busy then oneshot_send reply (ResignReply (Err (error.InvalidState RESIGNING)))
             else Driver_resign e (Some reply))
      | SetJoinerHandler handler \<Rightarrow>
          r_modify (\<lambda>d. d\<lparr>joiner_sessions := (if handler = None then Map.empty else joiner_sessions d),
             joiner_handler := handler\<rparr>))"

definition Driver_handles_dropped ::
  "('r, 's, 'p, 'w, 'd) platform \<Rightarrow> ('r, 's, 'h, 'w, 'd, unit) driver_action" where
  "Driver_handles_dropped e =
     r_then (r_modify (\<lambda>d. d\<lparr>handles_dropped := True\<rparr>))
       (\<lambda>_. r_then (r_get (\<lambda>d. resigning (exchanges d)))
       (\<lambda>busy. if busy then r_ret () else Driver_resign e None))"

definition run_timers :: "('r, 's, 'p, 'w, 'd) platform \<Rightarrow> ('r, 's, 'h, 'w, 'd, unit) driver_action" where
  "run_timers e =
     r_then (run_exchange_timers e)
       (\<lambda>_. r_then (r_get is_closed)
       (\<lambda>closed. if closed then r_ret ()
        else r_then (r_get keep_alive_at)
          (\<lambda>at. case at of
               None \<Rightarrow> r_ret ()
             | Some t \<Rightarrow>
                 r_then (driver_now e)
                   (\<lambda>now. if t \<le> now then send_keep_alive e (KeepAlive None) else r_ret ()))))"

section \<open>Joiner relay\<close>

text \<open>The sessions that have not expired.\<close>

definition retain_sessions :: "nat \<Rightarrow> (bytes \<Rightarrow> 's JoinerSession option) \<Rightarrow> bytes \<Rightarrow> 's JoinerSession option" where
  "retain_sessions now sessions i =
     (case sessions i of
        None \<Rightarrow> None
      | Some s \<Rightarrow> if js_expired now s then None else Some s)"

text \<open>The session of a joiner, created for the first datagram of a joiner the application enabled.\<close>

definition open_session ::
  "('r, 's, 'p, 'w, 'd) platform \<Rightarrow> bytes \<Rightarrow> u16 \<Rightarrow> u16 \<Rightarrow> nat \<Rightarrow> 'h JoinerHandler \<Rightarrow> 'h \<Rightarrow>
     ('r, 's, 'h, 'w, 'd, bool) driver_action" where
  "open_session e iid port locator now hdl h d =
     (let i = joiner_id_from_iid iid in
      case joiner_sessions d i of
        Some _ \<Rightarrow> Some (True, d)
      | None \<Rightarrow>
          (case joiner_pskd hdl i h of
             (h', None) \<Rightarrow> Some (False, d\<lparr>joiner_handler := Some (hdl, h')\<rparr>)
           | (h', Some pskd) \<Rightarrow>
               (case JoinerSession_new (pf_curve e) (pf_crypto e) iid port locator pskd now (d_rng d) of
                  None \<Rightarrow> None
                | Some (s, r) \<Rightarrow>
                    Some (True, d\<lparr>joiner_handler := Some (hdl, h'), d_rng := r,
                      joiner_sessions := (joiner_sessions d)(i \<mapsto> s)\<rparr>))))"

text \<open>What the events of a session ask for: datagrams to send, each with the key if one is to be attached,
  events to publish, and whether deriving the key failed.\<close>

fun relay_events ::
  "crypto \<Rightarrow> 's JoinerSession \<Rightarrow> bytes \<Rightarrow> 'h JoinerHandler \<Rightarrow> JoinerSessionEvent list \<Rightarrow> 'h \<Rightarrow>
     'h \<times> (bytes \<times> bytes option) list \<times> CommissionerEvent list \<times> bool" where
  "relay_events cr s i hdl [] h = (h, [], [], False)"
| "relay_events cr s i hdl (Transmit datagram include_kek # evs) h =
     (case (if include_kek then map_sum id Some (joiner_router_kek cr s) else Ok None) of
        Inl _ \<Rightarrow> (h, [], [], True)
      | Inr kek \<Rightarrow>
          (case relay_events cr s i hdl evs h of (h', ts, es, failed) \<Rightarrow> (h', (datagram, kek) # ts, es, failed)))"
| "relay_events cr s i hdl (JoinerSessionEvent.JoinerConnected # evs) h =
     (case relay_events cr s i hdl evs (on_joiner_connected hdl i h) of
        (h', ts, es, failed) \<Rightarrow> (h', ts, JoinerConnected i # es, failed))"
| "relay_events cr s i hdl (JoinerSessionEvent.JoinerFinalized accepted info # evs) h =
     (case relay_events cr s i hdl evs h of
        (h', ts, es, failed) \<Rightarrow> (h', ts, JoinerFinalized i accepted info # es, failed))"

primrec relay_transmit ::
  "('r, 's, 'p, 'w, 'd) platform \<Rightarrow> bytes \<times> u16 \<times> u16 \<Rightarrow> (bytes \<times> bytes option) list \<Rightarrow>
     ('r, 's, 'h, 'w, 'd, error + unit) driver_action" where
  "relay_transmit e target [] = r_ret (Ok ())"
| "relay_transmit e target (x # xs) =
     (case (target, x) of ((iid, port, locator), (datagram, kek)) \<Rightarrow>
        (case relay_tx_request_with_kek 0 [] iid port locator datagram kek of
           Inl err \<Rightarrow> r_ret (Err err)
         | Inr relay \<Rightarrow>
             r_then (assign_identity e relay)
               (\<lambda>relay. r_try (Link_send e relay) (\<lambda>_. relay_transmit e target xs))))"

primrec publish_all :: "CommissionerEvent list \<Rightarrow> ('r, 's, 'h, 'w, 'd, unit) driver_action" where
  "publish_all [] = r_ret ()"
| "publish_all (ev # evs) = r_then (publish ev) (\<lambda>_. publish_all evs)"

definition remove_session :: "bytes \<Rightarrow> ('r, 's, 'h, 'w, 'd, unit) driver_action" where
  "remove_session i = r_modify (\<lambda>d. d\<lparr>joiner_sessions := (joiner_sessions d)(i := None)\<rparr>)"

text \<open>Feeding the datagram to the session. The target of the answers is read before the session runs.\<close>

definition relay_receive ::
  "('r, 's, 'p, 'w, 'd) platform \<Rightarrow> bytes \<Rightarrow> bytes \<Rightarrow>
     ('r, 's, 'h, 'w, 'd, ((bytes \<times> u16 \<times> u16) \<times> (bytes \<times> bytes option) list \<times> CommissionerEvent list \<times> bool) option) driver_action" where
  "relay_receive e i datagram d =
     (case (joiner_handler d, joiner_sessions d i) of
        (Some (hdl, h), Some s) \<Rightarrow>
          (case JoinerSession_receive (pf_curve e) (pf_crypto e) hdl datagram (s, h) (d_rng d) of
             None \<Rightarrow> None
           | Some (((s', h'), Inl err), r) \<Rightarrow>
               Some (None, d\<lparr>joiner_handler := Some (hdl, h'), d_rng := r, joiner_sessions := (joiner_sessions d)(i := None)\<rparr>)
           | Some (((s', h'), Inr evs), r) \<Rightarrow>
               (case relay_events (pf_crypto e) s' i hdl evs h' of
                  (h'', ts, es, failed) \<Rightarrow>
                    Some (Some ((js_joiner_iid s, js_udp_port s, js_router_locator s), ts, es, failed),
                      d\<lparr>joiner_handler := Some (hdl, h''), d_rng := r, joiner_sessions := (joiner_sessions d)(i \<mapsto> s')\<rparr>)))
      | _ \<Rightarrow> Some (None, d))"

definition handle_relay_rx ::
  "('r, 's, 'p, 'w, 'd) platform \<Rightarrow> u16 \<Rightarrow> u16 \<Rightarrow> bytes \<Rightarrow> bytes \<Rightarrow> ('r, 's, 'h, 'w, 'd, error + unit) driver_action" where
  "handle_relay_rx e port locator iid datagram =
     r_then (driver_now e)
       (\<lambda>now. r_then (r_modify (\<lambda>d. d\<lparr>joiner_sessions := retain_sessions now (joiner_sessions d)\<rparr>))
       (\<lambda>_. r_then (r_get joiner_handler)
       (\<lambda>handler. case handler of
            None \<Rightarrow> r_ret (Ok ())
          | Some (hdl, h) \<Rightarrow>
              r_then (open_session e iid port locator now hdl h)
                (\<lambda>opened. if \<not> opened then r_ret (Ok ())
                 else r_then (relay_receive e (joiner_id_from_iid iid) datagram)
                   (\<lambda>res. case res of
                        None \<Rightarrow> r_ret (Ok ())
                      | Some (target, transmissions, evs, session_failed) \<Rightarrow>
                          r_then (publish_all evs)
                            (\<lambda>_. if session_failed
                                then r_then (remove_session (joiner_id_from_iid iid)) (\<lambda>_. r_ret (Ok ()))
                                else relay_transmit e target transmissions))))))"

section \<open>Incoming messages\<close>

definition acknowledge :: "CoapMessage \<Rightarrow> bool \<Rightarrow> ('r, 's, 'h, 'w, 'd, bool) driver_action" where
  "acknowledge ack proxied d =
     (case position (\<lambda>p. is_proxied p = proxied \<and> is_empty_ack_for ack (message_id (pd_request p)))
             (in_flight (exchanges d)) of
        Some i \<Rightarrow> r_then (update_pending i (\<lambda>p. p\<lparr>retry_at := None\<rparr>)) (\<lambda>_. r_ret True) d
      | None \<Rightarrow> r_ret False d)"

definition answers :: "CoapMessage \<Rightarrow> bool \<Rightarrow> Pending \<Rightarrow> bool" where
  "answers response proxied p \<longleftrightarrow>
     is_proxied p = proxied \<and>
     (is_reset_for response (message_id (pd_request p)) \<or>
      (is_response response \<and> token response = token (pd_request p)))"

definition take_answered :: "CoapMessage \<Rightarrow> bool \<Rightarrow> ('r, 's, 'h, 'w, 'd, Pending option) driver_action" where
  "take_answered response proxied d =
     (case position (answers response proxied) (in_flight (exchanges d)) of
        Some i \<Rightarrow> r_then (remove_pending i) (\<lambda>_. r_ret (Some (in_flight (exchanges d) ! i))) d
      | None \<Rightarrow> r_ret None d)"

definition send_reply ::
  "('r, 's, 'p, 'w, 'd) platform \<Rightarrow> CoapMessage \<Rightarrow> Destination \<Rightarrow> ('r, 's, 'h, 'w, 'd, error + unit) driver_action" where
  "send_reply e reply origin = r_try (wire_message e reply origin) (Link_send e)"

definition Driver_reply ::
  "('r, 's, 'p, 'w, 'd) platform \<Rightarrow> CoapMessage \<Rightarrow> CoapMessage \<Rightarrow> Destination \<Rightarrow>
     ('r, 's, 'h, 'w, 'd, error + unit) driver_action" where
  "Driver_reply e m reply origin =
     r_try (send_reply e reply origin)
       (\<lambda>_. r_then (driver_now e)
       (\<lambda>now. r_then (r_modify (\<lambda>d. d\<lparr>d_answered := remember now origin (message_id m) reply (d_answered d)\<rparr>))
       (\<lambda>_. r_ret (Ok ()))))"

definition look_up_reply ::
  "nat \<Rightarrow> Destination \<Rightarrow> u16 \<Rightarrow> ('r, 's, 'h, 'w, 'd, CoapMessage option) driver_action" where
  "look_up_reply now origin mid d =
     (case reply_to now origin mid (d_answered d) of (a, r) \<Rightarrow> Some (r, d\<lparr>d_answered := a\<rparr>))"

definition answer_retransmission ::
  "('r, 's, 'p, 'w, 'd) platform \<Rightarrow> CoapMessage \<Rightarrow> Destination \<Rightarrow> ('r, 's, 'h, 'w, 'd, error + bool) driver_action" where
  "answer_retransmission e m origin =
     (if coap_ty m \<noteq> Confirmable then r_ret (Ok False)
      else r_then (driver_now e)
        (\<lambda>now. r_then (look_up_reply now origin (message_id m))
        (\<lambda>reply. case reply of
             None \<Rightarrow> r_ret (Ok False)
           | Some r \<Rightarrow> r_try (send_reply e r origin) (\<lambda>_. r_ret (Ok True)))))"

definition ack_if_confirmable ::
  "('r, 's, 'p, 'w, 'd) platform \<Rightarrow> CoapMessage \<Rightarrow> ('r, 's, 'h, 'w, 'd, error + unit) driver_action" where
  "ack_if_confirmable e m =
     (if coap_ty m = Confirmable then Driver_reply e m (empty_ack (message_id m)) BorderAgent else r_ret (Ok ()))"

fun notification_to_event :: "MeshcopNotification \<Rightarrow> string \<Rightarrow> CommissionerEvent" where
  "notification_to_event MeshcopNotification.DatasetChanged peer = DatasetChanged"
| "notification_to_event (DiagGetAnswer data) peer = DiagnosticAnswer peer data"
| "notification_to_event (MeshcopNotification.PanIdConflict m pan_id) peer = PanIdConflict peer m pan_id"
| "notification_to_event (MeshcopNotification.EnergyReport m es) peer = EnergyReport peer m es"
| "notification_to_event (RelayRx port locator iid body) peer = JoinerMessage iid port body"

definition invalidate_mesh_local_prefix :: "('r, 's, 'h, 'w, 'd, unit) driver_action" where
  "invalidate_mesh_local_prefix = r_modify (\<lambda>d. d\<lparr>d_prefix := None, d_generation := d_generation d + 1\<rparr>)"

definition route_unsolicited_message ::
  "('r, 's, 'p, 'w, 'd) platform \<Rightarrow> CoapMessage \<Rightarrow> ('r, 's, 'h, 'w, 'd, error + bool) driver_action" where
  "route_unsolicited_message e m =
     (case parse_notification m of
        Inl err \<Rightarrow> r_ret (Err err)
      | Inr None \<Rightarrow> r_ret (Ok False)
      | Inr (Some notification) \<Rightarrow>
          r_then (r_get joiner_handler)
            (\<lambda>handler. case (notification, handler) of
                 (RelayRx port locator iid body, Some _) \<Rightarrow>
                   r_try (handle_relay_rx e port locator iid body) (\<lambda>_. r_ret (Ok True))
               | _ \<Rightarrow>
                   r_then (if notification = MeshcopNotification.DatasetChanged then invalidate_mesh_local_prefix else r_ret ())
                     (\<lambda>_. r_then (r_get d_border_agent)
                     (\<lambda>peer. r_then (publish (notification_to_event notification peer))
                     (\<lambda>_. r_ret (Ok True))))))"

definition route_unsolicited_proxied ::
  "('r, 's, 'p, 'w, 'd) platform \<Rightarrow> CoapMessage \<Rightarrow> UdpRx \<Rightarrow> Destination \<Rightarrow>
     ('r, 's, 'h, 'w, 'd, error + bool) driver_action" where
  "route_unsolicited_proxied e inner udp_rx origin =
     (case parse_notification inner of
        Inl err \<Rightarrow> r_ret (Err err)
      | Inr None \<Rightarrow> r_ret (Ok False)
      | Inr (Some notification) \<Rightarrow>
          r_then (if notification = MeshcopNotification.DatasetChanged then invalidate_mesh_local_prefix else r_ret ())
            (\<lambda>_. r_then (publish (notification_to_event notification (show_ipv6 (source_address udp_rx))))
            (\<lambda>_. if coap_ty inner = Confirmable
                 then r_try (Driver_reply e inner (empty_changed_response inner) origin) (\<lambda>_. r_ret (Ok True))
                 else r_ret (Ok True))))"

definition route_direct ::
  "('r, 's, 'p, 'w, 'd) platform \<Rightarrow> CoapMessage \<Rightarrow> ('r, 's, 'h, 'w, 'd, error + unit) driver_action" where
  "route_direct e incoming =
     r_try (answer_retransmission e incoming BorderAgent)
       (\<lambda>again. if again then r_ret (Ok ())
        else r_then (acknowledge incoming False)
          (\<lambda>acked. if acked then r_ret (Ok ())
           else r_then (take_answered incoming False)
             (\<lambda>pending. case pending of
                  Some p \<Rightarrow>
                    if coap_ty incoming = Reset then
                      r_then (calls e (CallComplete (pd_completion p) (Err (error.InvalidState COAP_RESET_ERROR))))
                        (\<lambda>_. r_ret (Ok ()))
                    else r_try (ack_if_confirmable e incoming)
                      (\<lambda>_. r_then (calls e (CallComplete (pd_completion p) (Ok (Some incoming)))) (\<lambda>_. r_ret (Ok ())))
                | None \<Rightarrow>
                    r_try (route_unsolicited_message e incoming)
                      (\<lambda>routed. if routed then ack_if_confirmable e incoming else r_ret (Ok ())))))"

definition route_proxied ::
  "('r, 's, 'p, 'w, 'd) platform \<Rightarrow> UdpRx \<Rightarrow> CoapMessage \<Rightarrow> ('r, 's, 'h, 'w, 'd, error + unit) driver_action" where
  "route_proxied e udp_rx inner =
     (let origin = Mesh (source_address udp_rx) (source_port udp_rx) in
      r_try (answer_retransmission e inner origin)
        (\<lambda>again. if again then r_ret (Ok ())
         else r_then (acknowledge inner True)
           (\<lambda>acked. if acked then r_ret (Ok ())
            else r_then (take_answered inner True)
              (\<lambda>pending. case pending of
                   Some p \<Rightarrow>
                     if coap_ty inner = Reset then
                       r_then (calls e (CallComplete (pd_completion p) (Err (error.InvalidState COAP_RESET_ERROR))))
                         (\<lambda>_. r_ret (Ok ()))
                     else r_try (if coap_ty inner = Confirmable
                           then Driver_reply e inner (empty_ack (message_id inner)) origin else r_ret (Ok ()))
                       (\<lambda>_. r_then (calls e (CallComplete (pd_completion p) (Ok (Some inner)))) (\<lambda>_. r_ret (Ok ())))
                 | None \<Rightarrow>
                     r_try (route_unsolicited_proxied e inner udp_rx origin) (\<lambda>_. r_ret (Ok ()))))))"

definition route_incoming ::
  "('r, 's, 'p, 'w, 'd) platform \<Rightarrow> CoapMessage \<Rightarrow> ('r, 's, 'h, 'w, 'd, error + unit) driver_action" where
  "route_incoming e incoming =
     (case parse_udp_rx incoming of
        Inl _ \<Rightarrow> r_ret (Ok ())
      | Inr None \<Rightarrow> route_direct e incoming
      | Inr (Some udp_rx) \<Rightarrow>
          if destination_port udp_rx \<noteq> DEFAULT_MM_PORT then r_ret (Ok ())
          else case CoapMessage_decode (udp_payload udp_rx) of
              Inl _ \<Rightarrow> r_ret (Ok ())
            | Inr inner \<Rightarrow> route_proxied e udp_rx inner)"

definition handle_datagram ::
  "('r, 's, 'p, 'w, 'd) platform \<Rightarrow> bytes \<Rightarrow> ('r, 's, 'h, 'w, 'd, unit) driver_action" where
  "handle_datagram e plaintext =
     (case CoapMessage_decode plaintext of
        Inl _ \<Rightarrow> r_ret ()
      | Inr m \<Rightarrow>
          r_then (route_incoming e m)
            (\<lambda>res. case res of
                 Inl err \<Rightarrow> if is_transport_error err then transport_failed e (error_to_string err) else r_ret ()
               | Inr _ \<Rightarrow> r_ret ()))"

definition receive_failed ::
  "('r, 's, 'p, 'w, 'd) platform \<Rightarrow> error \<Rightarrow> ('r, 's, 'h, 'w, 'd, unit) driver_action" where
  "receive_failed e err =
     (let peer_closed = (err = Dtls dtls_error.PeerClosed) in
      r_then (r_get (\<lambda>d. Driver_session_id d = None \<and> \<not> handles_dropped d))
        (\<lambda>unpetitioned.
           if peer_closed \<and> unpetitioned then
             r_then Link_close
               (\<lambda>_. r_then (Driver_fail_all (calls e) (error.SessionLost close_reason.PeerClosed))
               (\<lambda>_. set_status Idle))
           else if peer_closed then calls e (CallEndSession close_reason.PeerClosed)
           else transport_failed e (error_to_string err)))"

section \<open>The loop\<close>

definition Driver_next_deadline :: "('r, 's, 'h, 'w, 'd) Driver \<Rightarrow> nat option" where
  "Driver_next_deadline d =
     list_min (concat (map (\<lambda>t. case t of None \<Rightarrow> [] | Some n \<Rightarrow> [n])
       [Exchanges_next_deadline (exchanges d), keep_alive_at d]))"

datatype 'h Wake = WakeCommand "'h Command option" | Received "error + bytes" | Timer

definition handle_wake ::
  "('r, 's, 'p, 'w, 'd) platform \<Rightarrow> 'h Wake \<Rightarrow> ('r, 's, 'h, 'w, 'd, unit) driver_action" where
  "handle_wake e wake =
     (case wake of
        WakeCommand (Some command) \<Rightarrow> handle_command e command
      | WakeCommand None \<Rightarrow> Driver_handles_dropped e
      | Received (Inr plaintext) \<Rightarrow> handle_datagram e plaintext
      | Received (Inl err) \<Rightarrow> receive_failed e err
      | Timer \<Rightarrow> run_timers e)"

end
