(* ===== verification/Driver_Safety.thy ===== *)
theory Driver_Safety
  imports Driver
begin

text \<open>
  The driver's invariant and what it gives: at most one application request is in flight, no request waits
  while the slot is free, correlation tokens are distinct, keep-alives are not duplicated, the status
  agrees with the outstanding session-control exchanges, a closed session holds nothing, and every reply
  channel is answered exactly once. The proofs use the weakest precondition of \<open>Effects\<close> with a flag
  that says whether the random generator is live; under the flag they also show that every call returns.
\<close>

section \<open>Liveness of the generator\<close>

primrec nth_token :: "('r, 's, 'p) p256 \<Rightarrow> nat \<Rightarrow> 'r \<Rightarrow> bytes" where
  "nth_token c 0 r = fst (fill_bytes c TOKEN_LENGTH r)"
| "nth_token c (Suc n) r = nth_token c n (snd (fill_bytes c TOKEN_LENGTH r))"

text \<open>Drawing tokens produces one outside any set of four, and scalars are not zero forever.\<close>

definition token_live :: "('r, 's, 'p) p256 \<Rightarrow> bool" where
  "token_live c \<longleftrightarrow>
     (\<forall>r toks. length toks \<le> 4 \<longrightarrow> (\<exists>n. nth_token c n r \<notin> set toks)) \<and> (\<forall>r. rng_live c r)"

lemma unused_token_fresh:
  assumes "unused_token c toks r = Some (tok, r')"
  shows "tok \<notin> set toks"
proof -
  have "fst (tok, r') \<notin> set toks"
    by (rule unused_token.raw_induct [where P = "\<lambda>c toks r x. fst x \<notin> set toks", OF _ assms])
      (auto split: prod.splits if_splits)
  then show ?thesis
    by simp
qed

lemma unused_token_total: "nth_token c n r \<notin> set toks \<Longrightarrow> \<exists>x. unused_token c toks r = Some x"
  by (induction n arbitrary: r; subst unused_token.simps) (auto split: prod.split)

lemma wp_assign_identity:
  assumes "L \<longrightarrow> token_live (pf_curve e)" "length (in_flight (exchanges d)) \<le> 4"
    and "\<And>tok r. tok \<notin> (\<lambda>p. token (pd_request p)) ` set (in_flight (exchanges d)) \<Longrightarrow>
      Q (m\<lparr>message_id := next_message_id d + 1, token := tok\<rparr>) (d\<lparr>next_message_id := next_message_id d + 1, d_rng := r\<rparr>)"
  shows "wp L (assign_identity e m) Q d"
proof (cases "unused_token (pf_curve e) (map (\<lambda>p. token (pd_request p)) (in_flight (exchanges d))) (d_rng d)")
  case None
  have "\<not> L"
  proof
    assume L
    then obtain n where "nth_token (pf_curve e) n (d_rng d) \<notin> set (map (\<lambda>p. token (pd_request p)) (in_flight (exchanges d)))"
      using assms(1,2) unfolding token_live_def by (metis length_map)
    with None unused_token_total show False
      by fastforce
  qed
  with None show ?thesis
    by (simp add: wp_def assign_identity_def Let_def)
next
  case (Some x)
  then obtain tok r where x: "x = (tok, r)" "tok \<notin> (\<lambda>p. token (pd_request p)) ` set (in_flight (exchanges d))"
    using unused_token_fresh by (metis list.set_map prod.exhaust)
  with Some assms(3) show ?thesis
    by (simp add: wp_def assign_identity_def Let_def)
qed

section \<open>The invariant\<close>

fun handles :: "Completion \<Rightarrow> nat multiset" where
  "handles (Caller _ r) = {#r#}"
| "handles (Petition r) = {#r#}"
| "handles (KeepAlive r) = (case r of None \<Rightarrow> {#} | Some i \<Rightarrow> {#i#})"
| "handles (Resign r) = (case r of None \<Rightarrow> {#} | Some i \<Rightarrow> {#i#})"

text \<open>The completions a state owes, with those a running call holds in its hands.\<close>

definition pool :: "Completion list \<Rightarrow> Exchanges \<Rightarrow> Completion multiset" where
  "pool cs x = mset cs + mset (map pd_completion (in_flight x)) + mset (map snd (queued x))"

definition many :: "(Completion \<Rightarrow> bool) \<Rightarrow> Completion list \<Rightarrow> Exchanges \<Rightarrow> nat" where
  "many P cs x = size (filter_mset P (pool cs x))"

definition owed :: "Completion list \<Rightarrow> Exchanges \<Rightarrow> nat multiset" where
  "owed cs x = \<Sum>\<^sub># (image_mset handles (pool cs x))"

definition exchanges_ok :: "Exchanges \<Rightarrow> bool" where
  "exchanges_ok x \<longleftrightarrow>
     application_in_flight x \<le> MAX_APPLICATION_IN_FLIGHT \<and>
     (\<forall>q \<in> set (queued x). is_application (snd q)) \<and>
     distinct (map (\<lambda>p. token (pd_request p)) (in_flight x)) \<and>
     (\<forall>p \<in> set (in_flight x). is_application (pd_completion p) \<or> pd_destination p = BorderAgent)"

definition control_ok :: "Completion list \<Rightarrow> Exchanges \<Rightarrow> SessionStatus \<Rightarrow> nat option \<Rightarrow> bool" where
  "control_ok cs x st ka \<longleftrightarrow>
     many is_petition cs x \<le> 1 \<and> many is_keep_alive cs x \<le> 1 \<and> many is_resign cs x \<le> 1 \<and>
     (\<not> status_closed st \<longrightarrow> (st = Petitioning \<longleftrightarrow> many is_petition cs x = 1) \<and>
        (many is_keep_alive cs x + many is_resign cs x > 0 \<longrightarrow> SessionStatus_session_id st \<noteq> None)) \<and>
     (ka \<noteq> None \<longrightarrow> SessionStatus_session_id st \<noteq> None \<and> many is_keep_alive cs x = 0)"

definition closed_ok ::
  "bool \<Rightarrow> Exchanges \<Rightarrow> SessionStatus \<Rightarrow> nat option \<Rightarrow> 'd option \<Rightarrow> (bytes \<Rightarrow> 's JoinerSession option) \<Rightarrow> bool" where
  "closed_ok b x st ka l js \<longleftrightarrow>
     (if status_closed st then in_flight x = [] \<and> queued x = [] \<and> l = None \<and> ka = None \<and> js = Map.empty
      else b \<longrightarrow> l = None \<longrightarrow> st = Idle)"

text \<open>
  A ledger: the reply channels handed out so far, and whether the link is known to be open unless the
  session is idle.
\<close>

type_synonym ledger = "nat multiset \<times> bool"

definition core :: "ledger \<Rightarrow> Completion list \<Rightarrow> ('r, 's, 'h, 'w, 'd) Driver \<Rightarrow> bool" where
  "core G cs d \<longleftrightarrow>
     image_mset fst (mset (d_replies d)) + owed cs (exchanges d) = fst G \<and> exchanges_ok (exchanges d) \<and>
     control_ok cs (exchanges d) (d_status d) (keep_alive_at d) \<and>
     closed_ok (snd G) (exchanges d) (d_status d) (keep_alive_at d) (d_link d) (joiner_sessions d)"

text \<open>A request waits only while another one is in flight.\<close>

definition busy :: "Completion list \<Rightarrow> Exchanges \<Rightarrow> bool" where
  "busy cs x \<longleftrightarrow> (queued x \<noteq> [] \<longrightarrow> application_in_flight x > 0 \<or> list_ex is_application cs)"

definition room :: "nat \<Rightarrow> nat \<Rightarrow> Exchanges \<Rightarrow> bool" where
  "room q p x \<longleftrightarrow> length (queued x) \<le> q \<and> length (in_flight x) + length (queued x) \<le> p"

lemma core_closed: "core G cs d \<Longrightarrow> is_closed d \<Longrightarrow> in_flight (exchanges d) = [] \<and> queued (exchanges d) = [] \<and> d_link d = None"
  by (simp add: core_def closed_ok_def is_closed_def)

lemma many_partition:
  "size M = size (filter_mset is_application M) + size (filter_mset is_petition M) +
     size (filter_mset is_keep_alive M) + size (filter_mset is_resign M)"
proof (induction M)
  case (add c M)
  then show ?case
    by (cases c) simp_all
qed simp

lemma size_filter_in_flight:
  "size (filter_mset P (mset (map pd_completion (in_flight x)))) \<le> many P cs x"
  by (simp add: many_def pool_def)

lemma size_filter_map: "size (filter_mset P (image_mset f (mset xs))) = length (filter (\<lambda>x. P (f x)) xs)"
  by (induction xs) simp_all

lemma core_in_flight_le: "core G cs d \<Longrightarrow> length (in_flight (exchanges d)) \<le> 4"
proof -
  assume c: "core G cs d"
  let ?M = "mset (map pd_completion (in_flight (exchanges d)))"
  have "size (filter_mset is_application ?M) = application_in_flight (exchanges d)"
    by (simp add: application_in_flight_def size_filter_map)
  then have "size (filter_mset is_application ?M) \<le> 1"
    using c by (simp add: core_def exchanges_ok_def MAX_APPLICATION_IN_FLIGHT_def)
  moreover have "size (filter_mset is_petition ?M) \<le> 1" "size (filter_mset is_keep_alive ?M) \<le> 1"
    "size (filter_mset is_resign ?M) \<le> 1"
    using c size_filter_in_flight [of _ "exchanges d" cs] unfolding core_def control_ok_def by (meson le_trans)+
  ultimately have "size ?M \<le> 4"
    using many_partition [of ?M] by linarith
  then show ?thesis
    by simp
qed

section \<open>Steps that keep the invariant\<close>

lemma pool_Cons: "pool (c # cs) x = add_mset c (pool cs x)"
  by (simp add: pool_def)

lemma many_Cons [simp]: "many P (c # cs) x = of_bool (P c) + many P cs x"
  by (simp add: many_def pool_Cons)

lemma owed_Cons [simp]: "owed (c # cs) x = handles c + owed cs x"
  by (simp add: owed_def pool_Cons)

lemma control_ok_drop:
  "control_ok (c # cs) x st ka \<Longrightarrow> \<not> is_petition c \<or> status_closed st \<Longrightarrow> control_ok cs x st ka"
  by (auto simp: control_ok_def)

lemma core_answered:
  assumes "core G (c # cs) d" "\<not> is_petition c \<or> is_closed d" "handles c = mset (map fst rs)"
  shows "core G cs (d\<lparr>d_replies := d_replies d @ rs\<rparr>)"
  using assms control_ok_drop [of c cs "exchanges d"] by (auto simp: core_def is_closed_def ac_simps)

lemma wp_oneshot_send [wp_simps]: "wp L (oneshot_send r v) Q = (\<lambda>d. Q () (d\<lparr>d_replies := d_replies d @ [(r, v)]\<rparr>))"
  by (simp add: oneshot_send_def wp_simps)

lemma wp_publish [wp_simps]: "wp L (publish ev) Q = (\<lambda>d. Q () (d\<lparr>d_events := d_events d @ [ev]\<rparr>))"
  by (simp add: publish_def wp_simps)

lemma wp_set_status [wp_simps]: "wp L (set_status st) Q = (\<lambda>d. Q () (d\<lparr>d_status := st\<rparr>))"
  by (simp add: set_status_def wp_simps)

lemma wp_oneshot_send_opt [wp_simps]:
  "wp L (oneshot_send_opt r v) Q =
     (\<lambda>d. Q () (d\<lparr>d_replies := d_replies d @ (case r of None \<Rightarrow> [] | Some i \<Rightarrow> [(i, v)])\<rparr>))"
  by (cases r) (simp_all add: oneshot_send_opt_def wp_simps)

lemma wp_now: "(\<And>t w. Q t (d\<lparr>d_world := w\<rparr>)) \<Longrightarrow> wp L (driver_now e) Q d"
  by (simp add: wp_def driver_now_def split: prod.split)

text \<open>Scheduling a keep-alive when none is outstanding.\<close>

lemma wp_schedule_keep_alive:
  assumes "\<And>w t. (t = keep_alive_at d \<or> t \<noteq> None \<and> Driver_session_id d \<noteq> None) \<Longrightarrow> Q () (d\<lparr>d_world := w, keep_alive_at := t\<rparr>)"
  shows "wp L (schedule_keep_alive e) Q d"
proof (cases "keep_alive (d_config d) = Automatic \<and> Driver_session_id d \<noteq> None")
  case True
  then have "wp L (r_then (driver_now e)
      (\<lambda>now. r_modify (\<lambda>d. d\<lparr>keep_alive_at := Some (now + keepalive_interval (d_config d))\<rparr>))) Q d"
    unfolding wp_then by (intro wp_now) (use assms in \<open>simp add: wp_simps\<close>)
  with True show ?thesis
    by (simp add: wp_def schedule_keep_alive_def)
next
  case False
  have "Q () d"
    using assms [of "keep_alive_at d" "d_world d"] by simp
  with False show ?thesis
    by (auto simp: wp_def schedule_keep_alive_def r_ret_def)
qed

lemma control_ok_scheduled:
  "control_ok cs x st ka \<Longrightarrow> many is_keep_alive cs x = 0 \<Longrightarrow> SessionStatus_session_id st \<noteq> None \<Longrightarrow>
     control_ok cs x st ka' \<and> \<not> status_closed st"
  by (cases st) (auto simp: control_ok_def)

lemma core_scheduled:
  assumes "core G cs d" "many is_keep_alive cs (exchanges d) = 0" "t = keep_alive_at d \<or> Driver_session_id d \<noteq> None"
  shows "core G cs (d\<lparr>d_world := w, keep_alive_at := t\<rparr>)"
  using assms control_ok_scheduled [of cs "exchanges d" "d_status d" "keep_alive_at d" t]
  by (auto simp: core_def closed_ok_def Driver_session_id_def)

lemma control_ok_petition:
  assumes "control_ok (Petition r # cs) x st0 ka" "\<not> status_closed st0" "\<not> status_closed st" "st \<noteq> Petitioning"
  shows "control_ok cs x st ka \<and> many is_keep_alive cs x = 0 \<and> ka = None"
  using assms by (auto simp: control_ok_def)

lemma wp_petition:
  assumes c: "core G (Petition r # cs) d"
    and Q: "\<And>d'. core G cs d' \<Longrightarrow> exchanges d' = exchanges d \<Longrightarrow> is_closed d' = is_closed d \<Longrightarrow> Q () d'"
  shows "wp L (r_then (petition_outcome e outcome) (\<lambda>result. oneshot_send r (PetitionReply result))) Q d"
proof (cases "is_closed d")
  case True
  then have "core G cs (d\<lparr>d_replies := d_replies d @ [(r, v)]\<rparr>)" for v
    using core_answered [OF c, of "[(r, v)]"] by simp
  then have "Q () (d\<lparr>d_replies := d_replies d @ [(r, v)]\<rparr>)" for v
    by (rule Q) (simp_all add: is_closed_def)
  with True show ?thesis
    by (simp add: wp_def petition_outcome_def Let_def r_then_def r_ret_def oneshot_send_def r_modify_def)
next
  case False
  let ?res = "petition_result outcome"
  have cp: "control_ok cs (exchanges d) st (keep_alive_at d) \<and> many is_keep_alive cs (exchanges d) = 0 \<and> keep_alive_at d = None"
    if "\<not> status_closed st" "st \<noteq> Petitioning" for st
    using that c False by (intro control_ok_petition [of r _ _ "d_status d"]) (auto simp: core_def is_closed_def)
  have petitioning: "d_status d = Petitioning"
    using c False by (auto simp: core_def control_ok_def is_closed_def)
  have "wp L (case ?res of
               Inr petition \<Rightarrow> r_then (set_status (Active (pr_session_id petition))) (\<lambda>_. schedule_keep_alive e)
             | Inl _ \<Rightarrow> set_status Connected)
             (\<lambda>_ d'. Q () (d'\<lparr>d_replies := d_replies d' @ [(r, PetitionReply ?res)]\<rparr>)) d"
  proof (cases ?res)
    case (Inl err)
    then show ?thesis
      using cp [of Connected] c False petitioning
      by (auto simp: wp_simps is_closed_def core_def closed_ok_def ac_simps intro!: Q)
  next
    case (Inr petition)
    then show ?thesis
      using cp [of "Active (pr_session_id petition)"] c False petitioning
      by (auto simp: wp_simps is_closed_def core_def closed_ok_def ac_simps control_ok_def intro!: Q wp_schedule_keep_alive)
  qed
  then show ?thesis
    using False by (auto simp: wp_def petition_outcome_def Let_def r_then_def r_ret_def oneshot_send_def r_modify_def split: option.splits prod.splits)
qed

text \<open>Sending touches the platform, the message counter and the open session only.\<close>

definition same :: "('r, 's, 'h, 'w, 'd) Driver \<Rightarrow> ('r, 's, 'h, 'w, 'd) Driver \<Rightarrow> bool" where
  "same d d' \<longleftrightarrow>
     d_replies d' = d_replies d \<and> d_status d' = d_status d \<and> exchanges d' = exchanges d \<and>
     keep_alive_at d' = keep_alive_at d \<and> joiner_sessions d' = joiner_sessions d \<and>
     (d_link d' = None \<longleftrightarrow> d_link d = None) \<and> handles_dropped d' = handles_dropped d \<and>
     joiner_handler d' = joiner_handler d \<and> d_config d' = d_config d"

lemma same_refl [simp]: "same d d"
  by (simp add: same_def)

lemma same_trans [trans]: "same d d' \<Longrightarrow> same d' d'' \<Longrightarrow> same d d''"
  by (auto simp: same_def)

lemma same_upd [simp]:
  "same d (d\<lparr>next_message_id := mid, d_rng := r\<rparr>)" "same d (d\<lparr>d_world := w\<rparr>)" "same d (d\<lparr>d_rng := r\<rparr>)"
  "same d (d\<lparr>d_answered := a\<rparr>)" "same d (d\<lparr>d_events := ev\<rparr>)" "same d (d\<lparr>d_prefix := pf, d_generation := g\<rparr>)"
  by (simp_all add: same_def)

lemma core_same: "same d d' \<Longrightarrow> core G cs d' = core G cs d"
  by (auto simp: same_def core_def closed_ok_def)

lemma same_simps:
  assumes "same d d'"
  shows "exchanges d' = exchanges d" "is_closed d' = is_closed d" "Link_is_open d' = Link_is_open d"
    "Driver_session_id d' = Driver_session_id d"
  using assms by (auto simp: same_def is_closed_def Link_is_open_def Driver_session_id_def)

lemma wp_identity:
  assumes "L \<longrightarrow> token_live (pf_curve e)" "core G cs d"
    and "\<And>m' d'. same d d' \<Longrightarrow> token m' \<notin> (\<lambda>p. token (pd_request p)) ` set (in_flight (exchanges d)) \<Longrightarrow>
      coap_ty m' = coap_ty m \<Longrightarrow> Q m' d'"
  shows "wp L (assign_identity e m) Q d"
  by (rule wp_assign_identity [OF assms(1) core_in_flight_le [OF assms(2)]]) (rule assms(3); simp)

lemma wp_wire_message:
  assumes "L \<longrightarrow> token_live (pf_curve e)" "core G cs d" "\<And>res d'. same d d' \<Longrightarrow> Q res d'"
  shows "wp L (wire_message e m dest) Q d"
  by (cases dest)
    (auto simp: wire_message_def wp_simps split: sum.split intro!: wp_identity [OF assms(1,2)] assms(3))

lemma wp_Link_send:
  assumes "\<And>res d'. same d d' \<Longrightarrow> (\<And>err. res = Inl err \<Longrightarrow> d_link d \<noteq> None \<Longrightarrow>
      (\<exists>x. CoapMessage_encode m = Inr x) \<Longrightarrow> is_transport_error err) \<Longrightarrow> Q res d'"
  shows "wp L (Link_send e m) Q d"
  by (auto simp: wp_def Link_send_def same_def map_err_def split: option.split sum.split prod.split intro!: assms)

lemma wp_send:
  assumes "L \<longrightarrow> token_live (pf_curve e)" "core G cs d" "\<And>res d'. same d d' \<Longrightarrow> Q res d'"
  shows "wp L (r_try (wire_message e m dest) (Link_send e)) Q d"
  unfolding wp_try
  by (rule wp_wire_message [OF assms(1,2)]) (auto split: sum.split intro!: wp_Link_send assms(3) intro: same_trans)

section \<open>The calls\<close>

fun call_pre :: "ledger \<Rightarrow> nat \<Rightarrow> nat \<Rightarrow> Completion list \<Rightarrow> DriverCall \<Rightarrow> ('r, 's, 'h, 'w, 'd) Driver \<Rightarrow> bool" where
  "call_pre G q p cs (CallComplete c outcome) d \<longleftrightarrow>
     core G (c # cs) d \<and> (is_application c \<or> busy cs (exchanges d)) \<and> room q p (exchanges d)"
| "call_pre G q p cs CallSendQueued d \<longleftrightarrow> core G cs d \<and> room q p (exchanges d)"
| "call_pre G q p cs (CallStart request c) d \<longleftrightarrow>
     core G (c # cs) d \<and> \<not> is_closed d \<and>
     (if is_application c then application_in_flight (exchanges d) = 0
      else busy cs (exchanges d) \<and> out_destination request = BorderAgent) \<and>
     length (queued (exchanges d)) \<le> q \<and> length (in_flight (exchanges d)) + length (queued (exchanges d)) < p"
| "call_pre G q p cs (CallEndSession reason) d \<longleftrightarrow> core G cs d \<and> room q p (exchanges d)"

definition call_post ::
  "ledger \<Rightarrow> nat \<Rightarrow> nat \<Rightarrow> Completion list \<Rightarrow> DriverCall \<Rightarrow> bool \<Rightarrow> ('r, 's, 'h, 'w, 'd) Driver \<Rightarrow> bool" where
  "call_post G q p cs call closed d \<longleftrightarrow>
     core G cs d \<and> busy cs (exchanges d) \<and> room q p (exchanges d) \<and>
     (closed \<or> (case call of CallEndSession _ \<Rightarrow> True | _ \<Rightarrow> False) \<longrightarrow> is_closed d)"

fun call_fuel :: "nat \<Rightarrow> bool \<Rightarrow> DriverCall \<Rightarrow> nat" where
  "call_fuel q closed (CallComplete _ _) = (if closed then 2 else 3 * q + 5)"
| "call_fuel q closed CallSendQueued = (if closed then 1 else 3 * q + 4)"
| "call_fuel q closed (CallStart _ _) = 3 * q + 6"
| "call_fuel q closed (CallEndSession _) = (if closed then 1 else 3)"

text \<open>What a function that performs calls has to guarantee, for the calls that fuel \<open>n\<close> is enough for.\<close>

definition calls_ok :: "bool \<Rightarrow> nat \<Rightarrow> ('r, 's, 'h, 'w, 'd) driver_calls \<Rightarrow> bool" where
  "calls_ok L n k \<longleftrightarrow>
     (\<forall>G q p cs call d. call_pre G q p cs call d \<longrightarrow> call_fuel q (is_closed d) call \<le> n \<longrightarrow>
        wp L (k call) (\<lambda>_. call_post G q p cs call (is_closed d)) d)"

lemma calls_okD:
  assumes "calls_ok L n k" "call_pre G q p cs call d" "call_fuel q (is_closed d) call \<le> n"
    and "\<And>d'. call_post G q p cs call (is_closed d) d' \<Longrightarrow> Q () d'"
  shows "wp L (k call) Q d"
proof -
  have "wp L (k call) (\<lambda>_. call_post G q p cs call (is_closed d)) d"
    using assms(1-3) unfolding calls_ok_def by blast
  then show ?thesis
    by (rule wp_mono) (use assms(4) in simp)
qed

lemma busy_closed: "core G cs d \<Longrightarrow> is_closed d \<Longrightarrow> busy cs' (exchanges d)"
  by (simp add: core_closed busy_def)

lemma busy_empty: "queued x = [] \<Longrightarrow> busy cs x"
  by (simp add: busy_def)

lemma ok_keep_alive_outcome:
  assumes k: "calls_ok L n k" and pre: "call_pre G q p cs (CallComplete (KeepAlive reply) outcome) d"
    and n: "(if is_closed d then 1 else 3) \<le> n"
  shows "wp L (Driver_keep_alive_outcome e k outcome reply) (\<lambda>_. call_post G q p cs (CallComplete (KeepAlive reply) outcome) (is_closed d)) d"
proof -
  let ?res = "keep_alive_result outcome" and ?post = "call_post G q p cs (CallComplete (KeepAlive reply) outcome) (is_closed d)"
  define rs where "rs = (case reply of None \<Rightarrow> [] | Some i \<Rightarrow> [(i, KeepAliveReply ?res)])"
  have c: "core G cs (d\<lparr>d_events := ev, d_replies := d_replies d @ rs\<rparr>)" for ev
  proof -
    have "core G cs (d\<lparr>d_replies := d_replies d @ rs\<rparr>)"
      using pre by (intro core_answered [of _ "KeepAlive reply"]) (auto simp: rs_def split: option.split)
    then show ?thesis
      by (simp add: core_def)
  qed
  have ka: "many is_keep_alive cs (exchanges d) = 0"
    using pre by (auto simp: core_def control_ok_def)
  have "wp L (case keep_alive_end ?res of None \<Rightarrow> schedule_keep_alive e | Some reason \<Rightarrow> k (CallEndSession reason))
      (\<lambda>_. ?post) (d\<lparr>d_events := ev, d_replies := d_replies d @ rs\<rparr>)" for ev
  proof (cases "keep_alive_end ?res")
    case None
    have sched: "?post (d\<lparr>d_events := ev, d_replies := d_replies d @ rs, d_world := w, keep_alive_at := t\<rparr>)"
      if "t = keep_alive_at d \<or> t \<noteq> None \<and> Driver_session_id d \<noteq> None" for w t
    proof -
      have "core G cs (d\<lparr>d_events := ev, d_replies := d_replies d @ rs, d_world := w, keep_alive_at := t\<rparr>)"
        using that ka by (intro core_scheduled [OF c]) (auto simp: Driver_session_id_def)
      then show ?thesis
        using pre by (auto simp: call_post_def is_closed_def)
    qed
    have "wp L (schedule_keep_alive e) (\<lambda>_. ?post) (d\<lparr>d_events := ev, d_replies := d_replies d @ rs\<rparr>)"
      by (rule wp_schedule_keep_alive, rule sched) (simp add: Driver_session_id_def)
    with None show ?thesis
      by simp
  next
    case (Some reason)
    have "wp L (k (CallEndSession reason)) (\<lambda>_. ?post) (d\<lparr>d_events := ev, d_replies := d_replies d @ rs\<rparr>)"
      by (rule calls_okD [OF k, of G q p cs]) (use c pre n in \<open>auto simp: call_post_def is_closed_def\<close>)
    with Some show ?thesis
      by simp
  qed
  from this [of "d_events d"] this [of "d_events d @ [KeepAliveResponse (projr ?res)]"] show ?thesis
    by (cases ?res; cases reply) (simp_all add: Driver_keep_alive_outcome_def Let_def wp_simps rs_def)
qed

lemma ok_complete:
  assumes k: "calls_ok L n k" and pre: "call_pre G q p cs (CallComplete c outcome) d"
    and n: "call_fuel q (is_closed d) (CallComplete c outcome) \<le> Suc n"
  shows "wp L (Driver_complete e k c outcome) (\<lambda>_. call_post G q p cs (CallComplete c outcome) (is_closed d)) d"
proof (cases c)
  case (Caller i r)
  have "core G cs (d\<lparr>d_replies := d_replies d @ [(r, v)]\<rparr>)" for v
    using pre Caller by (intro core_answered [of _ c]) auto
  then have "wp L (k CallSendQueued) (\<lambda>_. call_post G q p cs (CallComplete c outcome) (is_closed d))
      (d\<lparr>d_replies := d_replies d @ [(r, ExchangeReply outcome)]\<rparr>)"
    by (intro calls_okD [OF k, of G q p cs]) (use pre n in \<open>auto simp: call_post_def is_closed_def split: if_splits\<close>)
  then show ?thesis
    by (simp add: Driver_complete_def Caller wp_simps)
next
  case (Petition r)
  have "wp L (r_then (petition_outcome e outcome) (\<lambda>result. oneshot_send r (PetitionReply result)))
      (\<lambda>_. call_post G q p cs (CallComplete c outcome) (is_closed d)) d"
    by (rule wp_petition) (use pre Petition in \<open>auto simp: call_post_def\<close>)
  then show ?thesis
    by (simp add: Driver_complete_def Petition)
next
  case (KeepAlive r)
  then show ?thesis
    using ok_keep_alive_outcome [OF k, of G q p cs r outcome d e] pre n
    by (simp add: Driver_complete_def split: if_splits)
next
  case (Resign r)
  have "wp L (k (CallEndSession Resigned)) (\<lambda>_ d'. call_post G q p cs (CallComplete c outcome) (is_closed d)
      (d'\<lparr>d_replies := d_replies d' @ (case r of None \<Rightarrow> [] | Some i \<Rightarrow> [(i, ResignReply (resign_result outcome))])\<rparr>)) d"
  proof (rule calls_okD [OF k, of G q p "c # cs"])
    fix d'
    assume post: "call_post G q p (c # cs) (CallEndSession Resigned) (is_closed d) d'"
    let ?d = "d'\<lparr>d_replies := d_replies d' @ (case r of None \<Rightarrow> [] | Some i \<Rightarrow> [(i, ResignReply (resign_result outcome))])\<rparr>"
    have "core G cs ?d"
      by (rule core_answered [of _ c]) (use post Resign in \<open>auto simp: call_post_def split: option.split\<close>)
    moreover have "is_closed ?d"
      using post by (simp add: call_post_def is_closed_def)
    ultimately show "call_post G q p cs (CallComplete c outcome) (is_closed d) ?d"
      using post busy_closed [of G cs ?d] by (simp add: call_post_def)
  qed (use pre n in \<open>auto split: if_splits\<close>)
  then show ?thesis
    by (simp add: Driver_complete_def Resign wp_simps)
qed

lemma ok_complete_all:
  assumes k: "calls_ok L n k" and n: "(if b then 2 else 5) \<le> n"
    and "core G (cs' @ cs) d" "room 0 0 (exchanges d)" "b \<longrightarrow> is_closed d"
  shows "wp L (complete_all k err cs') (\<lambda>_ d'. core G cs d' \<and> room 0 0 (exchanges d') \<and> (b \<longrightarrow> is_closed d')) d"
  using assms(3-5)
proof (induction cs' arbitrary: d)
  case (Cons c cs')
  have "wp L (k (CallComplete c (Err err))) (\<lambda>_. wp L (complete_all k err cs')
      (\<lambda>_ d'. core G cs d' \<and> room 0 0 (exchanges d') \<and> (b \<longrightarrow> is_closed d'))) d"
  proof (rule calls_okD [OF k, of G 0 0 "cs' @ cs"])
    show "call_pre G 0 0 (cs' @ cs) (CallComplete c (Err err)) d"
      using Cons.prems by (simp add: room_def busy_def)
    show "call_fuel 0 (is_closed d) (CallComplete c (Err err)) \<le> n"
      using n Cons.prems(3) by (auto split: if_splits)
  qed (use Cons in \<open>auto simp: call_post_def\<close>)
  then show ?case
    by (simp add: wp_simps)
qed (simp add: wp_simps)

lemma pool_drain: "pool (map pd_completion (in_flight x) @ map snd (queued x) @ cs) \<lparr>in_flight = [], queued = []\<rparr> = pool cs x"
  by (simp add: pool_def)

lemma exchanges_cleared: "(x :: Exchanges)\<lparr>in_flight := [], queued := []\<rparr> = \<lparr>in_flight = [], queued = []\<rparr>"
  by (cases x) simp

lemma wp_fail_all:
  assumes k: "calls_ok L n k" and n: "(if b then 2 else 5) \<le> n"
    and core: "core G (map pd_completion (in_flight (exchanges d)) @ map snd (queued (exchanges d)) @ cs)
        (d\<lparr>exchanges := \<lparr>in_flight = [], queued = []\<rparr>\<rparr>)" and b: "b \<longrightarrow> is_closed d"
    and Q: "\<And>d'. core G cs d' \<Longrightarrow> exchanges d' = \<lparr>in_flight = [], queued = []\<rparr> \<Longrightarrow> (b \<longrightarrow> is_closed d') \<Longrightarrow> Q () d'"
  shows "wp L (Driver_fail_all k err) Q d"
proof -
  let ?cs = "map pd_completion (in_flight (exchanges d)) @ map snd (queued (exchanges d))"
  let ?d = "d\<lparr>exchanges := \<lparr>in_flight = [], queued = []\<rparr>\<rparr>"
  have "wp L (complete_all k err ?cs) Q ?d"
    by (rule wp_mono [OF ok_complete_all [OF k n, of G ?cs cs]])
      (use core b in \<open>auto simp: room_def is_closed_def intro!: Q\<close>)
  then show ?thesis
    by (simp add: Driver_fail_all_def wp_then) (simp add: wp_def drain_exchanges_def Exchanges_drain_def exchanges_cleared)
qed

lemma control_ok_closed:
  "control_ok cs x st ka \<Longrightarrow> pool cs' x' = pool cs x \<Longrightarrow> control_ok cs' x' (Closed r) None"
  by (auto simp: control_ok_def many_def)

lemma ok_end_session:
  assumes k: "calls_ok L n k" and pre: "call_pre G q p cs (CallEndSession reason) d"
    and n: "call_fuel q (is_closed d) (CallEndSession reason) \<le> Suc n"
  shows "wp L (Driver_end_session k reason) (\<lambda>_. call_post G q p cs (CallEndSession reason) (is_closed d)) d"
proof (cases "is_closed d")
  case True
  then show ?thesis
    using pre busy_closed [of G cs d] by (simp add: wp_def Driver_end_session_def r_ret_def call_post_def)
next
  case False
  let ?err = "if reason \<noteq> Resigned then error.SessionLost reason else error.SessionClosed"
  let ?post = "call_post G q p cs (CallEndSession reason) (is_closed d)"
  let ?d = "d\<lparr>d_status := Closed reason, keep_alive_at := None, joiner_sessions := Map.empty, d_link := None\<rparr>"
  let ?Q = "\<lambda>_ d'. if reason \<noteq> Resigned then ?post (d'\<lparr>d_events := d_events d' @ [SessionLost reason]\<rparr>) else ?post d'"
  have "wp L (Driver_fail_all k ?err) ?Q ?d"
  proof (rule wp_fail_all [OF k, where b = True])
    show "core G (map pd_completion (in_flight (exchanges ?d)) @ map snd (queued (exchanges ?d)) @ cs)
        (?d\<lparr>exchanges := \<lparr>in_flight = [], queued = []\<rparr>\<rparr>)"
      using pre control_ok_closed [OF _ pool_drain, of cs "exchanges d" "d_status d" "keep_alive_at d" reason]
      by (simp add: core_def closed_ok_def exchanges_ok_def application_in_flight_def MAX_APPLICATION_IN_FLIGHT_def
          owed_def pool_drain)
  qed (use False n in \<open>auto simp: is_closed_def call_post_def core_def busy_def room_def\<close>)
  then have "wp L (r_then (begin_end_session reason) (\<lambda>_. r_then (Driver_fail_all k ?err)
        (\<lambda>_. if reason \<noteq> Resigned then publish (SessionLost reason) else r_ret ()))) (\<lambda>_. ?post) d"
    by (cases "reason = Resigned") (simp_all add: wp_simps begin_end_session_def)
  with False show ?thesis
    by (simp add: wp_def Driver_end_session_def)
qed

lemma core_queued_head:
  assumes "core G cs d" "queued (exchanges d) = (request, c) # rest"
  shows "core G (c # cs) (d\<lparr>exchanges := (exchanges d)\<lparr>queued := rest\<rparr>\<rparr>)" "is_application c"
proof -
  have "pool (c # cs) ((exchanges d)\<lparr>queued := rest\<rparr>) = pool cs (exchanges d)"
    using assms(2) by (simp add: pool_def)
  with assms show "core G (c # cs) (d\<lparr>exchanges := (exchanges d)\<lparr>queued := rest\<rparr>\<rparr>)" "is_application c"
    by (auto simp: core_def control_ok_def many_def owed_def closed_ok_def exchanges_ok_def application_in_flight_def)
qed

lemma ok_send_queued:
  fixes d :: "('r, 's, 'h, 'w, 'd) Driver"
  assumes k: "calls_ok L n k" and pre: "call_pre G q p cs CallSendQueued d"
    and n: "call_fuel q (is_closed d) CallSendQueued \<le> Suc n"
  shows "wp L (Driver_send_queued k) (\<lambda>_. call_post G q p cs CallSendQueued (is_closed d)) d"
proof (cases "application_in_flight (exchanges d) < MAX_APPLICATION_IN_FLIGHT \<and> queued (exchanges d) \<noteq> []")
  case False
  then have "busy cs (exchanges d)"
    by (auto simp: busy_def MAX_APPLICATION_IN_FLIGHT_def)
  then have "call_post G q p cs CallSendQueued (is_closed d) d"
    using pre by (simp add: call_post_def)
  with False show ?thesis
    by (auto simp: wp_def Driver_send_queued_def r_ret_def)
next
  case True
  then obtain request c rest where head: "queued (exchanges d) = (request, c) # rest"
    by (cases "queued (exchanges d)") auto
  let ?d = "d\<lparr>exchanges := (exchanges d)\<lparr>queued := rest\<rparr>\<rparr>"
  let ?post = "call_post G q p cs CallSendQueued (is_closed d)"
  have core: "core G cs d" and room: "room q p (exchanges d)"
    using pre by simp_all
  have open': "\<not> is_closed d"
    using core_closed [OF core] head by auto
  obtain q' where q: "q = Suc q'"
    using room head by (cases q) (auto simp: room_def)
  have "wp L (k (CallStart request c))
      (\<lambda>_ d'. if is_closed d' then ?post d' else wp L (k CallSendQueued) (\<lambda>_. ?post) d') ?d"
  proof (rule calls_okD [OF k, of G q' p cs])
    show "call_pre G q' p cs (CallStart request c) ?d"
      using core_queued_head [OF core head] True room head open' q
      by (simp add: room_def is_closed_def application_in_flight_def MAX_APPLICATION_IN_FLIGHT_def)
    show "call_fuel q' (is_closed ?d) (CallStart request c) \<le> n"
      using n open' q by simp
    fix d' :: "('r, 's, 'h, 'w, 'd) Driver"
    assume "call_post G q' p cs (CallStart request c) (is_closed ?d) d'"
    then have post: "core G cs d'" "busy cs (exchanges d')" "room q' p (exchanges d')"
      by (simp_all add: call_post_def)
    have weak: "room q p x" if "room q' p x" for x
      using that q by (simp add: room_def)
    show "if is_closed d' then ?post d' else wp L (k CallSendQueued) (\<lambda>_. ?post) d'"
    proof (cases "is_closed d'")
      case True
      then show ?thesis
        using post weak by (simp add: call_post_def)
    next
      case False
      have "wp L (k CallSendQueued) (\<lambda>_. ?post) d'"
        by (rule calls_okD [OF k, of G q' p cs]) (use post False n open' q weak in \<open>auto simp: call_post_def\<close>)
      with False show ?thesis
        by simp
    qed
  qed
  then have "wp L (r_then pop_queued
              (\<lambda>_. r_then (k (CallStart request c))
              (\<lambda>_. r_then (r_get is_closed)
              (\<lambda>closed. if closed then r_ret () else k CallSendQueued)))) (\<lambda>_. ?post) d"
    by (simp add: wp_simps pop_queued_def head if_distrib [of "\<lambda>m. wp L m _"] if_distribR cong: if_cong)
  with True head show ?thesis
    by (simp add: wp_def Driver_send_queued_def)
qed

lemma core_push:
  assumes "core G (pd_completion p # cs) d" "\<not> is_closed d"
    and "token (pd_request p) \<notin> (\<lambda>p. token (pd_request p)) ` set (in_flight (exchanges d))"
    and "if is_application (pd_completion p) then application_in_flight (exchanges d) = 0 else pd_destination p = BorderAgent"
  shows "core G cs (d\<lparr>exchanges := (exchanges d)\<lparr>in_flight := in_flight (exchanges d) @ [p]\<rparr>\<rparr>)"
proof -
  have "pool cs ((exchanges d)\<lparr>in_flight := in_flight (exchanges d) @ [p]\<rparr>) = pool (pd_completion p # cs) (exchanges d)"
    by (simp add: pool_def)
  with assms show ?thesis
    by (auto simp: core_def control_ok_def many_def owed_def closed_ok_def exchanges_ok_def application_in_flight_def
        is_closed_def MAX_APPLICATION_IN_FLIGHT_def split: if_splits)
qed

lemma wp_track_pending:
  fixes d :: "('r, 's, 'h, 'w, 'd) Driver"
  assumes pre: "call_pre G q p cs (CallStart request c) d" and same: "same d d'"
    and fresh: "token m \<notin> (\<lambda>p. token (pd_request p)) ` set (in_flight (exchanges d))"
  shows "wp L (track_pending e m request c) (\<lambda>_. call_post G q p cs (CallStart request c) (is_closed d)) d'"
proof -
  have push: "call_post G q p cs (CallStart request c) (is_closed d)
      (d2\<lparr>exchanges := (exchanges d2)\<lparr>in_flight := in_flight (exchanges d2) @ [pd]\<rparr>\<rparr>)"
    if "same d' d2" "pd_completion pd = c" "pd_request pd = m" "pd_destination pd = out_destination request" for d2 pd
  proof -
    have s: "same d d2"
      using same that(1) same_trans by blast
    note x = same_simps [OF s]
    have "core G (pd_completion pd # cs) d2"
      using pre core_same [OF s] that(2) by simp
    then have "core G cs (d2\<lparr>exchanges := (exchanges d2)\<lparr>in_flight := in_flight (exchanges d2) @ [pd]\<rparr>\<rparr>)"
      by (rule core_push) (use pre that fresh x in \<open>auto split: if_splits\<close>)
    then show ?thesis
      using pre x that(2)
      by (auto simp: call_post_def busy_def room_def application_in_flight_def split: if_splits)
  qed
  have sched: "wp L (if coap_ty m = Confirmable then r_then (random_schedule e) (\<lambda>s. r_ret (Some s)) else r_ret None) Q d2"
    if "\<And>rt d3. same d2 d3 \<Longrightarrow> Q rt d3" for Q and d2 :: "('r, 's, 'h, 'w, 'd) Driver"
    using that by (auto simp: wp_simps) (auto simp: wp_def random_schedule_def split: prod.split)
  show ?thesis
    unfolding track_pending_def wp_then
    by (rule wp_now, rule sched) (auto simp: push_pending_def wp_simps intro!: push intro: same_trans [OF same_upd(2)])
qed

lemma call_pre_complete:
  assumes "call_pre G q p cs (CallStart request c) d" "same d d'"
  shows "call_pre G q p cs (CallComplete c outcome) d'"
  using assms core_same [OF assms(2)] same_simps [OF assms(2)] by (auto simp: room_def split: if_splits)

lemma call_post_closed: "call_post G q p cs (CallComplete c outcome) closed d \<Longrightarrow> \<not> closed' \<or> closed \<Longrightarrow>
    call_post G q p cs (CallStart request c) closed' d"
  by (auto simp: call_post_def)

lemma ok_fail_send:
  fixes d :: "('r, 's, 'h, 'w, 'd) Driver"
  assumes k: "calls_ok L n k" and pre: "call_pre G q p cs (CallComplete c outcome) d" and open': "\<not> is_closed d"
    and n: "3 * q + 5 \<le> n"
  shows "wp L (Driver_fail_send k c err) (\<lambda>_. call_post G q p cs (CallComplete c outcome) (is_closed d)) d"
proof (cases "is_transport_error err")
  case True
  have "wp L (k (CallEndSession (TransportFailed (error_to_string err))))
      (\<lambda>_. wp L (k (CallComplete c (Err err))) (\<lambda>_. call_post G q p cs (CallComplete c outcome) (is_closed d))) d"
  proof (rule calls_okD [OF k, of G q p "c # cs"])
    fix d' :: "('r, 's, 'h, 'w, 'd) Driver"
    assume post: "call_post G q p (c # cs) (CallEndSession (TransportFailed (error_to_string err))) (is_closed d) d'"
    then have d': "core G (c # cs) d'" "is_closed d'" "room q p (exchanges d')"
      by (simp_all add: call_post_def)
    then show "wp L (k (CallComplete c (Err err))) (\<lambda>_. call_post G q p cs (CallComplete c outcome) (is_closed d)) d'"
      by (intro calls_okD [OF k, of G q p cs]) (use n busy_closed [OF d'(1,2)] in \<open>auto simp: call_post_def\<close>)
  qed (use pre n open' in simp_all)
  with True show ?thesis
    by (simp add: Driver_fail_send_def wp_simps)
next
  case False
  have "wp L (k (CallComplete c (Err err))) (\<lambda>_. call_post G q p cs (CallComplete c outcome) (is_closed d)) d"
    by (rule calls_okD [OF k, of G q p cs]) (use pre n open' in \<open>auto simp: call_post_def\<close>)
  with False show ?thesis
    by (simp add: Driver_fail_send_def wp_simps)
qed

lemma ok_start:
  fixes d :: "('r, 's, 'h, 'w, 'd) Driver"
  assumes L: "L \<longrightarrow> token_live (pf_curve e)"
    and k: "calls_ok L n k" and pre: "call_pre G q p cs (CallStart request c) d"
    and n: "call_fuel q (is_closed d) (CallStart request c) \<le> Suc n"
  shows "wp L (Driver_start e k request c) (\<lambda>_. call_post G q p cs (CallStart request c) (is_closed d)) d"
proof -
  let ?post = "\<lambda>_ :: unit. call_post G q p cs (CallStart request c) (is_closed d)"
  have open': "\<not> is_closed d" and core: "core G (c # cs) d"
    using pre by simp_all
  have fail: "wp L (k (CallComplete c outcome)) ?post d'" "wp L (Driver_fail_send k c err) ?post d'" if "same d d'" for d' outcome err
  proof -
    note s = call_pre_complete [OF pre that] same_simps [OF that]
    show "wp L (k (CallComplete c outcome)) ?post d'"
      by (rule calls_okD [OF k s(1)]) (use n open' s in \<open>auto intro: call_post_closed\<close>)
    show "wp L (Driver_fail_send k c err) ?post d'"
      by (rule wp_mono [OF ok_fail_send [OF k s(1)]]) (use n open' s in \<open>auto intro: call_post_closed\<close>)
  qed
  show ?thesis
    unfolding Driver_start_def wp_then
  proof (rule wp_identity [OF L core])
    fix m :: CoapMessage and d1 :: "('r, 's, 'h, 'w, 'd) Driver"
    assume d1: "same d d1" "token m \<notin> (\<lambda>p. token (pd_request p)) ` set (in_flight (exchanges d))"
    have c1: "core G (c # cs) d1"
      using core core_same [OF d1(1)] by simp
    have sent: "wp L (Link_send e wire) (\<lambda>sent. wp L (case sent of
                     Inl err \<Rightarrow> Driver_fail_send k c err
                   | Inr _ \<Rightarrow>
                       if \<not> expect_response request then k (CallComplete c (Ok None))
                       else track_pending e m request c) ?post) d2" if d2: "same d1 d2" for wire d2
    proof (rule wp_Link_send)
      fix res :: "error + unit" and d3 :: "('r, 's, 'h, 'w, 'd) Driver"
      assume "same d2 d3"
      then have s: "same d d3"
        using d1 d2 same_trans by blast
      then show "wp L (case res of
                     Inl err \<Rightarrow> Driver_fail_send k c err
                   | Inr _ \<Rightarrow>
                       if \<not> expect_response request then k (CallComplete c (Ok None))
                       else track_pending e m request c) ?post d3"
        using fail [OF s] wp_track_pending [OF pre s d1(2)] by (cases res) auto
    qed
    show "wp L (wire_message e m (out_destination request))
       (\<lambda>x. wp L (case x of
            Inl err \<Rightarrow> k (CallComplete c (Err err))
          | Inr wire \<Rightarrow>
              r_then (Link_send e wire)
                (\<lambda>sent. case sent of
                     Inl err \<Rightarrow> Driver_fail_send k c err
                   | Inr _ \<Rightarrow>
                       if \<not> expect_response request then k (CallComplete c (Ok None))
                       else track_pending e m request c)) ?post) d1"
    proof (rule wp_wire_message [OF L c1])
      fix res :: "error + CoapMessage" and d2 :: "('r, 's, 'h, 'w, 'd) Driver"
      assume d2: "same d1 d2"
      show "wp L (case res of
            Inl err \<Rightarrow> k (CallComplete c (Err err))
          | Inr wire \<Rightarrow>
              r_then (Link_send e wire)
                (\<lambda>sent. case sent of
                     Inl err \<Rightarrow> Driver_fail_send k c err
                   | Inr _ \<Rightarrow>
                       if \<not> expect_response request then k (CallComplete c (Ok None))
                       else track_pending e m request c)) ?post d2"
        using fail(1) [OF same_trans [OF d1(1) d2]] sent [OF d2] by (cases res) (simp_all only: sum.case wp_then)
    qed
  qed
qed

lemma driver_call_ok:
  assumes "L \<longrightarrow> token_live (pf_curve e)"
  shows "calls_ok L n (driver_call e n :: ('r, 's, 'h, 'w, 'd) driver_calls)"
proof (induction n)
  case 0
  have "call_fuel q b call > 0" for q b call
    by (cases call) auto
  then show ?case
    unfolding calls_ok_def by (metis le_zero_eq not_gr_zero)
next
  case (Suc n)
  show ?case
    unfolding calls_ok_def
  proof (intro allI impI)
    fix G q p cs call and d :: "('r, 's, 'h, 'w, 'd) Driver"
    assume "call_pre G q p cs call d" "call_fuel q (is_closed d) call \<le> Suc n"
    then show "wp L (driver_call e (Suc n) call) (\<lambda>_. call_post G q p cs call (is_closed d)) d"
      using ok_complete [OF Suc] ok_send_queued [OF Suc] ok_start [OF assms Suc] ok_end_session [OF Suc]
      by (cases call) simp_all
  qed
qed

end
