(* ===== verification/Driver_Runs.thy ===== *)
theory Driver_Runs
  imports Driver_Safety
begin

text \<open>
  Every wake of the driver loop keeps the invariant of \<open>Driver_Safety\<close>, and runs of the driver as a step
  relation over wakes. The properties of the driver are stated here.
\<close>

section \<open>Calls from outside\<close>

definition steady :: "ledger \<Rightarrow> ('r, 's, 'h, 'w, 'd) Driver \<Rightarrow> bool" where
  "steady G d \<longleftrightarrow> core G [] d \<and> busy [] (exchanges d)"

lemma wp_calls:
  assumes L: "L \<longrightarrow> token_live (pf_curve e)" and pre: "call_pre G (length (queued (exchanges d))) p cs call d"
    and Q: "\<And>d'. call_post G (length (queued (exchanges d))) p cs call (is_closed d) d' \<Longrightarrow> Q () d'"
  shows "wp L (calls e call) Q d"
proof -
  have "call_fuel (length (queued (exchanges d))) (is_closed d) call \<le> driver_fuel d"
    by (cases call) (auto simp: driver_fuel_def)
  then have "wp L (driver_call e (driver_fuel d) call) Q d"
    by (rule calls_okD [OF driver_call_ok [OF L] pre]) (rule Q)
  then show ?thesis
    by (simp add: wp_def calls_def)
qed

lemma wp_complete:
  assumes L: "L \<longrightarrow> token_live (pf_curve e)" and "core G [c] d" "is_application c \<or> busy [] (exchanges d)"
    and Q: "\<And>d'. steady G d' \<Longrightarrow> (is_closed d \<longrightarrow> is_closed d') \<Longrightarrow>
      length (in_flight (exchanges d')) + length (queued (exchanges d')) \<le>
        length (in_flight (exchanges d)) + length (queued (exchanges d)) \<Longrightarrow> Q () d'"
  shows "wp L (calls e (CallComplete c outcome)) Q d"
  by (rule wp_calls [OF L, of G d "length (in_flight (exchanges d)) + length (queued (exchanges d))" "[]"])
    (use assms(2,3) in \<open>auto simp: room_def call_post_def steady_def intro!: Q\<close>)

lemma wp_send_queued:
  assumes L: "L \<longrightarrow> token_live (pf_curve e)" and "core G [] d" and Q: "\<And>d'. steady G d' \<Longrightarrow> Q () d'"
  shows "wp L (calls e CallSendQueued) Q d"
  by (rule wp_calls [OF L, of G d "length (in_flight (exchanges d)) + length (queued (exchanges d))" "[]"])
    (use assms(2) in \<open>auto simp: room_def call_post_def steady_def intro!: Q\<close>)

lemma wp_end_session:
  assumes L: "L \<longrightarrow> token_live (pf_curve e)" and "core G cs d"
    and Q: "\<And>d'. core G cs d' \<Longrightarrow> is_closed d' \<Longrightarrow> Q () d'"
  shows "wp L (calls e (CallEndSession reason)) Q d"
  by (rule wp_calls [OF L, of G d "length (in_flight (exchanges d)) + length (queued (exchanges d))" cs])
    (use assms(2) in \<open>auto simp: room_def call_post_def intro!: Q\<close>)

lemma wp_start_control:
  assumes L: "L \<longrightarrow> token_live (pf_curve e)" and "core G [c] d" "busy [] (exchanges d)" "\<not> is_closed d"
    "\<not> is_application c" "out_destination request = BorderAgent" and Q: "\<And>d'. steady G d' \<Longrightarrow> Q () d'"
  shows "wp L (calls e (CallStart request c)) Q d"
  by (rule wp_calls [OF L, of G d "Suc (length (in_flight (exchanges d)) + length (queued (exchanges d)))" "[]"])
    (use assms(2-6) in \<open>auto simp: call_post_def steady_def intro!: Q\<close>)

lemma steady_closed: "core G [] d \<Longrightarrow> is_closed d \<Longrightarrow> steady G d"
  by (simp add: steady_def busy_closed)

lemma steady_same: "same d d' \<Longrightarrow> steady G d' = steady G d"
  by (simp add: steady_def core_same same_simps)

section \<open>Bookkeeping\<close>

lemma core_issue:
  "core (G, b) cs d \<Longrightarrow> core (add_mset r G, b) cs (d\<lparr>d_replies := d_replies d @ [(r, v)]\<rparr>)"
  by (simp add: core_def)

lemma steady_issue:
  "steady (G, b) d \<Longrightarrow> steady (add_mset r G, b) (d\<lparr>d_replies := d_replies d @ [(r, v)]\<rparr>)"
  by (simp add: steady_def core_issue)

lemma many_in_flight:
  assumes "exchanges_ok x" "\<And>c. P c \<Longrightarrow> \<not> is_application c"
  shows "many P [] x = length (filter (\<lambda>p. P (pd_completion p)) (in_flight x))"
proof -
  have "filter (\<lambda>q. P (snd q)) (queued x) = []"
    using assms by (auto simp: exchanges_ok_def filter_empty_conv)
  then show ?thesis
    by (simp add: many_def pool_def size_filter_map)
qed

lemma not_outstanding:
  assumes "exchanges_ok x"
  shows "\<not> keep_alive_outstanding x \<Longrightarrow> many is_keep_alive [] x = 0" "\<not> resigning x \<Longrightarrow> many is_resign [] x = 0"
proof -
  have *: "\<not> is_application c" if "is_keep_alive c \<or> is_resign c" for c
    using that by (cases c) auto
  show "\<not> keep_alive_outstanding x \<Longrightarrow> many is_keep_alive [] x = 0" "\<not> resigning x \<Longrightarrow> many is_resign [] x = 0"
    using many_in_flight [OF assms] * by (auto simp: keep_alive_outstanding_def resigning_def list_ex_iff)
qed

text \<open>Taking a new session-control exchange in hand.\<close>

lemma core_keep_alive:
  assumes "core (G, b) [] d" "Driver_session_id d \<noteq> None" "many is_keep_alive [] (exchanges d) = 0"
  shows "core (handles (KeepAlive r) + G, b) [KeepAlive r] (d\<lparr>keep_alive_at := None\<rparr>)" "\<not> is_closed d"
  using assms by (cases "d_status d"; force simp: core_def control_ok_def closed_ok_def Driver_session_id_def is_closed_def)+

lemma core_resign:
  assumes "core (G, b) [] d" "Driver_session_id d \<noteq> None" "\<not> resigning (exchanges d)"
  shows "core (handles (Resign r) + G, b) [Resign r] (d\<lparr>keep_alive_at := None\<rparr>)" "\<not> is_closed d"
proof -
  have "many is_resign [] (exchanges d) = 0"
    using assms by (intro not_outstanding) (auto simp: core_def)
  then show "core (handles (Resign r) + G, b) [Resign r] (d\<lparr>keep_alive_at := None\<rparr>)" "\<not> is_closed d"
    using assms by (cases "d_status d"; force simp: core_def control_ok_def closed_ok_def Driver_session_id_def is_closed_def)+
qed

lemma core_petition:
  assumes "core (G, b) [] d" "petition_refusal (d_status d) = None" "d_link d \<noteq> None"
  shows "core (add_mset r G, b) [Petition r] (d\<lparr>d_status := Petitioning\<rparr>)"
  using assms by (cases "d_status d"; force simp: core_def control_ok_def closed_ok_def)

text \<open>Opening the link.\<close>

lemma wp_Link_reopen:
  "(\<And>err w. Q (Err err) (d\<lparr>d_link := None, d_world := w\<rparr>)) \<Longrightarrow>
   (\<And>l w. Q (Ok ()) (d\<lparr>d_link := Some l, d_world := w\<rparr>)) \<Longrightarrow> wp L (Link_reopen e) Q d"
  by (auto simp: wp_def Link_reopen_def split: sum.split prod.split)

lemma wp_ensure_open:
  assumes "steady (G, True) d" "\<not> is_closed d"
    and Q: "\<And>res d'. steady (G, True) d' \<Longrightarrow> \<not> is_closed d' \<Longrightarrow> exchanges d' = exchanges d \<Longrightarrow> (res = Ok () \<longrightarrow> d_link d' \<noteq> None) \<Longrightarrow>
      (petition_refusal (d_status d) = None \<longrightarrow> petition_refusal (d_status d') = None) \<Longrightarrow> Q res d'"
  shows "wp L (ensure_open e) Q d"
proof (cases "d_link d")
  case None
  have idle: "d_status d = Idle"
    using None assms(1,2) by (auto simp: steady_def core_def closed_ok_def is_closed_def)
  have "Q (Err err) (d\<lparr>d_link := None, d_world := w\<rparr>)" for err w
    by (rule Q) (use assms(1,2) None idle in \<open>auto simp: steady_def core_def is_closed_def\<close>)
  moreover have "Q (Ok ()) (d\<lparr>d_link := Some l, d_world := w, d_answered := a, d_status := Connected\<rparr>)" for l w a
    by (rule Q) (use assms(1,2) None idle in \<open>auto simp: steady_def core_def closed_ok_def control_ok_def is_closed_def\<close>)
  ultimately show ?thesis
    using None
    by (auto simp: ensure_open_def wp_simps Link_is_open_def intro!: wp_Link_reopen)
next
  case (Some l)
  then show ?thesis
    using Q [of d "Ok ()"] assms(1,2) by (simp add: ensure_open_def wp_simps Link_is_open_def)
qed

section \<open>Commands\<close>

lemma core_queue:
  assumes "core (G, b) [] d" "\<not> is_closed d"
  shows "core (add_mset r G, b) [] (d\<lparr>exchanges := (exchanges d)\<lparr>queued := queued (exchanges d) @ [(request, Caller i r)]\<rparr>\<rparr>)"
proof -
  have "pool [] ((exchanges d)\<lparr>queued := queued (exchanges d) @ [(request, Caller i r)]\<rparr>) =
      add_mset (Caller i r) (pool [] (exchanges d))"
    by (simp add: pool_def)
  with assms show ?thesis
    by (auto simp: core_def control_ok_def many_def owed_def closed_ok_def exchanges_ok_def application_in_flight_def is_closed_def)
qed

lemma wp_submit:
  assumes L: "L \<longrightarrow> token_live (pf_curve e)" and "steady (G, True) d" "\<not> is_closed d"
    and Q: "\<And>d'. steady (add_mset r G, True) d' \<Longrightarrow> Q () d'"
  shows "wp L (Driver_submit e request (Caller i r)) Q d"
  unfolding Driver_submit_def wp_simps
  by (rule wp_send_queued [OF L core_queue]) (use assms(2,3) Q in \<open>auto simp: steady_def\<close>)

lemma wp_send_keep_alive:
  assumes L: "L \<longrightarrow> token_live (pf_curve e)" and s: "steady (G, True) d"
    and ka: "Driver_session_id d \<noteq> None" "many is_keep_alive [] (exchanges d) = 0"
    and Q: "\<And>d'. steady (handles (KeepAlive r) + G, True) d' \<Longrightarrow> Q () d'"
  shows "wp L (send_keep_alive e (KeepAlive r)) Q d"
proof -
  obtain i where i: "Driver_session_id d = Some i"
    using ka(1) by auto
  have c: "core (handles (KeepAlive r) + G, True) [KeepAlive r] (d\<lparr>keep_alive_at := None\<rparr>)" "\<not> is_closed d"
    using core_keep_alive(1) [OF _ ka, of G True r] core_keep_alive(2) [OF _ ka, of G True] s by (simp_all add: steady_def del: handles.simps)
  have b: "busy [] (exchanges d)"
    using s by (simp add: steady_def)
  have "wp L (calls e (CallStart (control_request m CommissionerOperation.KeepAlive) (KeepAlive r))) Q (d\<lparr>keep_alive_at := None\<rparr>)" for m
    by (rule wp_start_control [OF L c(1)]) (use b c(2) Q in \<open>auto simp: is_closed_def control_request_def\<close>)
  moreover have "wp L (calls e (CallComplete (KeepAlive r) (Err err))) Q (d\<lparr>keep_alive_at := None\<rparr>)" for err
    by (rule wp_complete [OF L c(1)]) (use b Q in auto)
  ultimately show ?thesis
    by (simp add: send_keep_alive_def wp_simps i split: sum.split)
qed

lemma core_answered_opt:
  "core (G, b) cs d \<Longrightarrow>
    core (handles (Resign r) + G, b) cs (d\<lparr>d_replies := d_replies d @ (case r of None \<Rightarrow> [] | Some i \<Rightarrow> [(i, v)])\<rparr>)"
  by (cases r) (simp_all add: core_def)

lemma wp_resign:
  assumes L: "L \<longrightarrow> token_live (pf_curve e)" and s: "steady (G, True) d" and r: "\<not> resigning (exchanges d)"
    and Q: "\<And>d'. steady (handles (Resign r) + G, True) d' \<Longrightarrow> Q () d'"
  shows "wp L (Driver_resign e r) Q d"
proof (cases "Driver_session_id d")
  case None
  have "wp L (calls e (CallEndSession Resigned))
      (\<lambda>_ d'. Q () (d'\<lparr>d_replies := d_replies d' @ (case r of None \<Rightarrow> [] | Some i \<Rightarrow> [(i, ResignReply (Ok ()))])\<rparr>)) d"
    by (rule wp_end_session [OF L, of "(G, True)" "[]"])
      (use s in \<open>auto simp: steady_def is_closed_def intro!: Q steady_closed core_answered_opt simp del: handles.simps\<close>)
  with None show ?thesis
    by (simp add: Driver_resign_def wp_simps)
next
  case (Some i)
  have c: "core (handles (Resign r) + G, True) [Resign r] (d\<lparr>keep_alive_at := None\<rparr>)" "\<not> is_closed d"
    using core_resign(1) [OF _ _ r, of G True r] core_resign(2) [OF _ _ r, of G True] s Some by (simp_all add: steady_def del: handles.simps)
  have b: "busy [] (exchanges d)"
    using s by (simp add: steady_def)
  have "wp L (calls e (CallStart (control_request m CommissionerOperation.KeepAlive) (Resign r))) Q (d\<lparr>keep_alive_at := None\<rparr>)" for m
    by (rule wp_start_control [OF L c(1)]) (use b c(2) Q in \<open>auto simp: is_closed_def control_request_def\<close>)
  moreover have "wp L (calls e (CallComplete (Resign r) (Err err))) Q (d\<lparr>keep_alive_at := None\<rparr>)" for err
    by (rule wp_complete [OF L c(1)]) (use b Q in auto)
  ultimately show ?thesis
    by (simp add: Driver_resign_def wp_simps Some split: sum.split)
qed

lemma wp_petition_command:
  assumes L: "L \<longrightarrow> token_live (pf_curve e)" and s: "steady (G, True) d" "\<not> is_closed d"
    and Q: "\<And>d'. steady (add_mset r G, True) d' \<Longrightarrow> Q () d'"
  shows "wp L (Driver_petition e r) Q d"
proof -
  have reply: "Q () (d'\<lparr>d_replies := d_replies d' @ [(r, v)]\<rparr>)" if "steady (G, True) d'" for d' v
    using that by (intro Q steady_issue)
  have start: "wp L (calls e (CallStart (control_request m CommissionerOperation.Petition) (Petition r))) Q (d'\<lparr>d_status := Petitioning\<rparr>)"
    if d': "steady (G, True) d'" "d_link d' \<noteq> None" "petition_refusal (d_status d') = None" for m d'
    by (rule wp_start_control [OF L core_petition])
      (use d' Q in \<open>auto simp: steady_def is_closed_def control_request_def\<close>)
  show ?thesis
  proof (cases "petition_refusal (d_status d)")
    case None
    have "wp L (ensure_open e) (\<lambda>opened. wp L (case opened of
                     Inl err \<Rightarrow> oneshot_send r (PetitionReply (Err err))
                   | Inr _ \<Rightarrow>
                       r_then (r_get (\<lambda>d. petition_request 0 [] (commissioner_id (d_config d))))
                         (\<lambda>request. case request of
                              Inl err \<Rightarrow> oneshot_send r (PetitionReply (Err err))
                            | Inr m \<Rightarrow>
                                r_then (set_status Petitioning)
                                  (\<lambda>_. calls e (CallStart (control_request m CommissionerOperation.Petition)
                                     (Petition r))))) Q) d"
      by (rule wp_ensure_open [OF s])
        (use None in \<open>auto simp: wp_simps intro!: reply start split: sum.split\<close>)
    with None show ?thesis
      by (simp add: Driver_petition_def wp_simps)
  next
    case (Some why)
    then show ?thesis
      using reply [OF s(1)] by (simp add: Driver_petition_def wp_simps)
  qed
qed

section \<open>Timers\<close>

lemma core_remove:
  assumes "core G cs d" "i < length (in_flight (exchanges d))"
  shows "core G (pd_completion (in_flight (exchanges d) ! i) # cs)
    (d\<lparr>exchanges := (exchanges d)\<lparr>in_flight := remove_at i (in_flight (exchanges d))\<rparr>\<rparr>)"
proof -
  let ?x = "exchanges d" and ?y = "(exchanges d)\<lparr>in_flight := remove_at i (in_flight (exchanges d))\<rparr>"
  have pool: "pool (pd_completion (in_flight ?x ! i) # cs) ?y = pool cs ?x"
    using mset_map_remove_at [OF assms(2), of pd_completion] by (simp add: pool_def)
  have "application_in_flight ?y \<le> application_in_flight ?x"
    by (subst (2) application_in_flight_def, subst remove_at_split [OF assms(2)])
      (simp add: application_in_flight_def remove_at_def)
  then have "exchanges_ok ?y"
    using assms(1) set_remove_at [of i "in_flight ?x"]
    by (auto simp: core_def exchanges_ok_def distinct_remove_at intro: le_trans)
  with assms pool show ?thesis
    by (auto simp: core_def control_ok_def many_def owed_def closed_ok_def)
qed

lemma busy_remove:
  assumes "busy [] x" "i < length (in_flight x)"
  shows "is_application (pd_completion (in_flight x ! i)) \<or> busy [] (x\<lparr>in_flight := remove_at i (in_flight x)\<rparr>)"
proof (cases "is_application (pd_completion (in_flight x ! i))")
  case False
  have "application_in_flight x = application_in_flight (x\<lparr>in_flight := remove_at i (in_flight x)\<rparr>)"
    by (subst application_in_flight_def, subst remove_at_split [OF assms(2)])
      (simp add: application_in_flight_def remove_at_def False)
  with assms(1) show ?thesis
    by (simp add: busy_def)
qed simp

definition same_exchange :: "(Pending \<Rightarrow> Pending) \<Rightarrow> bool" where
  "same_exchange f \<longleftrightarrow>
     (\<forall>p. pd_completion (f p) = pd_completion p \<and> pd_request (f p) = pd_request p \<and> pd_destination (f p) = pd_destination p)"

lemma steady_update:
  assumes "same_exchange f" "steady G d"
  shows "steady G (d\<lparr>exchanges := (exchanges d)\<lparr>in_flight := (in_flight (exchanges d))[i := f (in_flight (exchanges d) ! i)]\<rparr>\<rparr>)"
proof (cases "i < length (in_flight (exchanges d))")
  case True
  let ?xs = "in_flight (exchanges d)" and ?ys = "(in_flight (exchanges d))[i := f (in_flight (exchanges d) ! i)]"
  have m: "map g ?ys = map g ?xs" if "\<And>p. g (f p) = g p" for g :: "Pending \<Rightarrow> 'x"
    using that True by (simp add: map_update list_update_same_conv)
  have c: "map pd_completion ?ys = map pd_completion ?xs"
    "map (\<lambda>p. token (pd_request p)) ?ys = map (\<lambda>p. token (pd_request p)) ?xs"
    "map (\<lambda>p. (pd_completion p, pd_destination p)) ?ys = map (\<lambda>p. (pd_completion p, pd_destination p)) ?xs"
    using assms(1) by (intro m; simp add: same_exchange_def)+
  have "length (filter P (map pd_completion ?ys)) = length (filter P (map pd_completion ?xs))" for P
    by (simp only: c)
  then have a: "application_in_flight ((exchanges d)\<lparr>in_flight := ?ys\<rparr>) = application_in_flight (exchanges d)"
    by (simp add: application_in_flight_def filter_map o_def)
  have "(\<forall>p\<in>set ?ys. R (pd_completion p, pd_destination p)) = (\<forall>p\<in>set ?xs. R (pd_completion p, pd_destination p))" for R
    using arg_cong [OF c(3), of "list_all R"] by (simp add: list_all_iff)
  from this [of "\<lambda>(c, ds). is_application c \<or> ds = BorderAgent"] c a assms(2) True show ?thesis
    by (auto simp: steady_def core_def control_ok_def many_def owed_def pool_def closed_ok_def exchanges_ok_def busy_def
        simp flip: mset_map)
qed (use assms(2) in \<open>simp add: list_update_beyond\<close>)

lemma same_exchange_retransmitted: "same_exchange (retransmitted now)"
  by (simp add: same_exchange_def retransmitted_def Let_def split: option.split)

lemma wp_exchange_timers:
  fixes d :: "('r, 's, 'h, 'w, 'd) Driver"
  assumes L: "L \<longrightarrow> token_live (pf_curve e)" and s: "steady G d" "\<not> is_closed d"
    and p: "length (in_flight (exchanges d)) + length (queued (exchanges d)) \<le> p" and n: "Suc (2 * p - index) \<le> n"
    and Q: "\<And>d'. steady G d' \<Longrightarrow> Q () d'"
  shows "wp L (exchange_timers e n now index) Q d"
  using s p n
proof (induction n arbitrary: d p index)
  case (Suc n)
  let ?x = "exchanges d"
  show ?case
  proof (cases "index < length (in_flight ?x)")
    case False
    have "wp L (calls e CallSendQueued) Q d"
      by (rule wp_send_queued [OF L]) (use Suc.prems(1) Q in \<open>auto simp: steady_def\<close>)
    with False show ?thesis
      by (simp add: wp_def)
  next
    case True
    define pd where "pd = in_flight ?x ! index"
    have b: "index < p"
      using True Suc.prems(3) by simp
    consider (expired) "deadline pd \<le> now" | (retry) t where "\<not> deadline pd \<le> now" "retry_at pd = Some t" "t \<le> now"
      | (wait) "\<not> deadline pd \<le> now" "case retry_at pd of None \<Rightarrow> True | Some t \<Rightarrow> \<not> t \<le> now"
      by (cases "retry_at pd") (auto intro: not_le_imp_less)
    then show ?thesis
    proof cases
      case expired
      let ?d = "d\<lparr>exchanges := ?x\<lparr>in_flight := remove_at index (in_flight ?x)\<rparr>\<rparr>"
      have "wp L (calls e (CallComplete (pd_completion pd) (Err (error.Timeout ''MeshCoP exchange timed out''))))
          (\<lambda>_ d'. if is_closed d' then Q () d' else wp L (exchange_timers e n now index) Q d') ?d"
      proof (rule wp_complete [OF L, of G])
        show "core G [pd_completion pd] ?d"
          unfolding pd_def by (rule core_remove) (use Suc.prems(1) True in \<open>auto simp: steady_def\<close>)
        show "is_application (pd_completion pd) \<or> busy [] (exchanges ?d)"
          using busy_remove [OF _ True] Suc.prems(1) by (simp add: pd_def steady_def)
        fix d' :: "('r, 's, 'h, 'w, 'd) Driver"
        assume "steady G d'" "length (in_flight (exchanges d')) + length (queued (exchanges d'))
            \<le> length (in_flight (exchanges ?d)) + length (queued (exchanges ?d))"
        then show "if is_closed d' then Q () d' else wp L (exchange_timers e n now index) Q d'"
          using Suc.IH [of d' "p - 1" index] Suc.prems(3,4) True b Q by (auto simp: length_remove_at)
      qed
      then have "wp L (r_then (remove_pending index)
            (\<lambda>_. r_then (calls e (CallComplete (pd_completion pd) (Err (error.Timeout ''MeshCoP exchange timed out''))))
            (\<lambda>_. r_then (r_get is_closed)
            (\<lambda>closed. if closed then r_ret () else exchange_timers e n now index)))) Q d"
        by (simp add: wp_simps remove_pending_def if_distrib [of "\<lambda>m. wp L m Q"] if_distribR cong: if_cong)
      with expired True show ?thesis
        by (simp add: wp_def Let_def pd_def)
    next
      case retry
      have "wp L (r_then (resend_pending e pd)
            (\<lambda>failure. case failure of
                 Some err \<Rightarrow> transport_failed e (error_to_string err)
               | None \<Rightarrow>
                   r_then (update_pending index (retransmitted now)) (\<lambda>_. exchange_timers e n now (index + 1)))) Q d"
        unfolding wp_then resend_pending_def
      proof (rule wp_send [OF L, of G "[]"])
        fix res :: "error + unit" and d2 :: "('r, 's, 'h, 'w, 'd) Driver"
        assume same: "same d d2"
        have s2: "steady G d2" "\<not> is_closed d2" "exchanges d2 = ?x"
          using Suc.prems steady_same [OF same] same_simps [OF same] by simp_all
        have fail: "wp L (transport_failed e err) Q d2" for err
          unfolding transport_failed_def
          by (rule wp_end_session [OF L, of G "[]"]) (use s2(1) in \<open>simp add: steady_def\<close>, blast intro: Q steady_closed)
        have "wp L (exchange_timers e n now (index + 1)) Q
            (d2\<lparr>exchanges := ?x\<lparr>in_flight := (in_flight ?x)[index := retransmitted now (in_flight ?x ! index)]\<rparr>\<rparr>)"
          using Suc.IH [of _ p "index + 1"] steady_update [OF same_exchange_retransmitted s2(1), of index now] s2 Suc.prems(3,4) b
          by (simp add: is_closed_def)
        with fail show "wp L (r_ret (case res of Inl err \<Rightarrow> if is_transport_error err then Some err else None | Inr _ \<Rightarrow> None))
            (\<lambda>x. wp L (case x of
                 Some err \<Rightarrow> transport_failed e (error_to_string err)
               | None \<Rightarrow>
                   r_then (update_pending index (retransmitted now)) (\<lambda>_. exchange_timers e n now (index + 1))) Q) d2"
          by (auto simp: wp_simps update_pending_def s2(3) split: sum.split)
      qed (use Suc.prems(1) in \<open>simp add: steady_def\<close>)
      with retry True show ?thesis
        by (simp add: wp_def Let_def pd_def)
    next
      case wait
      have "wp L (exchange_timers e n now (index + 1)) Q d"
        using Suc.IH [of d p "index + 1"] Suc.prems b by simp
      with wait True show ?thesis
        by (auto simp: wp_def Let_def pd_def split: option.splits)
    qed
  qed
qed simp

section \<open>Joiner sessions return\<close>

definition r_total :: "('r, 'a) rand \<Rightarrow> bool" where
  "r_total m \<longleftrightarrow> (\<forall>r. m r \<noteq> None)"

lemma r_total_ret: "r_total (r_ret x)"
  by (simp add: r_total_def r_ret_def)

lemma r_total_then: "r_total m \<Longrightarrow> (\<And>x. r_total (f x)) \<Longrightarrow> r_total (r_then m f)"
  by (auto simp: r_total_def r_then_def split: option.split)

lemma r_total_lift: "r_total (ra_lift m s)"
  by (simp add: ra_lift_def r_total_ret)

lemma r_total_ra_then: "(\<And>s. r_total (m s)) \<Longrightarrow> (\<And>v s. r_total (f v s)) \<Longrightarrow> r_total (ra_then m f s)"
  by (auto simp: ra_then_def intro!: r_total_then r_total_ret split: sum.split)

lemma r_total_each: "(\<And>x s. r_total (f x s)) \<Longrightarrow> r_total (ra_each f xs s)"
  by (induction xs arbitrary: s) (auto intro!: r_total_ra_then r_total_lift)

lemmas r_total_intros = r_total_ret r_total_then r_total_lift r_total_ra_then r_total_each

lemma r_total_scalar: "token_live c \<Longrightarrow> r_total (random_scalar c False)"
  unfolding r_total_def token_live_def by (metis option.distinct(1) random_scalar_live)

lemma r_total_schnorr: "token_live c \<Longrightarrow> r_total (SchnorrProof_generate c cr base private public pid info)"
  unfolding SchnorrProof_generate_def Let_def by (intro r_total_intros r_total_scalar)

lemma r_total_rounds:
  assumes "token_live c"
  shows "r_total (round_one c cr party)" "r_total (round_two c cr party own peer)"
    "r_total (EcJpakeParty_new_thread_with_rng c cr role secret)"
  unfolding round_one_def round_two_def EcJpakeParty_new_thread_with_rng_def EcJpakeParty_new_with_rng_def Let_def
  using assms by (auto intro!: r_total_intros r_total_schnorr r_total_scalar split: sum.split)

lemma r_total_server:
  assumes "token_live c"
  shows "r_total (ThreadDtlsServerHandshake_new_with_rng c cr secret)" "r_total (build_server_key_exchange c cr n h)"
proof -
  have "r_total (r_then (EcJpakeParty_new_thread_with_rng c cr EcJpakeRole.Server secret)
          (\<lambda>ecjpake. r_then (round_one c cr ecjpake) (\<lambda>one. r_ret (f ecjpake one))))" for f :: "_ \<Rightarrow> _ \<Rightarrow> 'b ThreadDtlsServerHandshake"
    by (intro r_total_intros r_total_rounds assms)
  then show "r_total (ThreadDtlsServerHandshake_new_with_rng c cr secret)"
    by (simp add: r_total_def ThreadDtlsServerHandshake_new_with_rng_def split: prod.split)
  show "r_total (build_server_key_exchange c cr n h)"
    unfolding build_server_key_exchange_def
    using assms by (auto intro!: r_total_intros r_total_rounds split: option.split)
qed

lemma r_total_session_new: "token_live c \<Longrightarrow> r_total (JoinerSession_new c cr iid port locator pskd now)"
  unfolding JoinerSession_new_def
  by (intro r_total_then r_total_server) (auto simp: r_total_def r_ret_def split: prod.split)

lemma r_total_receive:
  assumes "token_live c"
  shows "r_total (JoinerSession_receive c cr hdl datagram s)"
proof -
  have accept: "r_total (js_accept_client_hello c cr m n s)" for m n and s :: "'b JoinerSession"
    unfolding js_accept_client_hello_def
    by (intro r_total_intros r_total_server assms) (auto intro: r_total_ret split: prod.split)
  have plain: "r_total (handle_plaintext_handshake c cr m n s)" for m n and s :: "'b JoinerSession"
    unfolding handle_plaintext_handshake_def
    by (auto intro!: accept r_total_ret r_total_lift split: HandshakeType.split JoinerSessionPhase.split sum.split)
  have rec: "r_total (receive_record c cr hdl b r s)" for b r and s :: "'b JoinerSession \<times> 'd"
    unfolding receive_record_def Let_def
    by (auto intro!: r_total_intros plain split: prod.split sum.split option.split)
  show ?thesis
    unfolding JoinerSession_receive_def Let_def
    by (auto intro!: r_total_intros rec split: prod.split sum.split)
qed

section \<open>Incoming messages\<close>

text \<open>Handling an incoming message may also change joiner sessions and the handler.\<close>

definition near :: "('r, 's, 'h, 'w, 'd) Driver \<Rightarrow> ('r, 's, 'h, 'w, 'd) Driver \<Rightarrow> bool" where
  "near d d' \<longleftrightarrow>
     d_replies d' = d_replies d \<and> d_status d' = d_status d \<and> exchanges d' = exchanges d \<and>
     keep_alive_at d' = keep_alive_at d \<and> (d_link d' = None \<longleftrightarrow> d_link d = None)"

lemma near_refl [simp]: "near d d"
  by (simp add: near_def)

lemma near_trans: "near d d' \<Longrightarrow> near d' d'' \<Longrightarrow> near d d''"
  by (auto simp: near_def)

lemma near_same: "same d d' \<Longrightarrow> near d d'"
  by (auto simp: near_def same_def)

lemma near_closed: "near d d' \<Longrightarrow> is_closed d' = is_closed d"
  by (auto simp: near_def is_closed_def)

lemma core_near: "near d d' \<Longrightarrow> \<not> is_closed d \<Longrightarrow> core G cs d' = core G cs d"
  by (auto simp: near_def core_def closed_ok_def is_closed_def)

lemma steady_near: "near d d' \<Longrightarrow> \<not> is_closed d \<Longrightarrow> steady G d' = steady G d"
  using core_near [of d d' G "[]"] by (simp add: steady_def near_def)

lemma wp_relay_transmit:
  fixes d :: "('r, 's, 'h, 'w, 'd) Driver"
  assumes L: "L \<longrightarrow> token_live (pf_curve e)" and "core G cs d" "\<not> is_closed d"
    and Q: "\<And>res d'. near d d' \<Longrightarrow> Q res d'"
  shows "wp L (relay_transmit e target ts) Q d"
  using assms(2-4)
proof (induction ts arbitrary: d)
  case (Cons t ts)
  obtain iid port locator datagram kek where x: "target = (iid, port, locator)" "t = (datagram, kek)"
    by (metis prod.exhaust)
  show ?case
  proof (cases "relay_tx_request_with_kek 0 [] iid port locator datagram kek")
    case (Inl err)
    then show ?thesis
      using Cons.prems(3) [OF near_refl] by (simp add: x wp_simps)
  next
    case (Inr relay)
    have "wp L (assign_identity e relay) (\<lambda>m. wp L (r_try (Link_send e m) (\<lambda>_. relay_transmit e target ts)) Q) d"
      unfolding wp_try
    proof (rule wp_identity [OF L Cons.prems(1)], rule wp_Link_send)
      fix m :: CoapMessage and res :: "error + unit" and d1 d2 :: "('r, 's, 'h, 'w, 'd) Driver"
      assume "same d d1" "same d1 d2"
      then have n: "near d d2"
        using near_same near_trans by blast
      then have "wp L (relay_transmit e target ts) Q d2"
        using Cons.IH [of d2] Cons.prems core_near near_closed near_trans by metis
      with Cons.prems(3) [OF n] show "(case res of Inl e \<Rightarrow> Q (Inl e) | Inr v \<Rightarrow> wp L (relay_transmit e target ts) Q) d2"
        by (simp split: sum.split)
    qed
    with Inr show ?thesis
      by (simp add: x wp_simps)
  qed
qed (simp add: wp_simps)

lemma near_upd [simp]:
  "near d (d\<lparr>joiner_handler := h\<rparr>)" "near d (d\<lparr>joiner_handler := h, d_rng := r, joiner_sessions := js\<rparr>)"
  "near d (d\<lparr>joiner_sessions := js\<rparr>)" "near d (d\<lparr>d_events := evs\<rparr>)" "near d (d\<lparr>d_world := w\<rparr>)"
  "near d (d\<lparr>d_prefix := a, d_generation := g\<rparr>)" "near d (d\<lparr>d_answered := an\<rparr>)"
  by (simp_all add: near_def)

lemma wp_publish_all: "(\<And>evs'. Q () (d\<lparr>d_events := evs'\<rparr>)) \<Longrightarrow> wp L (publish_all evs) Q d"
proof (induction evs arbitrary: d)
  case Nil
  from Nil [of "d_events d"] show ?case
    by (simp add: wp_simps)
qed (simp add: wp_simps)

lemma session_total:
  assumes "token_live c"
  shows "JoinerSession_new c cr iid port locator pskd now r \<noteq> None" "JoinerSession_receive c cr hdl datagram s r \<noteq> None"
  using r_total_session_new [OF assms] r_total_receive [OF assms] unfolding r_total_def by blast+

lemma wp_open_session:
  assumes "L \<longrightarrow> token_live (pf_curve e)" "\<And>b d'. near d d' \<Longrightarrow> Q b d'"
  shows "wp L (open_session e iid port locator now hdl h) Q d"
  using assms
  by (auto simp: wp_def open_session_def Let_def session_total split: option.split prod.split)

lemma wp_relay_receive:
  assumes "L \<longrightarrow> token_live (pf_curve e)" "\<And>b d'. near d d' \<Longrightarrow> Q b d'"
  shows "wp L (relay_receive e i datagram) Q d"
  using assms
  by (auto simp: wp_def relay_receive_def session_total split: option.split prod.split sum.split)

lemma wp_handle_relay_rx:
  fixes d :: "('r, 's, 'h, 'w, 'd) Driver"
  assumes L: "L \<longrightarrow> token_live (pf_curve e)" and c: "core G cs d" "\<not> is_closed d"
    and Q: "\<And>res d'. near d d' \<Longrightarrow> Q res d'"
  shows "wp L (handle_relay_rx e port locator iid datagram) Q d"
proof -
  have send: "wp L (relay_transmit e target ts) Q d'" if "near d d'" for target ts d'
    using that c near_trans [OF that] wp_relay_transmit [OF L, of G cs d' Q] Q core_near near_closed by metis
  have received: "wp L (case res of
                        None \<Rightarrow> r_ret (Ok ())
                      | Some (target, transmissions, evs, session_failed) \<Rightarrow>
                          r_then (publish_all evs)
                            (\<lambda>_. if session_failed
                                then r_then (remove_session (joiner_id_from_iid iid)) (\<lambda>_. r_ret (Ok ()))
                                else relay_transmit e target transmissions)) Q d'" if n: "near d d'" for res d'
  proof (cases res)
    case (Some x)
    obtain target ts evs failed where x: "x = (target, ts, evs, failed)"
      by (cases x) auto
    have "near d (d'\<lparr>d_events := evs'\<rparr>)" "near d (d'\<lparr>d_events := evs', joiner_sessions := js\<rparr>)" for evs' js
      using n by (simp_all add: near_def)
    then show ?thesis
      by (auto simp: Some x wp_simps remove_session_def intro!: wp_publish_all send Q)
  qed (use n Q in \<open>simp add: wp_simps\<close>)
  show ?thesis
    unfolding handle_relay_rx_def wp_simps
  proof (rule wp_now)
    fix now w
    let ?d = "d\<lparr>d_world := w, joiner_sessions := retain_sessions now (joiner_sessions (d\<lparr>d_world := w\<rparr>))\<rparr>"
    have n: "near d ?d"
      by (simp add: near_def)
    have opened: "wp L (open_session e iid port locator now hdl h) (\<lambda>opened. wp L (if \<not> opened then r_ret (Ok ())
                 else r_then (relay_receive e (joiner_id_from_iid iid) datagram)
                   (\<lambda>res. case res of
                        None \<Rightarrow> r_ret (Ok ())
                      | Some (target, transmissions, evs, session_failed) \<Rightarrow>
                          r_then (publish_all evs)
                            (\<lambda>_. if session_failed
                                then r_then (remove_session (joiner_id_from_iid iid)) (\<lambda>_. r_ret (Ok ()))
                                else relay_transmit e target transmissions))) Q) ?d" for hdl h
    proof (rule wp_open_session [OF L])
      fix b and d2 :: "('r, 's, 'h, 'w, 'd) Driver"
      assume "near ?d d2"
      then have n2: "near d d2"
        using n near_trans by blast
      show "wp L (if \<not> b then r_ret (Ok ())
                 else r_then (relay_receive e (joiner_id_from_iid iid) datagram)
                   (\<lambda>res. case res of
                        None \<Rightarrow> r_ret (Ok ())
                      | Some (target, transmissions, evs, session_failed) \<Rightarrow>
                          r_then (publish_all evs)
                            (\<lambda>_. if session_failed
                                then r_then (remove_session (joiner_id_from_iid iid)) (\<lambda>_. r_ret (Ok ()))
                                else relay_transmit e target transmissions))) Q d2"
      proof (rule wp_if)
        show "wp L (r_ret (Ok ())) Q d2"
          using n2 Q by (simp add: wp_simps)
        show "wp L (r_then (relay_receive e (joiner_id_from_iid iid) datagram)
                   (\<lambda>res. case res of
                        None \<Rightarrow> r_ret (Ok ())
                      | Some (target, transmissions, evs, session_failed) \<Rightarrow>
                          r_then (publish_all evs)
                            (\<lambda>_. if session_failed
                                then r_then (remove_session (joiner_id_from_iid iid)) (\<lambda>_. r_ret (Ok ()))
                                else relay_transmit e target transmissions))) Q d2"
          unfolding wp_then [of L "relay_receive e (joiner_id_from_iid iid) datagram"]
          by (rule wp_relay_receive [OF L], rule received, rule near_trans [OF n2])
      qed
    qed
    show "wp L (case joiner_handler ?d of
            None \<Rightarrow> r_ret (Ok ())
          | Some (hdl, h) \<Rightarrow>
              r_then (open_session e iid port locator now hdl h)
                (\<lambda>opened. if \<not> opened then r_ret (Ok ())
                 else r_then (relay_receive e (joiner_id_from_iid iid) datagram)
                   (\<lambda>res. case res of
                        None \<Rightarrow> r_ret (Ok ())
                      | Some (target, transmissions, evs, session_failed) \<Rightarrow>
                          r_then (publish_all evs)
                            (\<lambda>_. if session_failed
                                then r_then (remove_session (joiner_id_from_iid iid)) (\<lambda>_. r_ret (Ok ()))
                                else relay_transmit e target transmissions)))) Q ?d"
      by (cases "joiner_handler ?d") (use opened Q [OF n] in \<open>simp_all only: wp_then wp_ret option.case split: prod.split, simp_all\<close>)
  qed
qed

section \<open>Replies\<close>

lemma ack_wire:
  "\<exists>inner outer. CoapMessage_encode (empty_ack mid) = Ok inner \<and> udp_tx_request 0 [] address port inner = Ok outer \<and>
     options outer = path_options uri_UDP_TX"
proof -
  have "CoapMessage_encode (empty_ack mid) = Ok ([0x60, 0] @ to_be 2 mid)"
    by (simp add: CoapMessage_encode_def empty_ack_def CoapCode_EMPTY_def sorted_options_eq)
  moreover have "resource uri_UDP_TX"
    by code_simp
  ultimately show ?thesis
    by (simp add: udp_tx_request_def Let_def build_simps post_request_Ok)
qed

lemma udp_tx_encodes:
  assumes "options m = path_options uri_UDP_TX" "length (token m) = 4"
  shows "\<exists>x. CoapMessage_encode m = Inr x"
proof -
  have "list_all (\<lambda>x. length (opt_value x) \<le> 2) (path_options uri_UDP_TX)"
    by code_simp
  with assms show ?thesis
    by (intro CoapMessage_encode_Ok) (force simp: list_all_iff)+
qed

lemma unused_token_length:
  assumes "rng_fills c" "unused_token c toks r = Some (tok, r')"
  shows "length tok = 4"
proof -
  have "rng_fills c \<longrightarrow> length (fst (tok, r')) = 4"
    by (rule unused_token.raw_induct [where P = "\<lambda>c toks r x. rng_fills c \<longrightarrow> length (fst x) = 4", OF _ assms(2)])
      (auto simp: rng_fills_def TOKEN_LENGTH_def split: prod.splits if_splits, metis fst_conv)
  with assms(1) show ?thesis
    by simp
qed

lemma wp_identity_length:
  assumes "L \<longrightarrow> token_live (pf_curve e)" "core G cs d" "rng_fills (pf_curve e)"
    and "\<And>m' d'. same d d' \<Longrightarrow> length (token m') = 4 \<Longrightarrow> options m' = options m \<Longrightarrow> Q m' d'"
  shows "wp L (assign_identity e m) Q d"
proof -
  have "wp L (assign_identity e m) (\<lambda>m' d'. same d d') d"
    by (rule wp_identity [OF assms(1,2)])
  then show ?thesis
    using unused_token_length [OF assms(3)] assms(4)
    by (auto simp: wp_def assign_identity_def Let_def split: option.splits)
qed

text \<open>Acknowledging on an open link fails with the transport only.\<close>

lemma wp_send_ack:
  fixes d :: "('r, 's, 'h, 'w, 'd) Driver"
  assumes L: "L \<longrightarrow> token_live (pf_curve e)" and c: "core G cs d" and fills: "rng_fills (pf_curve e)" and l: "d_link d \<noteq> None"
    and Q: "\<And>res d'. same d d' \<Longrightarrow> (\<And>err. res = Inl err \<Longrightarrow> is_transport_error err) \<Longrightarrow> Q res d'"
  shows "wp L (send_reply e (empty_ack mid) origin) Q d"
proof (cases origin)
  case BorderAgent
  obtain inner where "CoapMessage_encode (empty_ack mid) = Ok inner"
    using ack_wire by blast
  then have "wp L (Link_send e (empty_ack mid)) Q d"
    by (intro wp_Link_send Q) (use l in auto)
  then show ?thesis
    by (simp add: send_reply_def BorderAgent wire_message_def wp_simps)
next
  case (Mesh address port)
  obtain inner outer where w: "CoapMessage_encode (empty_ack mid) = Ok inner" "udp_tx_request 0 [] address port inner = Ok outer"
      "options outer = path_options uri_UDP_TX"
    using ack_wire by blast
  have "wp L (assign_identity e outer) (\<lambda>m. wp L (Link_send e m) Q) d"
  proof (rule wp_identity_length [OF L c fills], rule wp_Link_send, rule Q)
    fix m :: CoapMessage and d1 d2 :: "('r, 's, 'h, 'w, 'd) Driver" and res :: "error + unit" and err
    assume s: "same d d1" "length (token m) = 4" "options m = options outer" "same d1 d2"
      and res: "\<And>err. res = Inl err \<Longrightarrow> d_link d1 \<noteq> None \<Longrightarrow> \<exists>x. CoapMessage_encode m = Inr x \<Longrightarrow> is_transport_error err"
    show "same d d2"
      using s same_trans by blast
    have "d_link d1 \<noteq> None"
      using s(1) l by (auto simp: same_def)
    then show "is_transport_error err" if "res = Inl err"
      using res [OF that] udp_tx_encodes s(2,3) w(3) by simp
  qed
  then show ?thesis
    by (simp add: send_reply_def Mesh wire_message_def w wp_simps)
qed

lemma wp_reply:
  assumes send: "\<And>Q. (\<And>res d'. same d d' \<Longrightarrow> R res \<Longrightarrow> Q res d') \<Longrightarrow> wp L (send_reply e reply origin) Q d"
    and R: "R (Ok ())"
    and Q: "\<And>res d'. same d d' \<Longrightarrow> R res \<Longrightarrow> Q res d'"
  shows "wp L (Driver_reply e m reply origin) Q d"
  unfolding Driver_reply_def wp_try
proof (rule send)
  fix res and d1
  assume s: "same d d1" "R res"
  have "wp L (r_then (driver_now e)
       (\<lambda>now. r_then (r_modify (\<lambda>d. d\<lparr>d_answered := remember now origin (message_id m) reply (d_answered d)\<rparr>))
       (\<lambda>_. r_ret (Ok ())))) Q d1"
    unfolding wp_simps by (rule wp_now, rule Q [OF _ R]) (use s(1) in \<open>simp add: same_def\<close>)
  then show "(case res of Inl e \<Rightarrow> Q (Inl e)
            | Inr v \<Rightarrow> wp L (r_then (driver_now e)
                 (\<lambda>now. r_then (r_modify (\<lambda>d. d\<lparr>d_answered := remember now origin (message_id m) reply (d_answered d)\<rparr>))
                 (\<lambda>_. r_ret (Ok ())))) Q) d1"
    using Q [OF s] by (cases res) simp_all
qed

lemma wp_send_reply:
  assumes "L \<longrightarrow> token_live (pf_curve e)" "core G cs d" "\<And>res d'. same d d' \<Longrightarrow> Q res d'"
  shows "wp L (send_reply e reply origin) Q d"
  unfolding send_reply_def by (rule wp_send [OF assms])

lemma wp_reply_any:
  assumes "L \<longrightarrow> token_live (pf_curve e)" "core G cs d" "\<And>res d'. same d d' \<Longrightarrow> Q res d'"
  shows "wp L (Driver_reply e m reply origin) Q d"
  by (rule wp_reply [where R = "\<lambda>_. True"]) (auto intro!: wp_send_reply [OF assms(1,2)] assms(3))

lemma wp_reply_ack:
  assumes "L \<longrightarrow> token_live (pf_curve e)" "core G cs d" "rng_fills (pf_curve e)" "d_link d \<noteq> None"
    "\<And>res d'. same d d' \<Longrightarrow> (\<And>err. res = Inl err \<Longrightarrow> is_transport_error err) \<Longrightarrow> Q res d'"
  shows "wp L (Driver_reply e m (empty_ack mid) origin) Q d"
  by (rule wp_reply [where R = "\<lambda>res. \<forall>err. res = Inl err \<longrightarrow> is_transport_error err"])
    (auto intro!: wp_send_ack [OF assms(1-4)] assms(5))

lemma wp_answer_retransmission:
  fixes d :: "('r, 's, 'h, 'w, 'd) Driver"
  assumes L: "L \<longrightarrow> token_live (pf_curve e)" and c: "core G cs d" and Q: "\<And>res d'. same d d' \<Longrightarrow> Q res d'"
  shows "wp L (answer_retransmission e m origin) Q d"
proof -
  have look: "wp L (look_up_reply now origin mid) R d'" if "\<And>r d2. same d' d2 \<Longrightarrow> R r d2" for R now mid and d' :: "('r, 's, 'h, 'w, 'd) Driver"
    using that by (auto simp: wp_def look_up_reply_def split: prod.split)
  have "wp L (r_then (driver_now e)
        (\<lambda>now. r_then (look_up_reply now origin (message_id m))
        (\<lambda>reply. case reply of
             None \<Rightarrow> r_ret (Ok False)
           | Some r \<Rightarrow> r_try (send_reply e r origin) (\<lambda>_. r_ret (Ok True))))) Q d"
    unfolding wp_then
  proof (rule wp_now, rule look)
    fix now w and reply :: "CoapMessage option" and d2 :: "('r, 's, 'h, 'w, 'd) Driver"
    assume "same (d\<lparr>d_world := w\<rparr>) d2"
    then have s: "same d d2"
      by (rule same_trans [OF same_upd(2)])
    have "wp L (r_try (send_reply e r origin) (\<lambda>_. r_ret (Ok True))) Q d2" for r
      unfolding wp_try wp_ret
    proof (rule wp_send_reply [OF L, of G cs])
      show "core G cs d2"
        using c core_same [OF s] by simp
      fix res :: "error + unit" and d3 :: "('r, 's, 'h, 'w, 'd) Driver"
      assume "same d2 d3"
      then have "Q res' d3" for res'
        using Q same_trans [OF s] by blast
      then show "(case res of Inl e \<Rightarrow> Q (Inl e) | Inr v \<Rightarrow> Q (Ok True)) d3"
        by (cases res) simp_all
    qed
    then show "wp L (case reply of None \<Rightarrow> r_ret (Ok False) | Some r \<Rightarrow> r_try (send_reply e r origin) (\<lambda>_. r_ret (Ok True))) Q d2"
      using Q [OF s] by (simp add: wp_ret split: option.split)
  qed
  then show ?thesis
    by (cases "coap_ty m = Confirmable") (use Q [OF same_refl] in \<open>simp_all add: answer_retransmission_def wp_ret\<close>)
qed

section \<open>Routing\<close>

definition live :: "ledger \<Rightarrow> ('r, 's, 'h, 'w, 'd) Driver \<Rightarrow> bool" where
  "live G d \<longleftrightarrow> steady G d \<and> \<not> is_closed d \<and> d_link d \<noteq> None"

lemma live_near: "live G d \<Longrightarrow> near d d' \<Longrightarrow> live G d'"
  using steady_near [of d d' G] near_closed [of d d'] by (auto simp: live_def) (auto simp: near_def)

lemma live_same: "live G d \<Longrightarrow> same d d' \<Longrightarrow> live G d'"
  by (rule live_near [OF _ near_same])

text \<open>
  Where routing leaves the driver. Only when the transport failed while a response was acknowledged, the
  completion of that response is no longer in the state and not yet answered.
\<close>

definition routed :: "ledger \<Rightarrow> error + 'a \<Rightarrow> ('r, 's, 'h, 'w, 'd) Driver \<Rightarrow> bool" where
  "routed G res d \<longleftrightarrow> steady G d \<or> (\<exists>c err. res = Inl err \<and> is_transport_error err \<and> core G [c] d)"

lemma wp_acknowledge:
  assumes l: "live G d" and Q: "\<And>b d'. live G d' \<Longrightarrow> Q b d'"
  shows "wp L (acknowledge m proxied) Q d"
proof (cases "position (\<lambda>p. is_proxied p = proxied \<and> is_empty_ack_for m (message_id (pd_request p))) (in_flight (exchanges d))")
  case (Some i)
  let ?f = "\<lambda>p. p\<lparr>retry_at := None\<rparr>"
  have "same_exchange ?f"
    by (simp add: same_exchange_def)
  then have "live G (d\<lparr>exchanges := (exchanges d)\<lparr>in_flight := (in_flight (exchanges d))[i := ?f (in_flight (exchanges d) ! i)]\<rparr>\<rparr>)"
    using l steady_update [of ?f G d i] by (simp add: live_def is_closed_def)
  from Q [OF this] Some show ?thesis
    by (simp add: wp_def acknowledge_def update_pending_def r_then_def r_ret_def r_modify_def)
qed (use l Q in \<open>simp add: acknowledge_def wp_def r_ret_def\<close>)

lemma wp_take_answered:
  fixes d :: "('r, 's, 'h, 'w, 'd) Driver"
  assumes l: "live G d" and none: "Q None d"
    and some: "\<And>p d'. core G [pd_completion p] d' \<Longrightarrow> is_application (pd_completion p) \<or> busy [] (exchanges d') \<Longrightarrow>
      \<not> is_closed d' \<Longrightarrow> d_link d' \<noteq> None \<Longrightarrow> Q (Some p) d'"
  shows "wp L (take_answered m proxied) Q d"
proof (cases "position (answers m proxied) (in_flight (exchanges d))")
  case (Some i)
  then have i: "i < length (in_flight (exchanges d))"
    using position_SomeD by blast
  let ?d = "d\<lparr>exchanges := (exchanges d)\<lparr>in_flight := remove_at i (in_flight (exchanges d))\<rparr>\<rparr>"
  have "Q (Some (in_flight (exchanges d) ! i)) ?d"
    by (rule some) (use l i core_remove [OF _ i, of G "[]"] busy_remove [OF _ i] in \<open>auto simp: live_def steady_def is_closed_def\<close>)
  with Some show ?thesis
    by (simp add: take_answered_def wp_def r_then_def remove_pending_def r_modify_def r_ret_def)
qed (use none in \<open>simp add: take_answered_def wp_def r_ret_def\<close>)

lemma wp_unsolicited_direct:
  assumes L: "L \<longrightarrow> token_live (pf_curve e)" and l: "live G d" and Q: "\<And>res d'. live G d' \<Longrightarrow> Q res d'"
  shows "wp L (route_unsolicited_message e m) Q d"
proof -
  have relay: "wp L (r_try (handle_relay_rx e port locator iid body) (\<lambda>_. r_ret (Ok True))) Q d" for port locator iid body
    unfolding wp_simps
    by (rule wp_handle_relay_rx [OF L, of G "[]"])
      (use l Q live_near [OF l] in \<open>auto simp: live_def steady_def split: sum.split\<close>)
  have pub: "Q res (d\<lparr>d_events := evs\<rparr>)" "Q res (d\<lparr>d_prefix := pf, d_generation := g, d_events := evs\<rparr>)" for res evs pf g
    by (rule Q, rule live_near [OF l], simp add: near_def)+
  have event: "wp L (r_then (if y = MeshcopNotification.DatasetChanged then invalidate_mesh_local_prefix else r_ret ())
                     (\<lambda>_. r_then (r_get d_border_agent)
                     (\<lambda>peer. r_then (publish (notification_to_event y peer))
                     (\<lambda>_. r_ret (Ok True))))) Q d" for y
    by (cases "y = MeshcopNotification.DatasetChanged")
      (simp_all add: wp_then wp_ret wp_get wp_publish wp_modify invalidate_mesh_local_prefix_def pub)
  show ?thesis
  proof (cases "parse_notification m")
    case (Inr n)
    show ?thesis
    proof (cases n)
      case (Some y)
      show ?thesis
        unfolding route_unsolicited_message_def Inr Some sum.case option.case wp_then [of L "r_get joiner_handler"] wp_get
        using relay event by (cases y; cases "joiner_handler d") (simp_all only: prod.case option.case MeshcopNotification.case)
    qed (use Inr Q [OF l] in \<open>simp add: route_unsolicited_message_def wp_ret\<close>)
  qed (use Q [OF l] in \<open>simp add: route_unsolicited_message_def wp_ret\<close>)
qed

lemma wp_unsolicited_proxied:
  fixes d :: "('r, 's, 'h, 'w, 'd) Driver"
  assumes L: "L \<longrightarrow> token_live (pf_curve e)" and l: "live G d" and Q: "\<And>res d'. live G d' \<Longrightarrow> Q res d'"
  shows "wp L (route_unsolicited_proxied e inner udp origin) Q d"
proof -
  define k :: "('r, 's, 'h, 'w, 'd, error + bool) driver_action" where
    "k = (if coap_ty inner = Confirmable
          then r_try (Driver_reply e inner (empty_changed_response inner) origin) (\<lambda>_. r_ret (Ok True))
          else r_ret (Ok True))"
  have k: "wp L k Q d'" if n: "near d d'" for d'
  proof -
    have l': "live G d'"
      using l n by (rule live_near)
    have "wp L (r_try (Driver_reply e inner (empty_changed_response inner) origin) (\<lambda>_. r_ret (Ok True))) Q d'"
      unfolding wp_simps
      by (rule wp_reply_any [OF L, of G "[]"])
        (use l' live_same [OF l'] Q in \<open>auto simp: live_def steady_def split: sum.split\<close>)
    with Q [OF l'] show ?thesis
      by (simp add: wp_simps k_def)
  qed
  have pub: "near d (d\<lparr>d_prefix := pf, d_generation := g, d_events := evs\<rparr>)" for evs pf g
    by (simp add: near_def)
  show ?thesis
  proof (cases "parse_notification inner")
    case (Inr n)
    have "wp L (r_then (if y = MeshcopNotification.DatasetChanged then invalidate_mesh_local_prefix else r_ret ())
            (\<lambda>_. r_then (publish (notification_to_event y (show_ipv6 (source_address udp)))) (\<lambda>_. k))) Q d" for y
      by (cases "y = MeshcopNotification.DatasetChanged")
        (simp_all add: wp_then wp_ret wp_publish wp_modify invalidate_mesh_local_prefix_def k pub)
    with Inr Q [OF l] show ?thesis
      unfolding route_unsolicited_proxied_def k_def [symmetric] by (cases n) (simp_all add: wp_ret)
  qed (use Q [OF l] in \<open>simp add: route_unsolicited_proxied_def wp_ret\<close>)
qed

text \<open>Both routes deliver a message the same way, and differ in what they do with one nobody waits for.\<close>

definition finish_answered ::
  "('r, 's, 'p, 'w, 'd) platform \<Rightarrow> CoapMessage \<Rightarrow> Destination \<Rightarrow> Pending \<Rightarrow> ('r, 's, 'h, 'w, 'd, error + unit) driver_action" where
  "finish_answered e m origin p =
     (if coap_ty m = Reset then
        r_then (calls e (CallComplete (pd_completion p) (Err (error.InvalidState COAP_RESET_ERROR)))) (\<lambda>_. r_ret (Ok ()))
      else r_try (if coap_ty m = Confirmable then Driver_reply e m (empty_ack (message_id m)) origin else r_ret (Ok ()))
        (\<lambda>_. r_then (calls e (CallComplete (pd_completion p) (Ok (Some m)))) (\<lambda>_. r_ret (Ok ()))))"

definition deliver ::
  "('r, 's, 'p, 'w, 'd) platform \<Rightarrow> CoapMessage \<Rightarrow> Destination \<Rightarrow> bool \<Rightarrow> ('r, 's, 'h, 'w, 'd, error + unit) driver_action \<Rightarrow>
     ('r, 's, 'h, 'w, 'd, error + unit) driver_action" where
  "deliver e m origin proxied other =
     r_try (answer_retransmission e m origin)
       (\<lambda>again. if again then r_ret (Ok ())
        else r_then (acknowledge m proxied)
          (\<lambda>acked. if acked then r_ret (Ok ())
           else r_then (take_answered m proxied)
             (\<lambda>pending. case pending of Some p \<Rightarrow> finish_answered e m origin p | None \<Rightarrow> other)))"

lemma route_deliver:
  "route_direct e m = deliver e m BorderAgent False
     (r_try (route_unsolicited_message e m) (\<lambda>routed. if routed then ack_if_confirmable e m else r_ret (Ok ())))"
  "route_proxied e udp m = deliver e m (Mesh (source_address udp) (source_port udp)) True
     (r_try (route_unsolicited_proxied e m udp (Mesh (source_address udp) (source_port udp))) (\<lambda>_. r_ret (Ok ())))"
  unfolding route_direct_def route_proxied_def deliver_def finish_answered_def ack_if_confirmable_def Let_def by (rule refl)+

lemma wp_finish_answered:
  fixes d :: "('r, 's, 'h, 'w, 'd) Driver"
  assumes L: "L \<longrightarrow> token_live (pf_curve e)" and fills: "rng_fills (pf_curve e)"
    and d: "core G [pd_completion p] d" "is_application (pd_completion p) \<or> busy [] (exchanges d)" "d_link d \<noteq> None"
  shows "wp L (finish_answered e m origin p) (routed G) d"
proof -
  have complete: "wp L (r_then (calls e (CallComplete (pd_completion p) outcome)) (\<lambda>_. r_ret (Ok ()))) (routed G) d'"
    if "core G [pd_completion p] d'" "is_application (pd_completion p) \<or> busy [] (exchanges d')"
    for outcome and d' :: "('r, 's, 'h, 'w, 'd) Driver"
    unfolding wp_then wp_ret by (rule wp_complete [OF L that]) (simp add: routed_def)
  have "wp L (r_try (Driver_reply e m (empty_ack (message_id m)) origin)
                     (\<lambda>_. r_then (calls e (CallComplete (pd_completion p) (Ok (Some m)))) (\<lambda>_. r_ret (Ok ())))) (routed G) d"
    unfolding wp_try
  proof (rule wp_reply_ack [OF L d(1) fills d(3)])
    fix res :: "error + unit" and d2 :: "('r, 's, 'h, 'w, 'd) Driver"
    assume s: "same d d2" and err: "\<And>err. res = Inl err \<Longrightarrow> is_transport_error err"
    have d2: "core G [pd_completion p] d2" "is_application (pd_completion p) \<or> busy [] (exchanges d2)"
      using d core_same [OF s] same_simps(1) [OF s] by simp_all
    show "(case res of Inl err \<Rightarrow> routed G (Inl err :: error + unit)
        | Inr v \<Rightarrow> wp L (r_then (calls e (CallComplete (pd_completion p) (Ok (Some m)))) (\<lambda>_. r_ret (Ok ()))) (routed G)) d2"
      using complete [OF d2] err d2(1) by (cases res) (auto simp: routed_def)
  qed
  with complete [OF d(1,2)] show ?thesis
    by (simp add: finish_answered_def wp_try wp_ret)
qed

lemma wp_deliver:
  fixes d :: "('r, 's, 'h, 'w, 'd) Driver"
  assumes L: "L \<longrightarrow> token_live (pf_curve e)" and fills: "rng_fills (pf_curve e)" and l: "live G d"
    and other: "\<And>d'. live G d' \<Longrightarrow> wp L other (routed G) d'"
  shows "wp L (deliver e m origin proxied other) (routed G) d"
proof -
  have ok: "routed G res d'" if "live G d'" for res :: "error + unit" and d' :: "('r, 's, 'h, 'w, 'd) Driver"
    using that by (simp add: routed_def live_def)
  have taken: "wp L (take_answered m proxied)
      (\<lambda>pending. wp L (case pending of Some p \<Rightarrow> finish_answered e m origin p | None \<Rightarrow> other) (routed G)) d'" if "live G d'" for d'
    by (rule wp_take_answered [OF that]) (use other [OF that] wp_finish_answered [OF L fills] in simp_all)
  show ?thesis
    unfolding deliver_def wp_try
  proof (rule wp_answer_retransmission [OF L, of G "[]"])
    show "core G [] d"
      using l by (simp add: live_def steady_def)
    fix res :: "error + bool" and d2 :: "('r, 's, 'h, 'w, 'd) Driver"
    assume "same d d2"
    then have l2: "live G d2"
      by (rule live_same [OF l])
    then have "wp L (acknowledge m proxied) (\<lambda>acked. wp L (if acked then r_ret (Ok ())
           else r_then (take_answered m proxied)
             (\<lambda>pending. case pending of Some p \<Rightarrow> finish_answered e m origin p | None \<Rightarrow> other)) (routed G)) d2"
      by (rule wp_acknowledge) (simp add: wp_then wp_ret ok taken)
    then show "(case res of Inl e \<Rightarrow> routed G (Inl e :: error + unit)
       | Inr again \<Rightarrow> wp L (if again then r_ret (Ok ())
          else r_then (acknowledge m proxied)
            (\<lambda>acked. if acked then r_ret (Ok ())
             else r_then (take_answered m proxied)
               (\<lambda>pending. case pending of Some p \<Rightarrow> finish_answered e m origin p | None \<Rightarrow> other))) (routed G)) d2"
      using ok [OF l2] by (cases res) (simp_all add: wp_then [of L "acknowledge m proxied"] wp_ret)
  qed
qed

lemma wp_route_incoming:
  fixes d :: "('r, 's, 'h, 'w, 'd) Driver"
  assumes L: "L \<longrightarrow> token_live (pf_curve e)" and fills: "rng_fills (pf_curve e)" and l: "live G d"
  shows "wp L (route_incoming e m) (routed G) d"
proof -
  have ok: "routed G res d'" if "live G d'" for res :: "error + unit" and d' :: "('r, 's, 'h, 'w, 'd) Driver"
    using that by (simp add: routed_def live_def)
  have "wp L (ack_if_confirmable e m) (routed G) d'" if "live G d'" for d' :: "('r, 's, 'h, 'w, 'd) Driver"
    unfolding ack_if_confirmable_def
    by (rule wp_if, rule wp_reply_any [OF L, of G "[]"]) (use that live_same [OF that] ok in \<open>auto simp: live_def steady_def wp_ret\<close>)
  then have "wp L (r_try (route_unsolicited_message e m) (\<lambda>routed. if routed then ack_if_confirmable e m else r_ret (Ok ()))) (routed G) d'"
    if "live G d'" for d' :: "('r, 's, 'h, 'w, 'd) Driver"
    unfolding wp_try by (intro wp_unsolicited_direct [OF L that]) (use ok in \<open>auto simp: wp_ret split: sum.split\<close>)
  then have direct: "wp L (route_direct e m) (routed G) d"
    unfolding route_deliver by (intro wp_deliver [OF L fills l])
  have "wp L (r_try (route_unsolicited_proxied e inner udp origin) (\<lambda>_. r_ret (Ok ()))) (routed G) d'"
    if "live G d'" for inner udp origin and d' :: "('r, 's, 'h, 'w, 'd) Driver"
    unfolding wp_try by (intro wp_unsolicited_proxied [OF L that]) (use ok in \<open>auto simp: wp_ret split: sum.split\<close>)
  then have "wp L (route_proxied e udp inner) (routed G) d" for udp inner
    unfolding route_deliver by (intro wp_deliver [OF L fills l])
  with direct ok [OF l] show ?thesis
    by (simp add: route_incoming_def wp_ret split: sum.split option.split)
qed

section \<open>Wakes\<close>

text \<open>
  Where a wake leaves the driver, given the reply channels \<open>G\<close> handed out and not withdrawn: every one of
  them is answered or still owed, but for at most one, and for none while the session is open.
\<close>

definition settled :: "nat multiset \<Rightarrow> ('r, 's, 'h, 'w, 'd) Driver \<Rightarrow> bool" where
  "settled G d \<longleftrightarrow> (\<exists>lost H. size lost \<le> 1 \<and> (lost = {#} \<or> is_closed d) \<and> G = H + lost \<and> steady (H, True) d)"

lemma settled_steady: "steady (G, True) d \<Longrightarrow> settled G d"
  unfolding settled_def by (rule exI [of _ "{#}"]) simp

lemma size_handles: "size (handles c) \<le> 1"
  by (cases c) (auto split: option.split)

lemma settled_closed:
  assumes "core (G, True) [c] d" "is_closed d"
  shows "settled G d"
  unfolding settled_def
proof (intro exI conjI)
  show "size (handles c) \<le> 1"
    by (rule size_handles)
  show "G = (image_mset fst (mset (d_replies d)) + owed [] (exchanges d)) + handles c"
    using assms(1) by (simp add: core_def ac_simps)
  have "control_ok [] (exchanges d) (d_status d) (keep_alive_at d)"
    using assms control_ok_drop [of c "[]" "exchanges d"] by (auto simp: core_def is_closed_def)
  then show "steady (image_mset fst (mset (d_replies d)) + owed [] (exchanges d), True) d"
    by (intro steady_closed) (use assms in \<open>auto simp: core_def\<close>)
qed (use assms in simp)

lemma wp_transport_failed:
  assumes "L \<longrightarrow> token_live (pf_curve e)" "core G cs d" "\<And>d'. core G cs d' \<Longrightarrow> is_closed d' \<Longrightarrow> Q () d'"
  shows "wp L (transport_failed e err) Q d"
  unfolding transport_failed_def by (rule wp_end_session [OF assms(1,2)]) (rule assms(3))

lemma wp_handle_datagram:
  fixes d :: "('r, 's, 'h, 'w, 'd) Driver"
  assumes L: "L \<longrightarrow> token_live (pf_curve e)" and fills: "rng_fills (pf_curve e)" and l: "live (G, True) d"
  shows "wp L (handle_datagram e plaintext) (\<lambda>_. settled G) d"
proof -
  have "wp L (case res of
                 Inl err \<Rightarrow> if is_transport_error err then transport_failed e (error_to_string err) else r_ret ()
               | Inr _ \<Rightarrow> r_ret ()) (\<lambda>_. settled G) d'" if r: "routed (G, True) res d'" for res :: "error + unit" and d' :: "('r, 's, 'h, 'w, 'd) Driver"
  proof -
    have fail: "wp L (transport_failed e s) (\<lambda>_. settled G) d'" for s
    proof (cases "steady (G, True) d'")
      case True
      then show ?thesis
        by (intro wp_transport_failed [OF L, of "(G, True)" "[]"]) (auto simp: steady_def intro: settled_steady steady_closed)
    next
      case False
      with r obtain c where "core (G, True) [c] d'"
        by (auto simp: routed_def)
      then show ?thesis
        by (intro wp_transport_failed [OF L]) (auto intro: settled_closed)
    qed
    show ?thesis
      using r fail settled_steady [of G d'] by (auto simp: routed_def wp_ret split: sum.split)
  qed
  then have "wp L (r_then (route_incoming e m) (\<lambda>res. case res of
                 Inl err \<Rightarrow> if is_transport_error err then transport_failed e (error_to_string err) else r_ret ()
               | Inr _ \<Rightarrow> r_ret ())) (\<lambda>_. settled G) d" for m
    unfolding wp_then by (rule wp_mono [OF wp_route_incoming [OF L fills l]])
  then show ?thesis
    using l settled_steady [of G d] by (simp add: handle_datagram_def wp_ret live_def split: sum.split)
qed

text \<open>Failing everything outstanding before a session was petitioned for.\<close>

lemma calls_empty:
  assumes "exchanges d = \<lparr>in_flight = [], queued = []\<rparr>"
  shows "calls e (CallComplete (Caller i r) outcome) d = Some ((), d\<lparr>d_replies := d_replies d @ [(r, ExchangeReply outcome)]\<rparr>)"
    "\<not> is_closed d \<Longrightarrow> calls e (CallComplete (Petition r) (Err err)) d =
       Some ((), d\<lparr>d_status := Connected, d_replies := d_replies d @ [(r, PetitionReply (Err err))]\<rparr>)"
  using assms
  by (simp_all add: calls_def driver_fuel_def eval_nat_numeral Driver_complete_def oneshot_send_def r_then_def r_modify_def
      Driver_send_queued_def application_in_flight_def MAX_APPLICATION_IN_FLIGHT_def r_ret_def petition_outcome_def
      petition_result_def response_required_def set_status_def)

lemma wp_complete_all_unpetitioned:
  fixes d :: "('r, 's, 'h, 'w, 'd) Driver"
  assumes "core (G, False) cs d" "exchanges d = \<lparr>in_flight = [], queued = []\<rparr>" "\<not> is_closed d" "keep_alive_at d = None"
    "\<forall>c \<in> set cs. is_application c \<or> is_petition c"
    and "\<And>d'. core (G, False) [] d' \<Longrightarrow> exchanges d' = \<lparr>in_flight = [], queued = []\<rparr> \<Longrightarrow> keep_alive_at d' = None \<Longrightarrow> Q () d'"
  shows "wp L (complete_all (calls e) err cs) Q d"
  using assms
proof (induction cs arbitrary: d)
  case (Cons c cs)
  consider (app) i r where "c = Caller i r" | (pet) r where "c = Petition r"
    using Cons.prems(5) by (cases c) auto
  then show ?case
  proof cases
    case app
    have "core (G, False) cs (d\<lparr>d_replies := d_replies d @ [(r, ExchangeReply (Err err))]\<rparr>)"
      by (rule core_answered [OF Cons.prems(1)]) (simp_all add: app)
    then have "wp L (complete_all (calls e) err cs) Q (d\<lparr>d_replies := d_replies d @ [(r, ExchangeReply (Err err))]\<rparr>)"
      by (rule Cons.IH) (use Cons.prems in \<open>auto simp: is_closed_def\<close>)
    then show ?thesis
      by (simp add: app wp_def r_then_def calls_empty [OF Cons.prems(2)])
  next
    case pet
    have "control_ok cs (exchanges d) Connected (keep_alive_at d)"
      using Cons.prems(1,3) control_ok_petition [of r cs "exchanges d" "d_status d" "keep_alive_at d" Connected]
      by (auto simp: core_def pet is_closed_def)
    then have "core (G, False) cs (d\<lparr>d_status := Connected, d_replies := d_replies d @ [(r, PetitionReply (Err err))]\<rparr>)"
      using Cons.prems(1) by (simp add: core_def pet closed_ok_def ac_simps)
    then have "wp L (complete_all (calls e) err cs) Q (d\<lparr>d_status := Connected, d_replies := d_replies d @ [(r, PetitionReply (Err err))]\<rparr>)"
      by (rule Cons.IH) (use Cons.prems in \<open>auto simp: is_closed_def\<close>)
    then show ?thesis
      by (simp add: pet wp_def r_then_def calls_empty [OF Cons.prems(2)] Cons.prems(3))
  qed
qed (simp add: wp_ret)

lemma wp_receive_failed:
  fixes d :: "('r, 's, 'h, 'w, 'd) Driver"
  assumes L: "L \<longrightarrow> token_live (pf_curve e)" and s: "steady (G, True) d" "\<not> is_closed d"
  shows "wp L (receive_failed e err) (\<lambda>_. steady (G, True)) d"
proof -
  have c: "core (G, True) [] d"
    using s by (simp add: steady_def)
  have fin: "wp L (calls e (CallEndSession reason)) (\<lambda>_. steady (G, True)) d"
      "wp L (transport_failed e str) (\<lambda>_. steady (G, True)) d" for reason str
    by (rule wp_end_session [OF L c] wp_transport_failed [OF L c], erule (1) steady_closed)+
  have drop: "wp L (r_then Link_close (\<lambda>_. r_then (Driver_fail_all (calls e) err') (\<lambda>_. set_status Idle))) (\<lambda>_. steady (G, True)) d"
    if u: "Driver_session_id d = None" for err'
  proof -
    let ?cs = "map pd_completion (in_flight (exchanges d)) @ map snd (queued (exchanges d))"
    let ?d = "d\<lparr>d_link := None, exchanges := \<lparr>in_flight = [], queued = []\<rparr>\<rparr>"
    have ka: "keep_alive_at d = None" "many is_keep_alive [] (exchanges d) = 0" "many is_resign [] (exchanges d) = 0"
      using c u s(2) by (auto simp: core_def control_ok_def Driver_session_id_def is_closed_def)
    have pool: "mset ?cs = pool [] (exchanges d)"
      by (simp add: pool_def)
    have "is_application x \<or> is_petition x" if "x \<in> set ?cs" for x
    proof -
      have "x \<in># pool [] (exchanges d)"
        using that pool by (metis set_mset_mset)
      then show ?thesis
        using ka(2,3) by (cases x) (auto simp: many_def filter_mset_eq_mempty_iff)
    qed
    moreover have "core (G, False) ?cs ?d"
      using c s(2) pool_drain [of "exchanges d" "[]"]
      by (auto simp: core_def closed_ok_def control_ok_def many_def owed_def exchanges_ok_def application_in_flight_def is_closed_def)
    ultimately have "wp L (complete_all (calls e) err' ?cs) (\<lambda>_ d'. steady (G, True) (d'\<lparr>d_status := Idle\<rparr>)) ?d"
      by (intro wp_complete_all_unpetitioned)
        (use s(2) ka(1) in \<open>auto simp: is_closed_def steady_def core_def closed_ok_def control_ok_def many_def pool_def busy_def\<close>)
    then show ?thesis
      by (simp add: Link_close_def Driver_fail_all_def wp_simps)
        (simp add: wp_def drain_exchanges_def Exchanges_drain_def exchanges_cleared)
  qed
  show ?thesis
    using fin drop by (auto simp: receive_failed_def Let_def wp_then [of L "r_get _"] wp_get intro!: wp_if)
qed

text \<open>The reply channels a wake hands out, and those whose caller withdrew.\<close>

fun issued :: "'h Wake \<Rightarrow> nat multiset" where
  "issued (WakeCommand (Some (Exchange _ _ r))) = {#r#}"
| "issued (WakeCommand (Some (PetitionCommand r))) = {#r#}"
| "issued (WakeCommand (Some (KeepAliveCommand r))) = {#r#}"
| "issued (WakeCommand (Some (ResignCommand r))) = {#r#}"
| "issued _ = {#}"

fun withdrawn :: "'h Wake \<Rightarrow> Exchanges \<Rightarrow> nat multiset" where
  "withdrawn (WakeCommand (Some (Withdraw i))) x = owed [] x - owed [] (fst (Exchanges_withdraw i x))"
| "withdrawn _ x = {#}"

lemma core_drop:
  assumes "core (G, b) (c # cs) d" "\<not> is_petition c"
  shows "core (G - handles c, b) cs d"
  using assms control_ok_drop [of c cs "exchanges d"] by (auto simp: core_def)

lemma core_dequeue:
  assumes c: "core G cs d" and j: "j < length (queued (exchanges d))"
  defines "x \<equiv> (exchanges d)\<lparr>queued := remove_at j (queued (exchanges d))\<rparr>"
  shows "core G (snd (queued (exchanges d) ! j) # cs) (d\<lparr>exchanges := x\<rparr>)"
    "pool (snd (queued (exchanges d) ! j) # cs) x = pool cs (exchanges d)"
proof -
  show pool: "pool (snd (queued (exchanges d) ! j) # cs) x = pool cs (exchanges d)"
    using mset_map_remove_at [OF j, of snd] by (simp add: pool_def x_def ac_simps)
  have "exchanges_ok x"
    using c set_remove_at [of j "queued (exchanges d)"] by (auto simp: core_def exchanges_ok_def x_def application_in_flight_def)
  moreover have "\<not> status_closed (d_status d)"
    using core_closed [OF c] j by (auto simp: is_closed_def)
  moreover have "control_ok (snd (queued (exchanges d) ! j) # cs) x st ka = control_ok cs (exchanges d) st ka" for st ka
    by (simp add: control_ok_def many_def pool)
  moreover have "owed (snd (queued (exchanges d) ! j) # cs) x = owed cs (exchanges d)"
    by (simp add: owed_def pool)
  ultimately show "core G (snd (queued (exchanges d) ! j) # cs) (d\<lparr>exchanges := x\<rparr>)"
    using c by (simp add: core_def closed_ok_def del: owed_Cons)
qed

lemma core_withdraw:
  assumes c: "core (G, b) [] d" and w: "Exchanges_withdraw i (exchanges d) = (x, found)"
  shows "core (G - (owed [] (exchanges d) - owed [] x), b) [] (d\<lparr>exchanges := x\<rparr>)" "\<not> found \<Longrightarrow> x = exchanges d"
proof -
  have dn: "core (G - (owed [] (exchanges d) - owed [] x), b) [] (d\<lparr>exchanges := x\<rparr>)"
    if "core (G, b) [c] (d\<lparr>exchanges := x\<rparr>)" "is_caller i c" "pool [c] x = pool [] (exchanges d)" for c
  proof -
    have "core (G - handles c, b) [] (d\<lparr>exchanges := x\<rparr>)"
      using that(1) by (rule core_drop) (use that(2) in \<open>cases c, auto\<close>)
    moreover have "owed [] (exchanges d) = handles c + owed [] x"
      using that(3) owed_Cons [of c "[]" x] by (simp add: owed_def)
    ultimately show ?thesis
      by simp
  qed
  consider (queue) j where "position (\<lambda>(_, c). is_caller i c) (queued (exchanges d)) = Some j"
    | (flight) j where "position (\<lambda>(_, c). is_caller i c) (queued (exchanges d)) = None"
        "position (\<lambda>p. is_caller i (pd_completion p)) (in_flight (exchanges d)) = Some j"
    | (none) "x = exchanges d" "\<not> found"
    using w by (auto simp: Exchanges_withdraw_def split: option.splits)
  then have "core (G - (owed [] (exchanges d) - owed [] x), b) [] (d\<lparr>exchanges := x\<rparr>) \<and> (\<not> found \<longrightarrow> x = exchanges d)"
  proof cases
    case queue
    then have x: "x = (exchanges d)\<lparr>queued := remove_at j (queued (exchanges d))\<rparr>" "found"
      using w by (auto simp: Exchanges_withdraw_def)
    from position_SomeD [OF queue] have "j < length (queued (exchanges d))" "is_caller i (snd (queued (exchanges d) ! j))"
      by (auto simp: case_prod_beta)
    with dn core_dequeue [OF c, of j] x show ?thesis
      by auto
  next
    case flight
    then have x: "x = (exchanges d)\<lparr>in_flight := remove_at j (in_flight (exchanges d))\<rparr>" "found"
      using w by (auto simp: Exchanges_withdraw_def)
    from position_SomeD [OF flight(2)] have j: "j < length (in_flight (exchanges d))" "is_caller i (pd_completion (in_flight (exchanges d) ! j))"
      by auto
    have "pool [pd_completion (in_flight (exchanges d) ! j)] x = pool [] (exchanges d)"
      using mset_map_remove_at [OF j(1), of pd_completion] by (simp add: pool_def x ac_simps)
    with dn core_remove [OF c j(1)] x j(2) show ?thesis
      by auto
  qed (use c in simp)
  then show "core (G - (owed [] (exchanges d) - owed [] x), b) [] (d\<lparr>exchanges := x\<rparr>)" "\<not> found \<Longrightarrow> x = exchanges d"
    by simp_all
qed

lemma wp_withdraw:
  assumes L: "L \<longrightarrow> token_live (pf_curve e)" and s: "steady (G, True) d"
  shows "wp L (Driver_withdraw e i) (\<lambda>_. steady (G - withdrawn (WakeCommand (Some (Withdraw i))) (exchanges d), True)) d"
proof -
  obtain x found where w: "Exchanges_withdraw i (exchanges d) = (x, found)"
    by (cases "Exchanges_withdraw i (exchanges d)")
  have "core (G, True) [] d"
    using s by (simp add: steady_def)
  note c = core_withdraw [OF this w]
  have "wp L (calls e CallSendQueued) (\<lambda>_. steady (G - (owed [] (exchanges d) - owed [] x), True)) (d\<lparr>exchanges := x\<rparr>)"
    by (rule wp_send_queued [OF L c(1)])
  with c(2) s show ?thesis
    by (cases found) (simp_all add: wp_def Driver_withdraw_def w r_ret_def)
qed

lemma steady_world [simp]: "steady G (d\<lparr>d_world := w\<rparr>) = steady G d"
  by (rule steady_same) simp

lemma wp_run_timers:
  fixes d :: "('r, 's, 'h, 'w, 'd) Driver"
  assumes L: "L \<longrightarrow> token_live (pf_curve e)" and s: "steady (G, True) d" "\<not> is_closed d"
  shows "wp L (run_timers e) (\<lambda>_. steady (G, True)) d"
proof -
  have ka: "wp L (r_then (r_get keep_alive_at) (\<lambda>at. case at of
               None \<Rightarrow> r_ret ()
             | Some t \<Rightarrow> r_then (driver_now e) (\<lambda>now. if t \<le> now then send_keep_alive e (KeepAlive None) else r_ret ())))
             (\<lambda>_. steady (G, True)) d'" if s': "steady (G, True) d'" for d' :: "('r, 's, 'h, 'w, 'd) Driver"
  proof (cases "keep_alive_at d'")
    case (Some t)
    have "wp L (if t \<le> now then send_keep_alive e (KeepAlive None) else r_ret ()) (\<lambda>_. steady (G, True)) (d'\<lparr>d_world := w\<rparr>)" for now w
    proof -
      have sw: "steady (G, True) (d'\<lparr>d_world := w\<rparr>)"
        using s' by simp
      have "Driver_session_id d' \<noteq> None" "many is_keep_alive [] (exchanges d') = 0"
        using s' Some by (auto simp: steady_def core_def control_ok_def Driver_session_id_def)
      then have "wp L (send_keep_alive e (KeepAlive None)) (\<lambda>_. steady (G, True)) (d'\<lparr>d_world := w\<rparr>)"
        by (intro wp_send_keep_alive [OF L sw]) (simp_all add: Driver_session_id_def)
      with sw show ?thesis
        by (simp add: wp_ret)
    qed
    then have "wp L (r_then (driver_now e) (\<lambda>now. if t \<le> now then send_keep_alive e (KeepAlive None) else r_ret ())) (\<lambda>_. steady (G, True)) d'"
      unfolding wp_then by (intro wp_now)
    with Some show ?thesis
      by (simp add: wp_then [of L "r_get _"] wp_get)
  qed (use s' in \<open>simp add: wp_then wp_get wp_ret\<close>)
  have "wp L (run_exchange_timers e) (\<lambda>_. steady (G, True)) d"
    unfolding run_exchange_timers_def wp_then
  proof (rule wp_now)
    fix now w
    have sw: "steady (G, True) (d\<lparr>d_world := w\<rparr>)" "\<not> is_closed (d\<lparr>d_world := w\<rparr>)"
      using s by (simp_all add: is_closed_def)
    have "wp L (exchange_timers e (2 * p + 1) now 0) (\<lambda>_. steady (G, True)) (d\<lparr>d_world := w\<rparr>)"
      if "length (in_flight (exchanges d)) + length (queued (exchanges d)) = p" for p
      by (rule wp_exchange_timers [OF L sw, of p]) (use that in simp_all)
    then show "wp L (\<lambda>d. exchange_timers e (2 * (length (in_flight (exchanges d)) + length (queued (exchanges d))) + 1) now 0 d)
        (\<lambda>_. steady (G, True)) (d\<lparr>d_world := w\<rparr>)"
      by (simp add: wp_def del: exchange_timers.simps)
  qed
  then have "wp L (run_exchange_timers e) (\<lambda>_. wp L (r_then (r_get is_closed)
       (\<lambda>closed. if closed then r_ret ()
        else r_then (r_get keep_alive_at)
          (\<lambda>at. case at of
               None \<Rightarrow> r_ret ()
             | Some t \<Rightarrow>
                 r_then (driver_now e)
                   (\<lambda>now. if t \<le> now then send_keep_alive e (KeepAlive None) else r_ret ())))) (\<lambda>_. steady (G, True))) d"
    by (rule wp_mono) (use ka in \<open>auto simp: wp_then [of L "r_get is_closed"] wp_get wp_ret\<close>)
  then show ?thesis
    by (simp add: run_timers_def wp_then [of L "run_exchange_timers e"])
qed

lemma wp_command:
  fixes d :: "('r, 's, 'h, 'w, 'd) Driver"
  assumes L: "L \<longrightarrow> token_live (pf_curve e)" and s: "steady (G, True) d" "\<not> is_closed d"
  shows "wp L (handle_command e cmd)
    (\<lambda>_. steady (issued (WakeCommand (Some cmd)) + (G - withdrawn (WakeCommand (Some cmd)) (exchanges d)), True)) d"
proof (cases cmd)
  case (Exchange i request r)
  have "wp L (ensure_open e) (\<lambda>opened. wp L (case opened of
                    Inl err \<Rightarrow> oneshot_send r (ExchangeReply (Err err))
                  | Inr _ \<Rightarrow> Driver_submit e request (Caller i r)) (\<lambda>_. steady (add_mset r G, True))) d"
    by (rule wp_ensure_open [OF s])
      (auto simp: wp_oneshot_send intro!: steady_issue wp_submit [OF L] split: sum.split)
  then show ?thesis
    using steady_issue [OF s(1)] by (simp add: Exchange handle_command_def wp_simps)
next
  case (Withdraw i)
  then show ?thesis
    using wp_withdraw [OF L s(1), of i] by (simp add: handle_command_def)
next
  case (PetitionCommand r)
  then show ?thesis
    using wp_petition_command [OF L s, of r "\<lambda>_. steady (add_mset r G, True)"] by (simp add: handle_command_def)
next
  case (KeepAliveCommand r)
  show ?thesis
  proof (cases "keep_alive_refusal d")
    case None
    then have "Driver_session_id d \<noteq> None" "\<not> keep_alive_outstanding (exchanges d)"
      by (auto simp: keep_alive_refusal_def split: if_splits)
    moreover from this(2) have "many is_keep_alive [] (exchanges d) = 0"
      using s by (intro not_outstanding(1)) (auto simp: steady_def core_def)
    ultimately have "wp L (send_keep_alive e (KeepAlive (Some r))) (\<lambda>_. steady (add_mset r G, True)) d"
      by (intro wp_send_keep_alive [OF L s(1)]) simp_all
    with None show ?thesis
      by (simp add: KeepAliveCommand handle_command_def wp_simps)
  qed (use steady_issue [OF s(1)] in \<open>simp add: KeepAliveCommand handle_command_def wp_simps\<close>)
next
  case (ResignCommand r)
  have "wp L (Driver_resign e (Some r)) (\<lambda>_. steady (add_mset r G, True)) d" if "\<not> resigning (exchanges d)"
    by (rule wp_resign [OF L s(1) that]) simp
  then show ?thesis
    using steady_issue [OF s(1)] by (simp add: ResignCommand handle_command_def wp_simps)
next
  case (SetJoinerHandler h)
  have "steady (G, True) (d\<lparr>joiner_sessions := js, joiner_handler := h\<rparr>)" for js
    using s by (simp add: steady_def core_def closed_ok_def is_closed_def)
  then show ?thesis
    by (simp add: SetJoinerHandler handle_command_def wp_simps)
qed

text \<open>The guards of waiting for a wake: receiving needs an open link.\<close>

fun ready :: "'h Wake \<Rightarrow> ('r, 's, 'h, 'w, 'd) Driver \<Rightarrow> bool" where
  "ready (Received _) d \<longleftrightarrow> Link_is_open d"
| "ready (WakeCommand _) d \<longleftrightarrow> \<not> handles_dropped d"
| "ready Timer d \<longleftrightarrow> True"

lemma wp_wake:
  fixes d :: "('r, 's, 'h, 'w, 'd) Driver"
  assumes L: "L \<longrightarrow> token_live (pf_curve e)" and fills: "rng_fills (pf_curve e)"
    and s: "steady (G, True) d" "\<not> is_closed d" and r: "ready wake d"
  shows "wp L (handle_wake e wake) (\<lambda>_. settled (issued wake + (G - withdrawn wake (exchanges d)))) d"
proof -
  have steady: "wp L m (\<lambda>_. settled G') d" if "wp L m (\<lambda>_. steady (G', True)) d" for m :: "('r, 's, 'h, 'w, 'd, unit) driver_action" and G'
    using that by (rule wp_mono) (rule settled_steady)
  consider (cmd) c where "wake = WakeCommand (Some c)" | (dropped) "wake = WakeCommand None"
    | (data) bs where "wake = Received (Inr bs)" | (fail) err where "wake = Received (Inl err)" | (timer) "wake = Timer"
    by (metis Wake.exhaust option.exhaust sum.exhaust)
  then show ?thesis
  proof cases
    case cmd
    then show ?thesis
      using steady [OF wp_command [OF L s, of c]] by (simp add: handle_wake_def)
  next
    case dropped
    have sd: "steady (G, True) (d\<lparr>handles_dropped := True\<rparr>)"
      using s(1) by (simp add: steady_def core_def)
    have "wp L (Driver_resign e None) (\<lambda>_. steady (G, True)) (d\<lparr>handles_dropped := True\<rparr>)" if "\<not> resigning (exchanges d)"
      by (rule wp_resign [OF L sd]) (use that in simp_all)
    with sd have "wp L (Driver_handles_dropped e) (\<lambda>_. steady (G, True)) d"
      by (simp add: Driver_handles_dropped_def wp_simps)
    then show ?thesis
      using steady dropped by (simp add: handle_wake_def)
  next
    case data
    then have "live (G, True) d"
      using s r by (simp add: live_def Link_is_open_def)
    then show ?thesis
      using wp_handle_datagram [OF L fills, of G d bs] by (simp add: data handle_wake_def)
  next
    case fail
    then show ?thesis
      using steady [OF wp_receive_failed [OF L s, of err]] by (simp add: handle_wake_def)
  next
    case timer
    then show ?thesis
      using steady [OF wp_run_timers [OF L s]] by (simp add: handle_wake_def)
  qed
qed

section \<open>Runs\<close>

text \<open>
  The loop: a wake is handled while the session is not closed. A run records the reply channels handed
  to the driver and those whose caller withdrew.
\<close>

inductive driver_run ::
  "('r, 's, 'p, 'w, 'd) platform \<Rightarrow> ('r, 's, 'h, 'w, 'd) Driver \<Rightarrow> nat multiset \<Rightarrow> nat multiset \<Rightarrow>
     ('r, 's, 'h, 'w, 'd) Driver \<Rightarrow> bool" for e d0 where
  driver_run_start: "driver_run e d0 {#} {#} d0"
| driver_run_wake:
    "driver_run e d0 I W d \<Longrightarrow> \<not> is_closed d \<Longrightarrow> ready wake d \<Longrightarrow> handle_wake e wake d = Some ((), d') \<Longrightarrow>
     driver_run e d0 (I + issued wake) (W + withdrawn wake (exchanges d)) d'"

definition session_start :: "('r, 's, 'h, 'w, 'd) Driver \<Rightarrow> bool" where
  "session_start d \<longleftrightarrow> (\<exists>link config border_agent rng world. d = Driver_new link config border_agent rng world)"

lemma steady_new: "steady ({#}, True) (Driver_new link config border_agent rng world)"
  by (simp add: steady_def core_def Driver_new_def owed_def pool_def exchanges_ok_def application_in_flight_def
      control_ok_def many_def closed_ok_def busy_def)

lemma withdrawn_owed: "withdrawn wake x \<subseteq># owed [] x"
  by (cases "(wake, x)" rule: withdrawn.cases) (simp_all del: withdrawn.simps, simp_all)

lemma driver_run_settled:
  assumes "driver_run e d0 I W d" "session_start d0" "rng_fills (pf_curve e)"
  shows "\<exists>H. I = H + W \<and> settled H d"
  using assms(1)
proof induction
  case driver_run_start
  then show ?case
    using assms(2) settled_steady [OF steady_new] by (auto simp: session_start_def)
next
  case (driver_run_wake I W d wake d')
  then obtain H where H: "I = H + W" "steady (H, True) d"
    by (auto simp: settled_def)
  have "wp False (handle_wake e wake) (\<lambda>_. settled (issued wake + (H - withdrawn wake (exchanges d)))) d"
    by (rule wp_wake) (use assms(3) H driver_run_wake in auto)
  then have s: "settled (issued wake + (H - withdrawn wake (exchanges d))) d'"
    using driver_run_wake.hyps by (simp add: wp_def)
  have "withdrawn wake (exchanges d) \<subseteq># H"
    using withdrawn_owed H(2) by (force simp: steady_def core_def intro: subset_mset.order_trans)
  then have "I + issued wake = (issued wake + (H - withdrawn wake (exchanges d))) + (W + withdrawn wake (exchanges d))"
    using H(1) by (metis (no_types, lifting) add.assoc add.commute subset_mset.add_diff_inverse)
  with s show ?case
    by blast
qed

lemma driver_run_steady:
  assumes "driver_run e d0 I W d" "session_start d0" "rng_fills (pf_curve e)" "\<not> is_closed d"
  shows "\<exists>H. I = H + W \<and> steady (H, True) d"
  using driver_run_settled [OF assms(1-3)] assms(4) by (auto simp: settled_def)

end
