(* ===== verification/Driver_Live.thy ===== *)
theory Driver_Live
  imports Driver_Runs
begin

text \<open>
  Progress of the driver: when the timer runs, every exchange past its deadline is answered and none is
  left behind. The theory follows the clock through the calls of the driver, which only append exchanges
  with later deadlines or close the session, and holds the properties of the driver.
\<close>

section \<open>Time\<close>

definition monotone_clock :: "('r, 's, 'p, 'w, 'd) platform \<Rightarrow> bool" where
  "monotone_clock e \<longleftrightarrow>
     (\<forall>w. fst (clock e w) \<le> fst (clock e (snd (clock e w)))) \<and>
     (\<forall>s bs w. fst (clock e w) \<le> fst (clock e (snd (dtls_send e s bs w)))) \<and>
     (\<forall>w. fst (clock e w) \<le> fst (clock e (snd (dtls_connect e w))))"

definition reached :: "('r, 's, 'p, 'w, 'd) platform \<Rightarrow> nat \<Rightarrow> ('r, 's, 'h, 'w, 'd) Driver \<Rightarrow> bool" where
  "reached e now d \<longleftrightarrow> now \<le> fst (clock e (d_world d))"

text \<open>What happens to the exchanges between two states: some are added at the end, due later than \<open>now\<close>,
  unless the session is closed; replies are only added.\<close>

definition grows :: "('r, 's, 'p, 'w, 'd) platform \<Rightarrow> nat \<Rightarrow> ('r, 's, 'h, 'w, 'd) Driver \<Rightarrow> ('r, 's, 'h, 'w, 'd) Driver \<Rightarrow> bool" where
  "grows e now d d' \<longleftrightarrow>
     reached e now d' \<and> (is_closed d \<longrightarrow> is_closed d') \<and> (\<exists>rs. d_replies d' = d_replies d @ rs) \<and>
     (is_closed d' \<or> (\<exists>new. in_flight (exchanges d') = in_flight (exchanges d) @ new \<and> (\<forall>p \<in> set new. now < deadline p)))"

lemma grows_refl: "reached e now d \<Longrightarrow> grows e now d d"
  by (simp add: grows_def)

lemma grows_trans:
  assumes "grows e now d d'" "grows e now d' d''"
  shows "grows e now d d''"
proof -
  obtain rs rs' where "d_replies d' = d_replies d @ rs" "d_replies d'' = d_replies d' @ rs'"
    using assms by (auto simp: grows_def)
  moreover have "is_closed d'' \<or> (\<exists>new. in_flight (exchanges d'') = in_flight (exchanges d) @ new \<and> (\<forall>p \<in> set new. now < deadline p))"
  proof (cases "is_closed d''")
    case False
    then obtain new new' where "in_flight (exchanges d') = in_flight (exchanges d) @ new" "\<forall>p \<in> set new. now < deadline p"
        "in_flight (exchanges d'') = in_flight (exchanges d') @ new'" "\<forall>p \<in> set new'. now < deadline p"
      using assms by (auto simp: grows_def)
    then have "in_flight (exchanges d'') = in_flight (exchanges d) @ new @ new'" "\<forall>p \<in> set (new @ new'). now < deadline p"
      by auto
    then show ?thesis
      by blast
  qed simp
  ultimately show ?thesis
    using assms by (auto simp: grows_def)
qed

lemma grows_upd:
  assumes "reached e now d"
  shows "grows e now d (d\<lparr>d_events := ev\<rparr>)" "grows e now d (d\<lparr>d_replies := d_replies d @ rs\<rparr>)"
    "grows e now d (d\<lparr>next_message_id := mid, d_rng := r\<rparr>)" "grows e now d (d\<lparr>d_rng := r\<rparr>)"
    "grows e now d (d\<lparr>exchanges := (exchanges d)\<lparr>queued := q\<rparr>\<rparr>)"
    "grows e now d (d\<lparr>keep_alive_at := ka\<rparr>)"
  using assms by (simp_all add: grows_def reached_def is_closed_def)

lemma grows_world:
  assumes "monotone_clock e" "reached e now d"
  shows "grows e now d (d\<lparr>d_world := snd (clock e (d_world d))\<rparr>)"
    "grows e now d (d\<lparr>d_link := l, d_world := snd (dtls_send e s bs (d_world d))\<rparr>)"
  using assms by (auto simp: grows_def reached_def is_closed_def monotone_clock_def intro: le_trans)

text \<open>A computation that grows the state, from every state the clock has reached.\<close>

definition growing :: "('r, 's, 'p, 'w, 'd) platform \<Rightarrow> nat \<Rightarrow> ('r, 's, 'h, 'w, 'd, 'a) driver_action \<Rightarrow> bool" where
  "growing e now m \<longleftrightarrow> (\<forall>d. reached e now d \<longrightarrow> wp False m (\<lambda>_. grows e now d) d)"

lemma growing_wp: "growing e now m \<Longrightarrow> reached e now d \<Longrightarrow> wp False m (\<lambda>_. grows e now d) d"
  by (simp add: growing_def)

lemma growing_ret: "growing e now (r_ret x)"
  by (simp add: growing_def wp_ret grows_refl)

lemma growing_get: "growing e now (r_get f)"
  by (simp add: growing_def wp_get grows_refl)

lemma growing_then:
  fixes m :: "('r, 's, 'h, 'w, 'd, 'a) driver_action"
  assumes "growing e now m" "\<And>x. growing e now (f x)"
  shows "growing e now (r_then m f)"
  unfolding growing_def wp_then
proof (intro allI impI)
  fix d :: "('r, 's, 'h, 'w, 'd) Driver"
  assume "reached e now d"
  with assms(1) have "wp False m (\<lambda>_. grows e now d) d"
    by (rule growing_wp)
  then show "wp False m (\<lambda>x. wp False (f x) (\<lambda>_. grows e now d)) d"
  proof (rule wp_mono)
    fix x and d' :: "('r, 's, 'h, 'w, 'd) Driver"
    assume g: "grows e now d d'"
    then have "reached e now d'"
      by (simp add: grows_def)
    with assms(2) have "wp False (f x) (\<lambda>_. grows e now d') d'"
      by (rule growing_wp)
    then show "wp False (f x) (\<lambda>_. grows e now d) d'"
      by (rule wp_mono) (rule grows_trans [OF g])
  qed
qed

lemma growing_try: "growing e now m \<Longrightarrow> (\<And>x. growing e now (f x)) \<Longrightarrow> growing e now (r_try m f)"
  by (auto simp: r_try_def intro!: growing_then growing_ret split: sum.split)

lemma growing_if: "(b \<Longrightarrow> growing e now m) \<Longrightarrow> (\<not> b \<Longrightarrow> growing e now m') \<Longrightarrow> growing e now (if b then m else m')"
  by simp

lemma growing_state: "(\<And>d. growing e now (m d)) \<Longrightarrow> growing e now (\<lambda>d. m d d)"
  by (simp add: growing_def wp_def)

lemma growing_primitive:
  "growing e now (publish ev)" "growing e now (oneshot_send i v)" "growing e now (oneshot_send_opt r v)" "growing e now pop_queued"
  by (auto simp: growing_def wp_simps pop_queued_def intro: grows_upd grows_refl split: option.split)

lemma growing_assign: "growing e now (assign_identity e' m)"
  by (auto simp: growing_def wp_def assign_identity_def Let_def intro: grows_upd split: option.split prod.split)

lemma growing_now: "monotone_clock e \<Longrightarrow> growing e now (driver_now e)"
  by (auto simp: growing_def wp_def driver_now_def dest: grows_world(1) split: prod.split)

lemma growing_Link_send: "monotone_clock e \<Longrightarrow> growing e now (Link_send e m)"
  unfolding growing_def wp_def Link_send_def
  by (auto simp: grows_refl split: prod.split option.split sum.split) (metis grows_world(2) snd_conv)

lemma growing_wire: "growing e now (wire_message e' m dest)"
  by (auto simp: wire_message_def intro!: growing_ret growing_then growing_assign split: Destination.split sum.split)

lemmas growing_intros = growing_ret growing_get growing_then growing_try growing_if growing_primitive growing_assign
  growing_now growing_Link_send growing_wire

section \<open>The calls grow the state\<close>

lemma growing_schedule: "monotone_clock e \<Longrightarrow> growing e now (schedule_keep_alive e)"
proof -
  assume e: "monotone_clock e"
  have set_at: "growing e now (r_modify (\<lambda>d :: ('a, 'b, 'f, 'd, 'e) Driver. d\<lparr>keep_alive_at := Some (t + keepalive_interval (d_config d))\<rparr>))" for t
    by (auto simp: growing_def wp_modify intro: grows_upd)
  have "growing e now (\<lambda>d. (if keep_alive (d_config d) = Automatic \<and> Driver_session_id d \<noteq> None then r_then (driver_now e)
          (\<lambda>now. r_modify (\<lambda>d :: ('a, 'b, 'f, 'd, 'e) Driver. d\<lparr>keep_alive_at := Some (now + keepalive_interval (d_config d))\<rparr>)) else r_ret ()) d)"
    by (rule growing_state) (intro growing_intros e set_at)
  moreover have "schedule_keep_alive e = (\<lambda>d. (if keep_alive (d_config d) = Automatic \<and> Driver_session_id d \<noteq> None then r_then (driver_now e)
          (\<lambda>now. r_modify (\<lambda>d :: ('a, 'b, 'f, 'd, 'e) Driver. d\<lparr>keep_alive_at := Some (now + keepalive_interval (d_config d))\<rparr>)) else r_ret ()) d)"
    by (auto simp: fun_eq_iff schedule_keep_alive_def)
  ultimately show ?thesis
    by metis
qed

lemma growing_petition_outcome:
  assumes e: "monotone_clock e"
  shows "growing e now (petition_outcome e outcome)"
  unfolding growing_def
proof (intro allI impI)
  fix d :: "('a, 'b, 'f, 'd, 'e) Driver"
  assume r: "reached e now d"
  show "wp False (petition_outcome e outcome) (\<lambda>_. grows e now d) d"
  proof (cases "is_closed d")
    case True
    then show ?thesis
      using r by (simp add: petition_outcome_def wp_def r_ret_def grows_refl)
  next
    case False
    have st: "grows e now d (d\<lparr>d_status := st\<rparr>)" for st
      using r False by (simp add: grows_def reached_def)
    then have "reached e now (d\<lparr>d_status := st\<rparr>)" for st
      using r by (simp add: reached_def)
    then have "wp False (schedule_keep_alive e) (\<lambda>_. grows e now d) (d\<lparr>d_status := st\<rparr>)" for st
      by (rule wp_mono [OF growing_wp [OF growing_schedule [OF e]]]) (rule grows_trans [OF st])
    with st have "wp False (r_then (case petition_result outcome of
               Inr petition \<Rightarrow> r_then (set_status (Active (pr_session_id petition))) (\<lambda>_. schedule_keep_alive e)
             | Inl _ \<Rightarrow> set_status Connected)
             (\<lambda>_. r_ret (petition_result outcome))) (\<lambda>_. grows e now d) d"
      by (simp add: wp_then wp_ret wp_set_status split: sum.split)
    with False show ?thesis
      by (simp add: petition_outcome_def Let_def wp_def)
  qed
qed

lemma growing_track: "monotone_clock e \<Longrightarrow> growing e now (track_pending e m request c)"
proof -
  assume e: "monotone_clock e"
  show ?thesis
    unfolding growing_def track_pending_def wp_then
  proof (intro allI impI)
    fix d :: "('a, 'b, 'f, 'd, 'e) Driver"
    assume r: "reached e now d"
    define t where "t = fst (clock e (d_world d))"
    have t: "now \<le> t"
      using r by (simp add: reached_def t_def)
    let ?d = "d\<lparr>d_world := snd (clock e (d_world d))\<rparr>"
    have g: "grows e now d ?d"
      by (rule grows_world [OF e r])
    have push: "wp False (push_pending p) (\<lambda>_. grows e now d) d'" if "grows e now ?d d'" "deadline p = t + COAP_EXCHANGE_TIMEOUT" for p and d' :: "('a, 'b, 'f, 'd, 'e) Driver"
    proof -
      have "now < deadline p"
        using t that(2) by (simp add: const_defs)
      then have "grows e now d' (d'\<lparr>exchanges := (exchanges d')\<lparr>in_flight := in_flight (exchanges d') @ [p]\<rparr>\<rparr>)"
        using that(1) by (simp add: grows_def reached_def is_closed_def)
      with that(1) g show ?thesis
        by (auto simp: push_pending_def wp_modify intro: grows_trans)
    qed
    have rand: "wp False (random_schedule e) Q d'" if "\<And>s r. Q s (d'\<lparr>d_rng := r\<rparr>)" for Q and d' :: "('a, 'b, 'f, 'd, 'e) Driver"
      using that by (simp add: wp_def random_schedule_def split: prod.split)
    have g': "grows e now ?d (?d\<lparr>d_rng := r\<rparr>)" "grows e now ?d ?d" for r
      using grows_upd(4) [of e now ?d] grows_refl [of e now ?d] g unfolding grows_def by blast+
    show "wp False (driver_now e) (\<lambda>now'. wp False (if coap_ty m = Confirmable then r_then (random_schedule e) (\<lambda>s. r_ret (Some s)) else r_ret None)
        (\<lambda>retransmit. wp False (push_pending
          \<lparr>pd_request = m, pd_destination = out_destination request, pd_label = out_label request,
           pd_retransmit = retransmit,
           retry_at = map_option (\<lambda>t. now' + t) (Option.bind retransmit CoapRetransmitSchedule_timeout),
           deadline = now' + COAP_EXCHANGE_TIMEOUT, pd_completion = c\<rparr>) (\<lambda>_. grows e now d))) d"
      using push g' rand
      by (cases "coap_ty m = Confirmable") (auto simp: wp_def [of _ "driver_now e"] driver_now_def t_def wp_then wp_ret split: prod.split)
  qed
qed


lemma growing_complete_all: "(\<And>call. growing e now (k call)) \<Longrightarrow> growing e now (complete_all k err cs)"
  by (induction cs) (auto intro: growing_intros)

lemma growing_end_session:
  assumes k: "\<And>call. growing e now (k call)"
  shows "growing e now (Driver_end_session k reason)"
  unfolding growing_def
proof (intro allI impI)
  fix d :: "('a, 'b, 'f, 'd, 'e) Driver"
  assume r: "reached e now d"
  show "wp False (Driver_end_session k reason) (\<lambda>_. grows e now d) d"
  proof (cases "is_closed d")
    case True
    then show ?thesis
      using r by (simp add: Driver_end_session_def wp_def r_ret_def grows_refl)
  next
    case False
    let ?err = "if reason \<noteq> Resigned then error.SessionLost reason else error.SessionClosed"
    let ?d = "d\<lparr>d_status := Closed reason, keep_alive_at := None, joiner_sessions := Map.empty, d_link := None,
        exchanges := \<lparr>in_flight = [], queued = []\<rparr>\<rparr>"
    have g: "grows e now d d'" if "grows e now ?d d'" for d'
      using that by (auto simp: grows_def is_closed_def)
    have "growing e now (r_then (complete_all k ?err cs) (\<lambda>_. if reason \<noteq> Resigned then publish (SessionLost reason) else r_ret ()))" for cs
      by (intro growing_intros growing_complete_all k)
    then have "wp False (r_then (complete_all k ?err cs) (\<lambda>_. if reason \<noteq> Resigned then publish (SessionLost reason) else r_ret ()))
        (\<lambda>_. grows e now d) ?d" for cs
      by (rule wp_mono [OF growing_wp]) (use r g in \<open>auto simp: reached_def\<close>)
    then have "wp False (r_then (begin_end_session reason) (\<lambda>_. r_then (Driver_fail_all k ?err)
        (\<lambda>_. if reason \<noteq> Resigned then publish (SessionLost reason) else r_ret ()))) (\<lambda>_. grows e now d) d"
      unfolding wp_then begin_end_session_def wp_modify Driver_fail_all_def
      by (simp add: wp_def [of _ drain_exchanges] drain_exchanges_def Exchanges_drain_def exchanges_cleared)
    with False show ?thesis
      by (simp add: wp_def Driver_end_session_def)
  qed
qed

lemma send_queued_eq:
  "Driver_send_queued k = (\<lambda>d. (if application_in_flight (exchanges d) < MAX_APPLICATION_IN_FLIGHT then
       (case queued (exchanges d) of
          [] \<Rightarrow> r_ret ()
        | (request, cmp) # _ \<Rightarrow>
            r_then pop_queued
              (\<lambda>_. r_then (k (CallStart request cmp))
              (\<lambda>_. r_then (r_get is_closed)
              (\<lambda>closed. if closed then r_ret () else k CallSendQueued))))
     else r_ret ()) d)"
  by (simp add: fun_eq_iff Driver_send_queued_def split: list.split prod.split)

lemma growing_driver_call:
  assumes e: "monotone_clock e"
  shows "growing e now (driver_call e n call)"
proof (induction n arbitrary: call)
  case 0
  then show ?case
    by (simp add: growing_def wp_def)
next
  case (Suc n)
  note intros = growing_intros Suc.IH e growing_petition_outcome growing_schedule growing_track growing_end_session
  show ?case
  proof (cases call)
    case (CallComplete c outcome)
    show ?thesis
      unfolding CallComplete driver_call.simps DriverCall.case Driver_complete_def Driver_keep_alive_outcome_def Let_def
      by (cases c; simp) (auto intro!: intros split: sum.split option.split)
  next
    case CallSendQueued
    show ?thesis
      unfolding CallSendQueued driver_call.simps DriverCall.case send_queued_eq by (rule growing_state) (auto intro!: intros split: list.split)
  next
    case (CallStart request c)
    show ?thesis
      unfolding CallStart driver_call.simps DriverCall.case Driver_start_def Driver_fail_send_def
      by (auto intro!: intros split: sum.split)
  next
    case (CallEndSession reason)
    show ?thesis
      unfolding CallEndSession driver_call.simps DriverCall.case by (rule growing_end_session) (rule Suc.IH)
  qed
qed

lemma growing_calls: "monotone_clock e \<Longrightarrow> growing e now (calls e call)"
  unfolding growing_def wp_def calls_def using growing_wp [OF growing_driver_call, unfolded wp_def] by blast

section \<open>Expiry\<close>

abbreviation answered :: "('r, 's, 'h, 'w, 'd) Driver \<Rightarrow> nat multiset" where
  "answered d \<equiv> image_mset fst (mset (d_replies d))"

lemma grows_answered: "grows e now d d' \<Longrightarrow> answered d \<subseteq># answered d'"
  by (auto simp: grows_def)

lemma driver_fuel_Suc: "\<exists>n. driver_fuel d = Suc n"
  by (simp add: driver_fuel_def)

text \<open>Completing an exchange answers its reply channel.\<close>

lemma wp_complete_answers:
  fixes d :: "('r, 's, 'h, 'w, 'd) Driver"
  assumes e: "monotone_clock e" and r: "reached e now d"
  shows "wp False (calls e (CallComplete c outcome)) (\<lambda>_ d'. grows e now d d' \<and> handles c \<subseteq># answered d') d"
proof -
  have m: "wp False m (\<lambda>_ d2. M \<subseteq># answered d2) d'" if "growing e now m" "reached e now d'" "M \<subseteq># answered d'"
    for m :: "('r, 's, 'h, 'w, 'd, unit) driver_action" and M d'
    by (rule wp_mono [OF growing_wp [OF that(1,2)]]) (use that(3) grows_answered in \<open>blast intro: subset_mset.order_trans\<close>)
  have "wp False (driver_call e (Suc n) (CallComplete c outcome)) (\<lambda>_ d'. handles c \<subseteq># answered d') d" for n
  proof (cases c)
    case (Caller i ch)
    have "wp False (driver_call e n CallSendQueued) (\<lambda>_ d2. {#ch#} \<subseteq># answered d2) (d\<lparr>d_replies := d_replies d @ [(ch, ExchangeReply outcome)]\<rparr>)"
      by (rule m [OF growing_driver_call [OF e]]) (use r in \<open>auto simp: reached_def\<close>)
    then show ?thesis
      by (simp add: Caller Driver_complete_def wp_then wp_oneshot_send)
  next
    case (Petition ch)
    then show ?thesis
      by (auto simp: Driver_complete_def wp_then wp_oneshot_send intro!: wp_mono [OF growing_wp [OF growing_petition_outcome [OF e] r]])
  next
    case (KeepAlive ch)
    let ?res = "keep_alive_result outcome"
    have "wp False (case keep_alive_end ?res of None \<Rightarrow> schedule_keep_alive e | Some reason \<Rightarrow> driver_call e n (CallEndSession reason))
        (\<lambda>_ d2. handles c \<subseteq># answered d2) (d\<lparr>d_events := ev, d_replies := d_replies d @ (case ch of None \<Rightarrow> [] | Some i \<Rightarrow> [(i, KeepAliveReply ?res)])\<rparr>)" for ev
      by (rule m) (use r in \<open>auto simp: reached_def KeepAlive intro: growing_driver_call growing_schedule e split: option.split\<close>)
    from this [of "d_events d"] this [of "d_events d @ [KeepAliveResponse (projr ?res)]"] show ?thesis
      by (cases ?res; cases ch) (simp_all add: KeepAlive Driver_complete_def Driver_keep_alive_outcome_def Let_def wp_then wp_publish wp_ret wp_oneshot_send_opt)
  next
    case (Resign ch)
    have "wp False (driver_call e n (CallEndSession Resigned)) (\<lambda>_ d2. handles c \<subseteq># answered
        (d2\<lparr>d_replies := d_replies d2 @ (case ch of None \<Rightarrow> [] | Some i \<Rightarrow> [(i, ResignReply (resign_result outcome))])\<rparr>)) d"
      by (rule wp_mono [OF growing_wp [OF growing_driver_call [OF e] r]]) (simp add: Resign split: option.split)
    then show ?thesis
      by (simp add: Resign Driver_complete_def wp_then wp_oneshot_send_opt)
  qed
  then have "wp False (calls e (CallComplete c outcome)) (\<lambda>_ d'. handles c \<subseteq># answered d') d"
    using driver_fuel_Suc [of d] by (auto simp: calls_def wp_def)
  moreover have "wp False (calls e (CallComplete c outcome)) (\<lambda>_. grows e now d) d"
    by (rule growing_wp [OF growing_calls [OF e] r])
  ultimately show ?thesis
    by (simp add: wp_conj)
qed

lemma growing_closes:
  assumes "growing e now m" "reached e now d" "is_closed d"
  shows "wp False m (\<lambda>_. is_closed) d"
  by (rule wp_mono [OF growing_wp [OF assms(1,2)]]) (use assms(3) in \<open>simp add: grows_def\<close>)

lemma wp_end_closes:
  assumes e: "monotone_clock e" and r: "reached e now d"
  shows "wp False (calls e (CallEndSession reason)) (\<lambda>_ d'. grows e now d d' \<and> is_closed d') d"
proof -
  have "wp False (Driver_end_session (driver_call e n) reason) (\<lambda>_. is_closed) d" for n
  proof (cases "is_closed d")
    case False
    let ?err = "if reason \<noteq> Resigned then error.SessionLost reason else error.SessionClosed"
    let ?d = "d\<lparr>d_status := Closed reason, keep_alive_at := None, joiner_sessions := Map.empty, d_link := None,
        exchanges := \<lparr>in_flight = [], queued = []\<rparr>\<rparr>"
    have "wp False (r_then (complete_all (driver_call e n) ?err cs) (\<lambda>_. if reason \<noteq> Resigned then publish (SessionLost reason) else r_ret ()))
        (\<lambda>_. is_closed) ?d" for cs
      by (rule growing_closes [OF growing_then]) (use r in \<open>auto simp: reached_def is_closed_def intro!: growing_intros growing_complete_all growing_driver_call e\<close>)
    then have "wp False (r_then (begin_end_session reason) (\<lambda>_. r_then (Driver_fail_all (driver_call e n) ?err)
        (\<lambda>_. if reason \<noteq> Resigned then publish (SessionLost reason) else r_ret ()))) (\<lambda>_. is_closed) d"
      unfolding wp_then begin_end_session_def wp_modify Driver_fail_all_def
      by (simp add: wp_def [of _ drain_exchanges] drain_exchanges_def Exchanges_drain_def exchanges_cleared)
    with False show ?thesis
      by (simp add: wp_def Driver_end_session_def)
  qed (simp add: Driver_end_session_def wp_def r_ret_def)
  then have "wp False (calls e (CallEndSession reason)) (\<lambda>_. is_closed) d"
    using driver_fuel_Suc [of d] by (auto simp: calls_def wp_def)
  with growing_wp [OF growing_calls [OF e] r] show ?thesis
    by (simp add: wp_conj)
qed

definition expires :: "('r, 's, 'p, 'w, 'd) platform \<Rightarrow> nat \<Rightarrow> ('r, 's, 'h, 'w, 'd) Driver \<Rightarrow> ('r, 's, 'h, 'w, 'd) Driver \<Rightarrow> bool" where
  "expires e now d d' \<longleftrightarrow>
     reached e now d' \<and> answered d \<subseteq># answered d' \<and> (is_closed d \<longrightarrow> is_closed d') \<and>
     (is_closed d' \<or> (\<forall>p \<in> set (in_flight (exchanges d')). now < deadline p) \<and>
        (\<forall>p \<in> set (in_flight (exchanges d)). deadline p \<le> now \<longrightarrow> handles (pd_completion p) \<subseteq># answered d'))"

lemma expires_after:
  assumes "expires e now d' d''" "answered d \<subseteq># answered d'" "is_closed d \<longrightarrow> is_closed d'"
    "is_closed d' \<or> (\<forall>p \<in> set (in_flight (exchanges d)). deadline p \<le> now \<longrightarrow>
       p \<in> set (in_flight (exchanges d')) \<or> handles (pd_completion p) \<subseteq># answered d')"
  shows "expires e now d d''"
  using assms unfolding expires_def by (meson subset_mset.order_trans)

lemma expires_grows:
  assumes g: "grows e now d d'" and p: "is_closed d \<or> (\<forall>p \<in> set (in_flight (exchanges d)). now < deadline p)"
  shows "expires e now d d'"
proof -
  have "is_closed d' \<or> (\<forall>p \<in> set (in_flight (exchanges d')). now < deadline p)"
    using g p unfolding grows_def by fastforce
  then show ?thesis
    using g p grows_answered [OF g] unfolding expires_def grows_def by (meson leD)
qed

lemma expires_then:
  assumes "expires e now d d'" "grows e now d' d''"
  shows "expires e now d d''"
proof -
  have "is_closed d'' \<or> (\<forall>p \<in> set (in_flight (exchanges d'')). now < deadline p)"
    using assms unfolding grows_def expires_def by fastforce
  then show ?thesis
    using assms grows_answered [OF assms(2)] unfolding expires_def grows_def by (meson subset_mset.order_trans)
qed

lemma take_remove_at: "i < length xs \<Longrightarrow> take i (remove_at i xs @ ys) = take i xs"
  by (simp add: remove_at_def)

text \<open>Retransmitting one exchange moves no deadline.\<close>

lemma retransmitted_due:
  assumes new: "zs = xs @ new" and i: "i < length xs" and due: "\<not> deadline (xs ! i) \<le> now"
  defines "ys \<equiv> zs[i := retransmitted now (zs ! i)]"
  shows "\<forall>p \<in> set (take (i + 1) xs). now < deadline p \<Longrightarrow> \<forall>p \<in> set (take (i + 1) ys). now < deadline p"
    "\<forall>p \<in> set xs. deadline p \<le> now \<longrightarrow> p \<in> set ys"
proof -
  have ys: "ys = xs[i := retransmitted now (xs ! i)] @ new"
    using i by (simp add: ys_def new list_update_append nth_append)
  have "deadline (retransmitted now p) = deadline p" for p
    by (simp add: retransmitted_def Let_def split: option.split)
  then show "\<forall>p \<in> set (take (i + 1) xs). now < deadline p \<Longrightarrow> \<forall>p \<in> set (take (i + 1) ys). now < deadline p"
    using i by (auto simp: ys take_Suc_conv_app_nth nth_append)
  show "\<forall>p \<in> set xs. deadline p \<le> now \<longrightarrow> p \<in> set ys"
  proof (intro ballI impI)
    fix p
    assume p: "p \<in> set xs" "deadline p \<le> now"
    then obtain j where j: "j < length xs" "p = xs ! j"
      by (metis in_set_conv_nth)
    then have "j \<noteq> i"
      using p(2) due by auto
    with j have "ys ! j = p" "j < length ys"
      by (simp_all add: ys nth_append)
    then show "p \<in> set ys"
      by (metis nth_mem)
  qed
qed

lemma expires_timers:
  fixes d :: "('r, 's, 'h, 'w, 'd) Driver"
  assumes e: "monotone_clock e"
  shows "reached e now d \<Longrightarrow> is_closed d \<or> (\<forall>p \<in> set (take index (in_flight (exchanges d))). now < deadline p) \<Longrightarrow>
    wp False (exchange_timers e n now index) (\<lambda>_. expires e now d) d"
proof (induction n arbitrary: d index)
  case 0
  then show ?case
    by (simp add: wp_def)
next
  case (Suc n)
  let ?xs = "in_flight (exchanges d)"
  show ?case
  proof (cases "index < length ?xs")
    case False
    then have "is_closed d \<or> (\<forall>p \<in> set ?xs. now < deadline p)"
      using Suc.prems(2) by simp
    then have "wp False (calls e CallSendQueued) (\<lambda>_. expires e now d) d"
      by (intro wp_mono [OF growing_wp [OF growing_calls [OF e] Suc.prems(1)]]) (rule expires_grows)
    with False show ?thesis
      by (simp add: wp_def)
  next
    case True
    define pd where "pd = ?xs ! index"
    have split: "set ?xs = insert pd (set (remove_at index ?xs))"
      using mset_remove_at [OF True] unfolding pd_def by (metis set_mset_add_mset_insert set_mset_mset)
    have next_take: "is_closed d \<or> (\<forall>p \<in> set (take (index + 1) ?xs). now < deadline p)" if "\<not> deadline pd \<le> now"
      using Suc.prems(2) that True by (auto simp: take_Suc_conv_app_nth pd_def)
    consider (expired) "deadline pd \<le> now" | (retry) "\<not> deadline pd \<le> now" "case retry_at pd of None \<Rightarrow> False | Some t \<Rightarrow> t \<le> now"
      | (wait) "\<not> deadline pd \<le> now" "\<not> (case retry_at pd of None \<Rightarrow> False | Some t \<Rightarrow> t \<le> now)"
      by blast
    then show ?thesis
    proof cases
      case expired
      let ?d = "d\<lparr>exchanges := (exchanges d)\<lparr>in_flight := remove_at index ?xs\<rparr>\<rparr>"
      have r: "reached e now ?d"
        using Suc.prems(1) by (simp add: reached_def)
      have "wp False (calls e (CallComplete (pd_completion pd) outcome))
          (\<lambda>_ d'. if is_closed d' then expires e now d d' else wp False (exchange_timers e n now index) (\<lambda>_. expires e now d) d') ?d" for outcome
      proof (rule wp_mono [OF wp_complete_answers [OF e r]])
        fix x :: unit and d' :: "('r, 's, 'h, 'w, 'd) Driver"
        assume d': "grows e now ?d d' \<and> handles (pd_completion pd) \<subseteq># answered d'"
        then have a: "answered d \<subseteq># answered d'" "reached e now d'" "is_closed d \<longrightarrow> is_closed d'"
          using grows_answered [of e now ?d d'] by (auto simp: grows_def is_closed_def)
        show "if is_closed d' then expires e now d d' else wp False (exchange_timers e n now index) (\<lambda>_. expires e now d) d'"
        proof (cases "is_closed d'")
          case False
          then obtain new where new: "in_flight (exchanges d') = remove_at index ?xs @ new"
            using d' by (auto simp: grows_def)
          then have "take index (in_flight (exchanges d')) = take index ?xs"
            using take_remove_at [OF True] by (simp only: new)
          then have "wp False (exchange_timers e n now index) (\<lambda>_. expires e now d') d'"
            by (intro Suc.IH [OF a(2)]) (use Suc.prems(2) a(3) False in simp)
          moreover have "expires e now d d2" if "expires e now d' d2" for d2
            by (rule expires_after [OF that a(1,3)]) (use d' new split in auto)
          ultimately show ?thesis
            using False by (auto elim: wp_mono)
        qed (use a in \<open>simp add: expires_def\<close>)
      qed
      then have "wp False (r_then (remove_pending index)
            (\<lambda>_. r_then (calls e (CallComplete (pd_completion pd) (Err (error.Timeout ''MeshCoP exchange timed out''))))
            (\<lambda>_. r_then (r_get is_closed)
            (\<lambda>closed. if closed then r_ret () else exchange_timers e n now index)))) (\<lambda>_. expires e now d) d"
        by (simp add: wp_simps remove_pending_def if_distrib [of "\<lambda>m. wp False m _"] if_distribR cong: if_cong)
      with expired True show ?thesis
        by (simp add: wp_def Let_def pd_def)
    next
      case retry
      have g: "growing e now (resend_pending e pd :: ('r, 's, 'h, 'w, 'd, error option) driver_action)"
        unfolding resend_pending_def by (intro growing_intros e)
      have "wp False (resend_pending e pd) (\<lambda>failure. wp False (case failure of
                 Some err \<Rightarrow> transport_failed e (error_to_string err)
               | None \<Rightarrow> r_then (update_pending index (retransmitted now)) (\<lambda>_. exchange_timers e n now (index + 1))) (\<lambda>_. expires e now d)) d"
      proof (rule wp_mono [OF growing_wp [OF g Suc.prems(1)]])
        fix failure :: "error option" and d' :: "('r, 's, 'h, 'w, 'd) Driver"
        assume d': "grows e now d d'"
        then have a: "answered d \<subseteq># answered d'" "reached e now d'" "is_closed d \<longrightarrow> is_closed d'"
          using grows_answered [of e now d d'] by (auto simp: grows_def is_closed_def)
        have "wp False (transport_failed e s) (\<lambda>_. expires e now d) d'" for s
          unfolding transport_failed_def
          by (rule wp_mono [OF wp_end_closes [OF e a(2)]])
            (use a(1) in \<open>auto simp: expires_def dest: grows_answered intro: subset_mset.order_trans\<close>, simp add: grows_def)
        moreover
        let ?ys = "(in_flight (exchanges d'))[index := retransmitted now (in_flight (exchanges d') ! index)]"
        let ?d = "d'\<lparr>exchanges := (exchanges d')\<lparr>in_flight := ?ys\<rparr>\<rparr>"
        have "wp False (exchange_timers e n now (index + 1)) (\<lambda>_. expires e now d) ?d"
        proof (cases "is_closed d'")
          case c: True
          have "wp False (exchange_timers e n now (index + 1)) (\<lambda>_. expires e now ?d) ?d"
            by (rule Suc.IH) (use a(2) c in \<open>simp_all add: reached_def is_closed_def\<close>)
          moreover have "expires e now d d2" if "expires e now ?d d2" for d2
            by (rule expires_after [OF that]) (use a(1) c in \<open>simp_all add: is_closed_def\<close>)
          ultimately show ?thesis
            by (auto elim: wp_mono)
        next
          case False
          then obtain new where new: "in_flight (exchanges d') = ?xs @ new"
            using d' by (auto simp: grows_def)
          note ys = retransmitted_due [OF new True retry(1) [unfolded pd_def]]
          have "wp False (exchange_timers e n now (index + 1)) (\<lambda>_. expires e now ?d) ?d"
            by (rule Suc.IH) (use a(2,3) False next_take [OF retry(1)] ys(1) in \<open>auto simp: reached_def is_closed_def\<close>)
          moreover have "expires e now d d2" if "expires e now ?d d2" for d2
            by (rule expires_after [OF that]) (use a False ys(2) in \<open>simp_all add: is_closed_def\<close>)
          ultimately show ?thesis
            by (auto elim: wp_mono)
        qed
        ultimately show "wp False (case failure of
                 Some err \<Rightarrow> transport_failed e (error_to_string err)
               | None \<Rightarrow> r_then (update_pending index (retransmitted now)) (\<lambda>_. exchange_timers e n now (index + 1))) (\<lambda>_. expires e now d) d'"
          by (cases failure) (simp_all add: wp_then update_pending_def wp_modify)
      qed
      with retry True show ?thesis
        by (simp add: wp_def [of _ "exchange_timers e (Suc n) now index"] wp_then [symmetric] Let_def pd_def) (simp add: wp_def)
    next
      case wait
      have "wp False (exchange_timers e n now (index + 1)) (\<lambda>_. expires e now d) d"
        by (rule Suc.IH [OF Suc.prems(1) next_take [OF wait(1)]])
      with wait True show ?thesis
        by (simp add: wp_def Let_def pd_def)
    qed
  qed
qed

lemma expires_run_timers:
  fixes d :: "('r, 's, 'h, 'w, 'd) Driver"
  assumes e: "monotone_clock e"
  shows "wp False (run_timers e) (\<lambda>_. expires e (fst (clock e (d_world d))) d) d"
proof -
  define now where "now = fst (clock e (d_world d))"
  let ?d = "d\<lparr>d_world := snd (clock e (d_world d))\<rparr>"
  have r: "reached e now d"
    by (simp add: reached_def now_def)
  then have g: "grows e now d ?d"
    by (rule grows_world [OF e])
  have "wp False (exchange_timers e n now 0) (\<lambda>_. expires e now ?d) ?d" for n
    by (rule expires_timers [OF e]) (use g in \<open>auto simp: grows_def\<close>)
  then have x: "wp False (run_exchange_timers e) (\<lambda>_. expires e now ?d) d"
    by (cases "clock e (d_world d)")
      (simp add: run_exchange_timers_def wp_then driver_now_def now_def wp_def del: exchange_timers.simps)
  have keep: "growing e now (send_keep_alive e c :: ('r, 's, 'h, 'w, 'd, unit) driver_action)" for c
  proof -
    have "growing e now (r_modify (\<lambda>d :: ('r, 's, 'h, 'w, 'd) Driver. d\<lparr>keep_alive_at := None\<rparr>))"
      by (auto simp: growing_def wp_modify intro: grows_upd)
    then show ?thesis
      unfolding send_keep_alive_def by (auto intro!: growing_intros growing_calls e split: option.split sum.split)
  qed
  have "growing e now (r_then (r_get is_closed)
       (\<lambda>closed. if closed then r_ret ()
        else r_then (r_get keep_alive_at)
          (\<lambda>at. case at of
               None \<Rightarrow> r_ret ()
             | Some t \<Rightarrow>
                 r_then (driver_now e)
                   (\<lambda>now. if t \<le> now then send_keep_alive e (KeepAlive None) else r_ret ()))) :: ('r, 's, 'h, 'w, 'd, unit) driver_action)"
    by (auto intro!: growing_intros keep e split: option.split)
  note k = growing_wp [OF this]
  show ?thesis
    unfolding run_timers_def wp_then [of _ "run_exchange_timers e"] now_def [symmetric]
  proof (rule wp_mono [OF x])
    fix u :: unit and d1 :: "('r, 's, 'h, 'w, 'd) Driver"
    assume d1: "expires e now ?d d1"
    then have "expires e now d d1"
      by (simp add: expires_def is_closed_def)
    then show "wp False (r_then (r_get is_closed)
       (\<lambda>closed. if closed then r_ret ()
        else r_then (r_get keep_alive_at)
          (\<lambda>at. case at of
               None \<Rightarrow> r_ret ()
             | Some t \<Rightarrow>
                 r_then (driver_now e)
                   (\<lambda>now. if t \<le> now then send_keep_alive e (KeepAlive None) else r_ret ())))) (\<lambda>_. expires e now d) d1"
      by (intro wp_mono [OF k]) (use d1 in \<open>simp add: expires_def\<close>, rule expires_then)
  qed
qed

lemma wake_total:
  assumes "token_live (pf_curve e)" "rng_fills (pf_curve e)" "steady (H, True) d" "\<not> is_closed d" "ready wake d"
  shows "\<exists>d'. handle_wake e wake d = Some ((), d')"
proof -
  have "wp True (handle_wake e wake) (\<lambda>_. settled (issued wake + (H - withdrawn wake (exchanges d)))) d"
    by (rule wp_wake) (use assms in simp_all)
  then show ?thesis
    by (auto simp: wp_def split: option.splits)
qed

section \<open>A concrete platform\<close>

text \<open>A platform on which every send succeeds, whose clock advances by twenty seconds each time it is read, and
  whose generator does not repeat the last token.\<close>

definition toy_platform :: "(int, z5, z5, nat, unit) platform" where
  "toy_platform =
     \<lparr>pf_curve = toy_p256\<lparr>fill_bytes := \<lambda>n r. (replicate n (of_int r), r + 1)\<rparr>, pf_crypto = toy_crypto,
      clock = \<lambda>t. (t, t + secs 20), next_u32 = \<lambda>r. (0, r), dtls_send = \<lambda>s bs w. ((s, Inr ()), w),
      dtls_connect = \<lambda>w. (Inr (), w)\<rparr>"

definition toy_driver :: "(int, z5, unit, nat, unit) Driver" where
  "toy_driver = Driver_new () (CommissionerConfig_pskc (str ''c'') (Pskc (replicate 16 7))) ''border agent'' 0 0"

lemma toy_fills: "rng_fills (pf_curve toy_platform)"
  by (simp add: toy_platform_def rng_fills_def)

lemma toy_clock: "monotone_clock toy_platform"
  by (simp add: toy_platform_def monotone_clock_def)

lemma toy_start: "session_start toy_driver"
  by (auto simp: session_start_def toy_driver_def)

lemma toy_live: "token_live (pf_curve toy_platform)"
proof -
  let ?c = "pf_curve toy_platform"
  have nth: "nth_token ?c n r = replicate 4 (of_int (r + int n))" for n r
    by (induction n arbitrary: r) (simp_all add: toy_platform_def TOKEN_LENGTH_def ac_simps)
  have "\<exists>n. nth_token ?c n r \<notin> set toks" if "length toks \<le> 4" for r toks
  proof (rule ccontr)
    assume "\<not> ?thesis"
    then have "(\<lambda>n. nth_token ?c n r) ` {..<5} \<subseteq> set toks"
      by auto
    then have "card ((\<lambda>n. nth_token ?c n r) ` {..<5}) \<le> card (set toks)"
      by (intro card_mono) auto
    also have "\<dots> \<le> 4"
      using that card_length [of toks] by simp
    finally have le: "card ((\<lambda>n. nth_token ?c n r) ` {..<5}) \<le> 4" .
    have "inj_on (\<lambda>n. nth_token ?c n r) {..<5}"
    proof (rule inj_onI)
      fix m n :: nat
      assume mn: "m \<in> {..<5}" "n \<in> {..<5}" "nth_token ?c m r = nth_token ?c n r"
      then have "(of_int (r + int m) :: u8) = of_int (r + int n)"
        by (simp add: nth)
      then have "unat (of_nat m :: u8) = unat (of_nat n :: u8)"
        by simp
      then show "m = n"
        using mn(1,2) by (simp add: unat_of_nat)
    qed
    then have "card ((\<lambda>n. nth_token ?c n r) ` {..<5}) = 5"
      by (simp add: card_image)
    with le show False
      by simp
  qed
  moreover have "rng_live ?c r" for r
  proof -
    have draw: "Scalar_random ?c r' = (z5_of r', r' + 1)" "Scalar_is_zero ?c a = (a = Z0)" for r' a
      by (simp_all add: toy_platform_def toy_p256_def)
    have "z5_of r' \<noteq> Z0 \<or> z5_of (r' + 1) \<noteq> Z0" for r'
    proof -
      have "r' mod 5 \<noteq> 0 \<or> (r' + 1) mod 5 \<noteq> 0"
        by presburger
      then show ?thesis
        by (auto simp flip: z5_eq_Z0)
    qed
    then have "\<not> Scalar_is_zero ?c (nth_draw ?c 0 r') \<or> \<not> Scalar_is_zero ?c (nth_draw ?c 1 r')" for r'
      by (simp add: draw)
    then show ?thesis
      unfolding rng_live_def by blast
  qed
  ultimately show ?thesis
    by (simp add: token_live_def)
qed

lemma toy_run:
  assumes "ready wake toy_driver"
  shows "\<exists>d. handle_wake toy_platform wake toy_driver = Some ((), d) \<and>
    driver_run toy_platform toy_driver (issued wake) (withdrawn wake (exchanges toy_driver)) d"
proof -
  have open': "\<not> is_closed toy_driver"
    by (simp add: toy_driver_def Driver_new_def is_closed_def)
  obtain d where d: "handle_wake toy_platform wake toy_driver = Some ((), d)"
    using wake_total [OF toy_live toy_fills steady_new] assms open' unfolding toy_driver_def by blast
  moreover have "driver_run toy_platform toy_driver ({#} + issued wake) ({#} + withdrawn wake (exchanges toy_driver)) d"
    by (rule driver_run_wake [OF driver_run_start open' assms d])
  ultimately show ?thesis
    by auto
qed

lemma toy_petition_request:
  "\<exists>m bs. petition_request 0 [] (str ''c'') = Ok m \<and> coap_ty m = Confirmable \<and>
     CoapMessage_encode (m\<lparr>message_id := 1, token := [0, 0, 0, 0]\<rparr>) = Ok bs"
proof -
  have r: "resource uri_PETITIONING"
    by code_simp
  have "list_all (\<lambda>x. length (opt_value x) \<le> 2) (path_options uri_PETITIONING)"
    by code_simp
  then have "\<exists>bs. CoapMessage_encode m = Ok bs" if "options m = path_options uri_PETITIONING" "token m = [0, 0, 0, 0]" for m
    using that by (intro CoapMessage_encode_Ok) (force simp: list_all_iff)+
  with r show ?thesis
    by (simp add: petition_request_def build_simps post_request_Ok)
qed

text \<open>A petition sent at time 0 is in flight when the clock has passed its deadline.\<close>

lemma toy_petitioned:
  "\<exists>d p. driver_run toy_platform toy_driver {#7#} {#} d \<and> \<not> is_closed d \<and> p \<in> set (in_flight (exchanges d)) \<and>
     pd_completion p = Petition 7 \<and> deadline p \<le> fst (clock toy_platform (d_world d))"
proof -
  obtain m bs where m: "petition_request 0 [] (str ''c'') = Ok m" "coap_ty m = Confirmable"
      "CoapMessage_encode (m\<lparr>message_id := 1, token := [0, 0, 0, 0]\<rparr>) = Ok bs"
    using toy_petition_request by blast
  have "replicate 4 0 = [0, 0, 0, 0 :: u8]"
    by (simp add: numeral_eq_Suc)
  then have tok: "unused_token (pf_curve toy_platform) [] 0 = Some ([0, 0, 0, 0], 1)"
    by (subst unused_token.simps) (simp add: toy_platform_def TOKEN_LENGTH_def)
  have fuel: "driver_call e 12 (CallStart request c) = Driver_start e (driver_call e 11) request c"
    for e :: "(int, z5, z5, nat, unit) platform" and request c
  proof -
    have "12 = Suc 11"
      by simp
    then show ?thesis
      by (simp only: driver_call.simps DriverCall.case)
  qed
  obtain d where d: "handle_wake toy_platform (WakeCommand (Some (PetitionCommand 7))) toy_driver = Some ((), d)"
      "driver_run toy_platform toy_driver {#7#} {#} d"
    using toy_run [of "WakeCommand (Some (PetitionCommand 7))"] by (auto simp: toy_driver_def Driver_new_def)
  have "d_status d = Petitioning \<and> d_world d = secs 20 \<and>
      (\<exists>p. in_flight (exchanges d) = [p] \<and> pd_completion p = Petition 7 \<and> deadline p = COAP_EXCHANGE_TIMEOUT)"
    using d(1) m tok
    by (auto simp: fuel handle_wake_def handle_command_def Driver_petition_def toy_driver_def Driver_new_def CommissionerConfig_pskc_def
        r_then_def r_get_def ensure_open_def Link_is_open_def r_ret_def set_status_def r_modify_def calls_def driver_fuel_def
        Driver_start_def control_request_def assign_identity_def wire_message_def Link_send_def toy_platform_def
        track_pending_def driver_now_def random_schedule_def push_pending_def map_err_def)
  with d(2) show ?thesis
    by (auto simp: is_closed_def toy_platform_def const_defs)
qed

section \<open>Properties\<close>

lemma owed_member: "c \<in># pool cs x \<Longrightarrow> handles c \<subseteq># owed cs x"
  unfolding owed_def by (metis image_mset_add_mset mset_add mset_subset_eq_add_left sum_mset.insert)

lemma list_min_le: "t \<in> set ts \<Longrightarrow> \<exists>m \<le> t. list_min ts = Some m"
  by (cases "ts = []") (auto simp: list_min_def)

lemma next_deadline_le:
  assumes "p \<in> set (in_flight (exchanges d))"
  shows "\<exists>t \<le> deadline p. Driver_next_deadline d = Some t"
proof -
  obtain t where t: "t \<le> deadline p" "Exchanges_next_deadline (exchanges d) = Some t"
    using list_min_le [of "deadline p" "concat (map (\<lambda>p. case retry_at p of None \<Rightarrow> [deadline p] | Some t \<Rightarrow> [t, deadline p]) (in_flight (exchanges d)))"]
      assms unfolding Exchanges_next_deadline_def by (force split: option.split)
  then obtain m where "m \<le> t" "Driver_next_deadline d = Some m"
    using list_min_le [of t] unfolding Driver_next_deadline_def by force
  with t(1) show ?thesis
    by (meson le_trans)
qed

text \<open>C2: In every state a session reaches, at most one application request is in flight and a request
  waits only while one is; the correlation tokens of the exchanges in flight differ; there is at most
  one petition, one keep-alive and one resignation outstanding; an open session is petitioning exactly
  while a petition is outstanding, and a keep-alive or a resignation is outstanding only with an active
  session; the keep-alive timer runs only for an active session with no keep-alive outstanding; the link
  of an open session is closed only while the session is idle; and a closed session holds no exchange,
  no link, no timer and no joiner session.\<close>

theorem driver_invariant:
  assumes "driver_run e d0 I W d" "session_start d0" "rng_fills (pf_curve e)"
  shows "let flight = in_flight (exchanges d); count = \<lambda>P. length (filter (\<lambda>p. P (pd_completion p)) flight) in
    count is_application \<le> 1 \<and> (queued (exchanges d) \<noteq> [] \<longrightarrow> count is_application = 1) \<and>
    distinct (map (\<lambda>p. token (pd_request p)) flight) \<and>
    count is_petition \<le> 1 \<and> count is_keep_alive \<le> 1 \<and> count is_resign \<le> 1 \<and>
    (\<not> is_closed d \<longrightarrow> (d_status d = Petitioning \<longleftrightarrow> count is_petition = 1) \<and>
       (count is_keep_alive + count is_resign > 0 \<longrightarrow> Driver_session_id d \<noteq> None) \<and>
       (\<not> Link_is_open d \<longrightarrow> d_status d = Idle)) \<and>
    (keep_alive_at d \<noteq> None \<longrightarrow> Driver_session_id d \<noteq> None \<and> count is_keep_alive = 0) \<and>
    (is_closed d \<longrightarrow> flight = [] \<and> queued (exchanges d) = [] \<and> \<not> Link_is_open d \<and> keep_alive_at d = None \<and>
       joiner_sessions d = Map.empty)"
proof -
  obtain H where "steady (H, True) d"
    using driver_run_settled [OF assms] by (auto simp: settled_def)
  then have c: "core (H, True) [] d" "busy [] (exchanges d)" and x: "exchanges_ok (exchanges d)"
    by (simp_all add: steady_def core_def)
  note many = many_in_flight [OF x]
  have p: "many is_petition [] (exchanges d) = length (filter (\<lambda>p. is_petition (pd_completion p)) (in_flight (exchanges d)))"
    "many is_keep_alive [] (exchanges d) = length (filter (\<lambda>p. is_keep_alive (pd_completion p)) (in_flight (exchanges d)))"
    "many is_resign [] (exchanges d) = length (filter (\<lambda>p. is_resign (pd_completion p)) (in_flight (exchanges d)))"
    by (rule many; erule is_petition.elims is_keep_alive.elims is_resign.elims; simp)+
  show ?thesis
    unfolding Let_def p [symmetric] application_in_flight_def [symmetric]
    using c x
    by (auto simp: core_def exchanges_ok_def control_ok_def closed_ok_def busy_def is_closed_def Driver_session_id_def
        Link_is_open_def MAX_APPLICATION_IN_FLIGHT_def)
qed

theorem driver_invariant_witness:
  "\<exists>d. driver_run toy_platform toy_driver {#7#} {#} d \<and> distinct (map (\<lambda>p. token (pd_request p)) (in_flight (exchanges d)))"
proof -
  obtain d where d: "driver_run toy_platform toy_driver {#7#} {#} d"
    using toy_run [of "WakeCommand (Some (PetitionCommand 7))"] by (auto simp: toy_driver_def Driver_new_def)
  with driver_invariant [OF d toy_start toy_fills] show ?thesis
    by (auto simp: Let_def)
qed

text \<open>C3: The driver answers every reply channel at most once and loses at most one: of the channels handed
  to it, each is answered, or still owed by an exchange in flight or queued, or was withdrawn by its
  caller, except that closing the session may lose one. An open session has lost none and a closed one
  owes none.\<close>

theorem driver_replies:
  assumes "driver_run e d0 I W d" "session_start d0" "rng_fills (pf_curve e)"
  shows "\<exists>lost. I = image_mset fst (mset (d_replies d)) + owed [] (exchanges d) + W + lost \<and> size lost \<le> 1 \<and>
    (if is_closed d then owed [] (exchanges d) = {#} else lost = {#})"
proof -
  obtain H lost where h: "I = H + lost + W" "size lost \<le> 1" "lost = {#} \<or> is_closed d" "steady (H, True) d"
    using driver_run_settled [OF assms] by (auto simp: settled_def)
  then have c: "core (H, True) [] d"
    by (simp add: steady_def)
  then have "H = image_mset fst (mset (d_replies d)) + owed [] (exchanges d)"
    by (simp add: core_def)
  moreover have "owed [] (exchanges d) = {#}" if "is_closed d"
    using core_closed [OF c that] by (simp add: owed_def pool_def)
  ultimately show ?thesis
    using h by (intro exI [of _ lost]) (auto simp: ac_simps)
qed

theorem driver_replies_witness:
  "\<exists>d lost. driver_run toy_platform toy_driver {#7#} {#} d \<and>
     {#7#} = image_mset fst (mset (d_replies d)) + owed [] (exchanges d) + {#} + lost \<and> size lost \<le> 1"
proof -
  obtain d where d: "driver_run toy_platform toy_driver {#7#} {#} d"
    using toy_run [of "WakeCommand (Some (PetitionCommand 7))"] by (auto simp: toy_driver_def Driver_new_def)
  with driver_replies [OF d toy_start toy_fills] show ?thesis
    by blast
qed

text \<open>C5: The driver always gets back to waiting: from every open state a session reaches, handling any
  wake the loop may receive returns, when the random generator does not keep repeating the tokens in
  use. The exchanges that complete, start, fail and queue one another never recurse without end.\<close>

theorem driver_wake_returns:
  assumes "driver_run e d0 I W d" "session_start d0" "rng_fills (pf_curve e)" "token_live (pf_curve e)"
    and "\<not> is_closed d" "ready wake d"
  shows "\<exists>d'. handle_wake e wake d = Some ((), d')"
proof -
  obtain H where "steady (H, True) d"
    using driver_run_steady [OF assms(1-3,5)] by blast
  then show ?thesis
    by (rule wake_total [OF assms(4,3) _ assms(5,6)])
qed

theorem driver_wake_returns_witness:
  "\<exists>d'. handle_wake toy_platform (WakeCommand (Some (PetitionCommand 7))) toy_driver = Some ((), d')"
  by (rule driver_wake_returns [OF driver_run_start toy_start toy_fills toy_live])
    (simp_all add: toy_driver_def Driver_new_def is_closed_def)

text \<open>C6: No request outlives its deadline: when the timer wakes the driver of an open session, every
  exchange whose deadline has passed is answered on its reply channel and no exchange past its
  deadline stays in flight. The loop's timer is set no later than the deadline of any exchange in
  flight. The clock is assumed not to run backwards.\<close>

theorem expired_exchange_answered:
  assumes "driver_run e d0 I W d" "session_start d0" "rng_fills (pf_curve e)" "monotone_clock e" "\<not> is_closed d"
    and p: "p \<in> set (in_flight (exchanges d))" "deadline p \<le> fst (clock e (d_world d))"
    and wake: "handle_wake e Timer d = Some ((), d')"
  shows "handles (pd_completion p) \<subseteq># image_mset fst (mset (d_replies d')) \<and>
    (\<forall>q \<in> set (in_flight (exchanges d')). fst (clock e (d_world d)) < deadline q) \<and>
    (\<exists>t \<le> deadline p. Driver_next_deadline d = Some t)"
proof -
  obtain H where H: "steady (H, True) d"
    using driver_run_steady [OF assms(1-3,5)] by blast
  have "wp False (run_timers e) (\<lambda>_. steady (H, True)) d"
    by (rule wp_run_timers [OF _ H assms(5)]) simp
  then have s: "steady (H, True) d'"
    using wake by (simp add: handle_wake_def wp_def)
  have x: "expires e (fst (clock e (d_world d))) d d'"
    using expires_run_timers [OF assms(4), of d] wake by (simp add: handle_wake_def wp_def)
  have "handles (pd_completion p) \<subseteq># owed [] (exchanges d)"
    using p(1) by (intro owed_member) (simp add: pool_def)
  then have h: "handles (pd_completion p) \<subseteq># H"
    using H by (auto simp: steady_def core_def intro: subset_mset.order_trans)
  have c: "core (H, True) [] d'"
    using s by (simp add: steady_def)
  then have "image_mset fst (mset (d_replies d')) + owed [] (exchanges d') = H"
    by (simp add: core_def)
  then have closed: "image_mset fst (mset (d_replies d')) = H \<and> in_flight (exchanges d') = []" if "is_closed d'"
    using core_closed [OF c that] by (simp add: owed_def pool_def)
  have "handles (pd_completion p) \<subseteq># image_mset fst (mset (d_replies d'))"
    using x p h closed unfolding expires_def by metis
  moreover have "\<forall>q \<in> set (in_flight (exchanges d')). fst (clock e (d_world d)) < deadline q"
    using x closed unfolding expires_def by (metis empty_iff empty_set)
  ultimately show ?thesis
    using next_deadline_le [OF p(1)] by blast
qed

theorem expired_exchange_answered_witness:
  "\<exists>d d'. driver_run toy_platform toy_driver {#7#} {#} d \<and> handle_wake toy_platform Timer d = Some ((), d') \<and>
     7 \<in># image_mset fst (mset (d_replies d'))"
proof -
  obtain d p where d: "driver_run toy_platform toy_driver {#7#} {#} d" "\<not> is_closed d" "p \<in> set (in_flight (exchanges d))"
      "pd_completion p = Petition 7" "deadline p \<le> fst (clock toy_platform (d_world d))"
    using toy_petitioned by blast
  obtain H where "steady (H, True) d"
    using driver_run_steady [OF d(1) toy_start toy_fills d(2)] by blast
  then obtain d' where d': "handle_wake toy_platform Timer d = Some ((), d')"
    using wake_total [OF toy_live toy_fills] d(2) by fastforce
  have "handles (pd_completion p) \<subseteq># image_mset fst (mset (d_replies d'))"
    using expired_exchange_answered [OF d(1) toy_start toy_fills toy_clock d(2,3,5) d'] by blast
  with d(1,4) d' show ?thesis
    by auto
qed

text \<open>C16: The two routes do not mix. A message that arrives through the UDP proxy answers only an exchange
  sent through it, which is always a request of an application, and a message of the border agent
  itself only an exchange with the border agent; every exchange of the other route stays as it is.
  So no device on the mesh can answer a petition, a keep-alive or a resignation.\<close>

theorem routes_do_not_mix:
  assumes run: "driver_run e d0 I W d" "session_start d0" "rng_fills (pf_curve e)"
    and taken: "take_answered m proxied d = Some (answer, d')"
  shows "filter (\<lambda>p. is_proxied p \<noteq> proxied) (in_flight (exchanges d')) =
      filter (\<lambda>p. is_proxied p \<noteq> proxied) (in_flight (exchanges d)) \<and>
    (\<forall>p. answer = Some p \<longrightarrow> is_proxied p = proxied \<and> p \<in> set (in_flight (exchanges d)) \<and>
       mset (in_flight (exchanges d)) = add_mset p (mset (in_flight (exchanges d'))) \<and>
       (proxied \<longrightarrow> is_application (pd_completion p))) \<and>
    (answer = None \<longrightarrow> d' = d)"
proof (cases "position (answers m proxied) (in_flight (exchanges d))")
  case None
  with taken show ?thesis
    by (auto simp: take_answered_def r_ret_def)
next
  case (Some i)
  let ?xs = "in_flight (exchanges d)"
  have i: "i < length ?xs" "is_proxied (?xs ! i) = proxied"
    using position_SomeD [OF Some] by (simp_all add: answers_def)
  have d': "answer = Some (?xs ! i)" "in_flight (exchanges d') = remove_at i ?xs"
    using taken Some by (auto simp: take_answered_def r_then_def remove_pending_def r_modify_def r_ret_def)
  obtain H where "steady (H, True) d"
    using driver_run_settled [OF run] by (auto simp: settled_def)
  then have "is_application (pd_completion (?xs ! i)) \<or> pd_destination (?xs ! i) = BorderAgent"
    using i(1) by (auto simp: steady_def core_def exchanges_ok_def)
  moreover have "filter (\<lambda>p. is_proxied p \<noteq> proxied) ?xs = filter (\<lambda>p. is_proxied p \<noteq> proxied) (remove_at i ?xs)"
    by (subst remove_at_split [OF i(1)]) (simp add: remove_at_def i(2))
  ultimately show ?thesis
    using i d' mset_remove_at [OF i(1)] by (auto simp: is_proxied_def)
qed

theorem routes_do_not_mix_witness:
  "\<exists>d p answer d'. driver_run toy_platform toy_driver {#7#} {#} d \<and> p \<in> set (in_flight (exchanges d)) \<and>
     take_answered (empty_ack 1) True d = Some (answer, d') \<and>
     filter (\<lambda>p. is_proxied p \<noteq> True) (in_flight (exchanges d')) = filter (\<lambda>p. is_proxied p \<noteq> True) (in_flight (exchanges d))"
proof -
  obtain d p where d: "driver_run toy_platform toy_driver {#7#} {#} d" "p \<in> set (in_flight (exchanges d))"
    using toy_petitioned by blast
  obtain answer d' where t: "take_answered (empty_ack 1) True d = Some (answer, d')"
    by (cases "position (answers (empty_ack 1) True) (in_flight (exchanges d))")
      (auto simp: take_answered_def r_then_def remove_pending_def r_modify_def r_ret_def)
  with d routes_do_not_mix [OF d(1) toy_start toy_fills t] show ?thesis
    by blast
qed

text \<open>C31: Retransmissions always fit the exchange deadline: whatever the random number, the first timeout is
  between two and three seconds, each retransmission doubles it, there are two of them, and the second
  is sent before the twelve seconds of the exchange are over.\<close>

theorem retransmissions_fit:
  "let s0 = CoapRetransmitSchedule_randomized random; s1 = record_retransmission s0; s2 = record_retransmission s1 in
   \<exists>t. secs 2 \<le> t \<and> t \<le> secs 3 \<and> CoapRetransmitSchedule_timeout s0 = Some t \<and>
     CoapRetransmitSchedule_timeout s1 = Some (2 * t) \<and> CoapRetransmitSchedule_timeout s2 = None \<and>
     t + 2 * t < COAP_EXCHANGE_TIMEOUT"
proof -
  have "unat random mod 1001 * 1000000 \<le> 1000 * 1000000"
    by simp
  then show ?thesis
    by (simp add: Let_def CoapRetransmitSchedule_randomized_def CoapRetransmitSchedule_new_def CoapRetransmitSchedule_timeout_def
        record_retransmission_def const_defs)
qed



text \<open>C39: Why one channel may be lost: when the transport fails while a confirmable response is acknowledged,
  the exchange has been taken out already, no reply is given, and routing returns the transport error that
  closes the session. The caller of that exchange is the one who is not answered.\<close>

theorem unacknowledged_response_lost:
  assumes m: "coap_ty m = Confirmable" and new: "snd (reply_to now BorderAgent (message_id m) (d_answered d)) = None"
    and clock: "clock e (d_world d) = (now, w)" and link: "d_link d = Some l"
    and fails: "\<And>s bs w. dtls_send e s bs w = ((s, Inl err), w)"
    and i: "position (answers m False) (in_flight (exchanges d)) = Some i"
  shows "\<exists>d'. route_direct e m d = Some (Err (Dtls err), d') \<and> d_replies d' = d_replies d \<and>
    in_flight (exchanges d') = remove_at i (in_flight (exchanges d)) \<and> queued (exchanges d') = queued (exchanges d)"
proof -
  have "\<not> is_empty_ack_for m mid" for mid
    using m by (simp add: is_empty_ack_for_def)
  then have none: "position (\<lambda>p. is_proxied p = False \<and> is_empty_ack_for m (message_id (pd_request p))) xs = None" for xs
    by (induction xs) simp_all
  obtain bs where bs: "CoapMessage_encode (empty_ack (message_id m)) = Ok bs"
    using ack_wire by blast
  obtain a where look: "reply_to now BorderAgent (message_id m) (d_answered d) = (a, None)"
    using new by (metis prod.collapse)
  show ?thesis
    using m none bs look clock link fails i
    by (simp add: route_direct_def answer_retransmission_def driver_now_def look_up_reply_def r_try_def r_then_def r_ret_def
        acknowledge_def take_answered_def remove_pending_def r_modify_def ack_if_confirmable_def Driver_reply_def send_reply_def
        wire_message_def Link_send_def map_err_def)
qed

theorem unacknowledged_response_lost_witness:
  "\<exists>d'. route_direct (toy_platform\<lparr>dtls_send := \<lambda>s bs w. ((s, Inl dtls_error.PeerClosed), w)\<rparr>)
      \<lparr>coap_ty = Confirmable, coap_code = 0x44, message_id = 9, token = [1], options = [], coap_payload = []\<rparr>
      (toy_driver\<lparr>exchanges := \<lparr>in_flight = [
        \<lparr>pd_request = \<lparr>coap_ty = Confirmable, coap_code = CoapCode_POST, message_id = 1, token = [1], options = [], coap_payload = []\<rparr>,
         pd_destination = BorderAgent, pd_label = [], pd_retransmit = None, retry_at = None, deadline = 5, pd_completion = Petition 7\<rparr>],
        queued = []\<rparr>\<rparr>) = Some (Err (Dtls dtls_error.PeerClosed), d') \<and> d_replies d' = [] \<and> in_flight (exchanges d') = []"
proof -
  let ?e = "toy_platform\<lparr>dtls_send := \<lambda>s bs w. ((s, Inl dtls_error.PeerClosed), w)\<rparr>"
  let ?m = "\<lparr>coap_ty = Confirmable, coap_code = 0x44, message_id = 9, token = [1], options = [], coap_payload = []\<rparr>"
  let ?p = "\<lparr>pd_request = \<lparr>coap_ty = Confirmable, coap_code = CoapCode_POST, message_id = 1, token = [1], options = [], coap_payload = []\<rparr>,
     pd_destination = BorderAgent, pd_label = [], pd_retransmit = None, retry_at = None, deadline = 5, pd_completion = Petition 7\<rparr>"
  let ?d = "toy_driver\<lparr>exchanges := \<lparr>in_flight = [?p], queued = []\<rparr>\<rparr>"
  have "answers ?m False ?p"
    by code_simp
  moreover have "snd (reply_to 0 BorderAgent 9 []) = None"
    by (simp add: reply_to_def forget_expired_def)
  ultimately show ?thesis
    using unacknowledged_response_lost [of ?m 0 ?d ?e "secs 20" "()" dtls_error.PeerClosed 0]
    by (auto simp: toy_platform_def toy_driver_def Driver_new_def remove_at_def)
qed

end
