(* ===== verification/Driver_Cache.thy ===== *)
theory Driver_Cache
  imports Driver_Live
begin

text \<open>
  The cached mesh-local prefix of a session. The handle fills the cache (\<open>Client\<close>); the driver only empties it,
  when a dataset changed. So a condition on the cache that holds of the empty cache is kept by every wake of
  the driver. The proof goes through all of the driver's methods with one rule per way to build a computation.
\<close>

section \<open>Conditions kept by a computation\<close>

text \<open>With \<open>L\<close>, the computation also returns.\<close>

definition keeps :: "bool \<Rightarrow> ('s \<Rightarrow> bool) \<Rightarrow> ('s, 'a) rand \<Rightarrow> bool" where
  "keeps L P m \<longleftrightarrow> (\<forall>s. P s \<longrightarrow> wp L m (\<lambda>_. P) s)"

lemma keepsD: "keeps L P m \<Longrightarrow> P s \<Longrightarrow> m s = Some (x, t) \<Longrightarrow> P t"
  by (auto simp: keeps_def wp_def)

lemma keeps_total: "keeps True P m \<Longrightarrow> P s \<Longrightarrow> \<exists>x t. m s = Some (x, t)"
  unfolding keeps_def by (blast dest: wp_total)

lemma keeps_ret: "keeps L P (r_ret x)"
  by (simp add: keeps_def wp_ret)

lemma keeps_get: "keeps L P (r_get f)"
  by (simp add: keeps_def wp_get)

lemma keeps_modify: "(\<And>s. P s \<Longrightarrow> P (f s)) \<Longrightarrow> keeps L P (r_modify f)"
  by (simp add: keeps_def wp_modify)

lemma keeps_then: "keeps L P m \<Longrightarrow> (\<And>x. keeps L P (f x)) \<Longrightarrow> keeps L P (r_then m f)"
  unfolding keeps_def wp_then by (blast intro: wp_mono)

lemma keeps_try: "keeps L P m \<Longrightarrow> (\<And>x. keeps L P (f x)) \<Longrightarrow> keeps L P (r_try m f)"
  by (auto simp: r_try_def intro!: keeps_then keeps_ret split: sum.split)

lemma keeps_state: "(\<And>d. keeps L P (m d)) \<Longrightarrow> keeps L P (\<lambda>d. m d d)"
  by (simp add: keeps_def wp_def)

lemma keeps_some: "(\<And>s. P s \<Longrightarrow> case m s of None \<Rightarrow> \<not> L | Some (x, t) \<Rightarrow> P t) \<Longrightarrow> keeps L P m"
  unfolding keeps_def wp_def by (fastforce split: option.splits prod.split)

lemma keeps_if: "keeps L P m \<Longrightarrow> keeps L P m' \<Longrightarrow> keeps L P (if b then m else m')"
  by simp

lemmas keeps_intros = keeps_ret keeps_get keeps_then keeps_try keeps_if

section \<open>The driver's methods\<close>

locale cache_condition =
  fixes V :: "bytes option \<Rightarrow> bool"
  assumes empty_cache: "V None"
begin

abbreviation cache_kept :: "('r, 's, 'h, 'w, 'd, 'a) driver_action \<Rightarrow> bool" where
  "cache_kept \<equiv> keeps False (\<lambda>d. V (d_prefix d))"

lemma kept_primitive:
  "cache_kept (publish ev)" "cache_kept (set_status st)" "cache_kept (oneshot_send i v)" "cache_kept pop_queued"
  "cache_kept (push_pending p)" "cache_kept (begin_end_session reason)" "cache_kept Link_close"
  "cache_kept (remove_pending n)" "cache_kept (update_pending n g)" "cache_kept (remove_session iid)"
  by (simp_all add: keeps_def wp_modify publish_def set_status_def oneshot_send_def pop_queued_def push_pending_def
      begin_end_session_def Link_close_def remove_pending_def update_pending_def remove_session_def)

lemma kept_update:
  "cache_kept (r_modify (\<lambda>d. d\<lparr>keep_alive_at := t d\<rparr>))" "cache_kept (r_modify (\<lambda>d. d\<lparr>exchanges := x d\<rparr>))"
  "cache_kept (r_modify (\<lambda>d. d\<lparr>d_answered := a d\<rparr>))" "cache_kept (r_modify (\<lambda>d. d\<lparr>handles_dropped := b d\<rparr>))"
  "cache_kept (r_modify (\<lambda>d. d\<lparr>joiner_sessions := js d\<rparr>))"
  "cache_kept (r_modify (\<lambda>d. d\<lparr>joiner_sessions := js d, joiner_handler := hd' d\<rparr>))"
  by (simp_all add: keeps_def wp_modify)

lemma kept_invalidate: "cache_kept invalidate_mesh_local_prefix"
  by (simp add: keeps_def wp_modify invalidate_mesh_local_prefix_def empty_cache)

lemma kept_opt: "cache_kept (oneshot_send_opt r v)"
  by (auto simp: oneshot_send_opt_def intro: keeps_ret kept_primitive split: option.split)

lemma kept_platform:
  "cache_kept (driver_now e)" "cache_kept (Link_reopen e)" "cache_kept (assign_identity e m)" "cache_kept drain_exchanges"
  "cache_kept (random_schedule e)" "cache_kept (look_up_reply now origin mid)"
  by (rule keeps_some; simp add: driver_now_def Link_reopen_def assign_identity_def Let_def drain_exchanges_def
      random_schedule_def look_up_reply_def split: prod.split option.split sum.split)+

lemma kept_Link_send: "cache_kept (Link_send e m)"
  by (rule keeps_some) (auto simp: Link_send_def split: prod.split option.split sum.split)

lemmas kept_basic = keeps_intros kept_primitive kept_update kept_invalidate kept_opt kept_platform kept_Link_send

lemma kept_wire: "cache_kept (wire_message e m dest)"
  by (auto simp: wire_message_def intro!: kept_basic split: Destination.split sum.split)

lemma kept_schedule: "cache_kept (schedule_keep_alive e)"
  unfolding schedule_keep_alive_def [abs_def] if_distrib [where f = "\<lambda>m. m _", symmetric]
  by (rule keeps_state) (intro kept_basic)

lemma kept_petition_outcome: "cache_kept (petition_outcome e outcome)"
  unfolding petition_outcome_def [abs_def] Let_def if_distrib [where f = "\<lambda>m. m _", symmetric]
  by (rule keeps_state) (auto intro!: kept_basic kept_schedule split: sum.split)

lemma kept_track: "cache_kept (track_pending e m request c)"
  by (auto simp: track_pending_def intro!: kept_basic)

lemma kept_complete_all: "(\<And>call. cache_kept (k call)) \<Longrightarrow> cache_kept (complete_all k err cs)"
  by (induction cs) (auto intro: kept_basic)

lemma kept_fail_all: "(\<And>call. cache_kept (k call)) \<Longrightarrow> cache_kept (Driver_fail_all k err)"
  by (auto simp: Driver_fail_all_def intro!: kept_basic kept_complete_all)

lemma kept_end_session: "(\<And>call. cache_kept (k call)) \<Longrightarrow> cache_kept (Driver_end_session k reason)"
  unfolding Driver_end_session_def [abs_def] if_distrib [where f = "\<lambda>m. m _", symmetric]
  by (rule keeps_state) (intro kept_basic kept_fail_all)

lemma kept_driver_call: "cache_kept (driver_call e n call)"
proof (induction n arbitrary: call)
  case 0
  then show ?case
    by (simp add: keeps_def wp_def)
next
  case (Suc n)
  note intros = kept_basic kept_wire kept_schedule kept_petition_outcome kept_track kept_end_session Suc.IH
  show ?case
  proof (cases call)
    case (CallComplete c outcome)
    show ?thesis
      unfolding CallComplete driver_call.simps DriverCall.case Driver_complete_def Driver_keep_alive_outcome_def Let_def
      by (cases c; simp) (auto intro!: intros split: sum.split option.split)
  next
    case CallSendQueued
    show ?thesis
      unfolding CallSendQueued driver_call.simps DriverCall.case send_queued_eq
      by (rule keeps_state) (auto intro!: intros split: list.split)
  next
    case (CallStart request c)
    show ?thesis
      unfolding CallStart driver_call.simps DriverCall.case Driver_start_def Driver_fail_send_def
      by (auto intro!: intros split: sum.split)
  next
    case (CallEndSession reason)
    show ?thesis
      unfolding CallEndSession driver_call.simps DriverCall.case by (rule kept_end_session) (rule Suc.IH)
  qed
qed

lemma kept_calls: "cache_kept (calls e call)"
  unfolding calls_def [abs_def] by (rule keeps_state) (rule kept_driver_call)

lemma kept_transport_failed: "cache_kept (transport_failed e err)"
  by (simp add: transport_failed_def kept_calls)

lemmas kept_rules = kept_basic kept_wire kept_calls kept_fail_all kept_transport_failed

lemma kept_timers: "cache_kept (exchange_timers e n now index)"
proof (induction n arbitrary: index)
  case 0
  then show ?case
    by (simp add: keeps_def wp_def)
next
  case (Suc n)
  have resend: "cache_kept (resend_pending e p)" for p
    by (auto simp: resend_pending_def intro!: kept_rules)
  show ?case
    unfolding exchange_timers.simps Let_def if_distrib [where f = "\<lambda>m. m _", symmetric]
    by (rule keeps_state) (auto intro!: kept_rules resend Suc.IH split: option.split)
qed

lemma kept_run_timers: "cache_kept (run_timers e)"
proof -
  have "cache_kept (\<lambda>d. exchange_timers e (2 * (length (in_flight (exchanges d)) + length (queued (exchanges d))) + 1) now 0 d)" for now
    by (rule keeps_state) (rule kept_timers)
  then show ?thesis
    by (auto simp: run_timers_def run_exchange_timers_def send_keep_alive_def intro!: kept_rules split: option.split sum.split)
qed

lemma withdraw_eq:
  "Driver_withdraw e i = (\<lambda>d. r_then (r_modify (\<lambda>d. d\<lparr>exchanges := fst (Exchanges_withdraw i (exchanges d))\<rparr>))
      (\<lambda>_. if snd (Exchanges_withdraw i (exchanges d)) then calls e CallSendQueued else r_ret ()) d)"
  by (simp add: fun_eq_iff Driver_withdraw_def r_then_def r_modify_def split: prod.split)

lemma kept_withdraw: "cache_kept (Driver_withdraw e i)"
  unfolding withdraw_eq by (rule keeps_state) (intro keeps_then kept_update keeps_if kept_calls keeps_ret)

lemma kept_command: "cache_kept (handle_command e command)"
  by (cases command)
    (auto simp: handle_command_def ensure_open_def Driver_submit_def Driver_petition_def send_keep_alive_def Driver_resign_def
      intro!: kept_rules kept_withdraw split: option.split sum.split)

lemma kept_dropped: "cache_kept (Driver_handles_dropped e)"
  by (auto simp: Driver_handles_dropped_def Driver_resign_def intro!: kept_rules split: option.split sum.split)

lemma kept_relay: "cache_kept (handle_relay_rx e port locator iid datagram)"
proof -
  have "cache_kept (open_session e iid port locator now hdl h)" for now hdl h
    by (rule keeps_some) (auto simp: open_session_def Let_def split: option.split prod.split)
  moreover have "cache_kept (relay_receive e i datagram)" for i
    by (rule keeps_some) (auto simp: relay_receive_def split: option.split prod.split sum.split)
  moreover have "cache_kept (publish_all evs)" for evs
    by (induction evs) (auto intro: kept_basic)
  moreover have "cache_kept (relay_transmit e target ts)" for target ts
    by (induction ts) (auto intro!: kept_basic split: prod.split sum.split)
  ultimately show ?thesis
    by (auto simp: handle_relay_rx_def intro!: kept_basic split: option.split prod.split)
qed

lemma kept_reply:
  "cache_kept (send_reply e reply origin)" "cache_kept (Driver_reply e m reply origin)" "cache_kept (answer_retransmission e m origin)"
  "cache_kept (ack_if_confirmable e m)"
  by (auto simp: send_reply_def Driver_reply_def answer_retransmission_def ack_if_confirmable_def intro!: kept_rules split: option.split)

lemma kept_match: "cache_kept (acknowledge ack proxied)" "cache_kept (take_answered response proxied)"
  by (rule keeps_some; simp add: acknowledge_def take_answered_def r_then_def r_ret_def update_pending_def remove_pending_def
      r_modify_def split: option.split)+

lemma kept_unsolicited:
  "cache_kept (route_unsolicited_message e m)" "cache_kept (route_unsolicited_proxied e inner udp_rx origin)"
  by (auto simp: route_unsolicited_message_def route_unsolicited_proxied_def intro!: kept_rules kept_relay kept_reply
      split: option.split sum.split MeshcopNotification.split)

lemma kept_datagram: "cache_kept (handle_datagram e plaintext)"
  by (auto simp: handle_datagram_def route_incoming_def route_direct_def route_proxied_def Let_def
      intro!: kept_rules kept_reply kept_match kept_unsolicited split: option.split sum.split)

lemma kept_receive_failed: "cache_kept (receive_failed e err)"
  by (auto simp: receive_failed_def Let_def intro!: kept_rules)

lemma kept_wake: "cache_kept (handle_wake e wake)"
  by (auto simp: handle_wake_def intro!: kept_command kept_dropped kept_datagram kept_receive_failed kept_run_timers
      split: Wake.split option.split sum.split)

end

end
