(* ===== verification/Client.thy ===== *)
theory Client
  imports Driver_Cache
begin

text \<open>
  The handle of a commissioner session (\<^verbatim>\<open>commissioner/client/\<close>): the operations an application calls. A handle
  sends a command over a queue to the driver and waits for the reply. What happens meanwhile is a script: the
  driver takes the next command, other wakes happen to it, or its task is stopped. The driver is the one of \<open>Driver\<close>,
  so an operation runs the whole session; it has no result when the script ends before the reply.
  \<open>requests.rs\<close> submits requests and keeps the mesh-local prefix, \<open>datasets.rs\<close>, \<open>commands.rs\<close>,
  \<open>diagnostics.rs\<close> and \<open>relay.rs\<close> hold the operations. The lock that serializes writers of the commissioner
  dataset is not modelled: one operation runs at a time, and other handles are part of the script.
\<close>

section \<open>IPv6 addresses from text\<close>

text \<open>\<open>Ipv6Addr::from_str\<close> of the standard library, on the bytes of the text.\<close>

definition digit_value :: "nat \<Rightarrow> u8 \<Rightarrow> nat option" where
  "digit_value radix b =
     (let c = unat b;
          v = (if 48 \<le> c \<and> c \<le> 57 then c - 48 else if 97 \<le> c \<and> c \<le> 102 then c - 87
               else if 65 \<le> c \<and> c \<le> 70 then c - 55 else radix)
      in if v < radix then Some v else None)"

definition read_number :: "nat \<Rightarrow> nat \<Rightarrow> bool \<Rightarrow> nat \<Rightarrow> bytes \<Rightarrow> (nat \<times> bytes) option" where
  "read_number radix max_digits allow_zero_prefix bound bs =
     (let ds = takeWhile (\<lambda>b. digit_value radix b \<noteq> None) bs;
          n = foldl (\<lambda>a b. a * radix + the (digit_value radix b)) 0 ds
      in if ds = [] \<or> length ds > max_digits \<or> (\<not> allow_zero_prefix \<and> ds ! 0 = 48 \<and> length ds > 1) \<or> n > bound then None
         else Some (n, drop (length ds) bs))"

definition read_separator :: "u8 \<Rightarrow> bool \<Rightarrow> (bytes \<Rightarrow> ('a \<times> bytes) option) \<Rightarrow> bytes \<Rightarrow> ('a \<times> bytes) option" where
  "read_separator sep first inner bs =
     (if first then inner bs
      else case bs of [] \<Rightarrow> None | b # rest \<Rightarrow> if b = sep then inner rest else None)"

definition read_octet :: "bool \<Rightarrow> bytes \<Rightarrow> (nat \<times> bytes) option" where
  "read_octet first = read_separator 0x2E first (read_number 10 3 False 255)"

definition read_ipv4_addr :: "bytes \<Rightarrow> (nat list \<times> bytes) option" where
  "read_ipv4_addr bs =
     Option.bind (read_octet True bs) (\<lambda>(a, bs). Option.bind (read_octet False bs) (\<lambda>(b, bs).
     Option.bind (read_octet False bs) (\<lambda>(c, bs). Option.bind (read_octet False bs) (\<lambda>(d, bs).
       Some ([a, b, c, d], bs)))))"

text \<open>Up to \<open>n\<close> groups, and whether they end with an embedded IPv4 address.\<close>

primrec read_groups :: "nat \<Rightarrow> bool \<Rightarrow> bytes \<Rightarrow> (nat list \<times> bool) \<times> bytes" where
  "read_groups 0 first bs = (([], False), bs)"
| "read_groups (Suc n) first bs =
     (case (if n > 0 then read_separator 0x3A first read_ipv4_addr bs else None) of
        Some (v4, rest) \<Rightarrow> (([v4 ! 0 * 256 + v4 ! 1, v4 ! 2 * 256 + v4 ! 3], True), rest)
      | None \<Rightarrow>
          (case read_separator 0x3A first (read_number 16 4 True 65535) bs of
             None \<Rightarrow> (([], False), bs)
           | Some (g, rest) \<Rightarrow>
               (case read_groups n False rest of ((gs, v4), rest) \<Rightarrow> ((g # gs, v4), rest))))"

definition groups_addr :: "nat list \<Rightarrow> Ipv6Addr" where
  "groups_addr gs = from_be (concat (map (\<lambda>g. to_be 2 (of_nat g :: u16)) gs))"

definition parse_ipv6 :: "bytes \<Rightarrow> Ipv6Addr option" where
  "parse_ipv6 bs =
     (case read_groups 8 True bs of
        ((front, v4), rest) \<Rightarrow>
          if length front = 8 then (if rest = [] then Some (groups_addr front) else None)
          else if v4 then None
          else if take 2 rest \<noteq> [0x3A, 0x3A] then None
          else
            (case read_groups (8 - (length front + 1)) True (drop 2 rest) of
               ((back, _), rest) \<Rightarrow>
                 if rest = [] then Some (groups_addr (front @ replicate (8 - length front - length back) 0 @ back))
                 else None))"

section \<open>The handle\<close>

datatype 'h SessionStep = Deliver | Happens "'h Wake" | TaskStops

record ('r, 's, 'h, 'w, 'd) Commissioner =
  c_driver :: "('r, 's, 'h, 'w, 'd) Driver"
  c_task_stopped :: bool
  c_next_exchange_id :: u64
  c_next_reply :: nat
  c_commands :: "'h Command list"
  c_script :: "'h SessionStep list"

type_synonym ('r, 's, 'h, 'w, 'd, 'a) client_action = "(('r, 's, 'h, 'w, 'd) Commissioner, error + 'a) rand"

definition Commissioner_spawn ::
  "CommissionerConfig \<Rightarrow> string \<Rightarrow> 'd \<Rightarrow> 'r \<Rightarrow> 'w \<Rightarrow> 'h SessionStep list \<Rightarrow> ('r, 's, 'h, 'w, 'd) Commissioner" where
  "Commissioner_spawn config border_agent link rng world script =
     \<lparr>c_driver = Driver_new link config border_agent rng world, c_task_stopped = False,
      c_next_exchange_id = 0, c_next_reply = 0, c_commands = [], c_script = script\<rparr>"

definition connect_only ::
  "('r, 's, 'p, 'w, 'd) platform \<Rightarrow> CommissionerConfig \<Rightarrow> string \<Rightarrow> 'r \<Rightarrow> 'w \<Rightarrow> 'h SessionStep list \<Rightarrow>
     (error + ('r, 's, 'h, 'w, 'd) Commissioner) \<times> 'w" where
  "connect_only e config border_agent rng world script =
     (case CommissionerConfig_validate config of
        Inl err \<Rightarrow> (Err err, world)
      | Inr _ \<Rightarrow>
          if enable_ccm config then (Err (error.Unsupported ''CCM is reserved but deferred''), world)
          else
            (case dtls_connect e world of
               (Inl err, w) \<Rightarrow> (Err err, w)
             | (Inr link, w) \<Rightarrow> (Ok (Commissioner_spawn config border_agent link rng w script), w)))"

text \<open>\<open>status\<close>: the driver's, unless its task stopped without ending the session.\<close>

definition Commissioner_status :: "('r, 's, 'h, 'w, 'd) Commissioner \<Rightarrow> SessionStatus" where
  "Commissioner_status c =
     (let status = d_status (c_driver c) in
      if c_task_stopped c \<and> \<not> status_closed status then Closed TaskStopped else status)"

definition Commissioner_session_id :: "('r, 's, 'h, 'w, 'd) Commissioner \<Rightarrow> u16 option" where
  "Commissioner_session_id c = SessionStatus_session_id (Commissioner_status c)"

definition session_id_required :: "('r, 's, 'h, 'w, 'd, u16) client_action" where
  "session_id_required =
     r_then (r_get Commissioner_session_id)
       (\<lambda>i. r_ret (ok_or i (error.InvalidState ''commissioner session is not active'')))"

text \<open>The channel to the driver is open while its task runs; the task ends when the session closes.\<close>

definition task_running :: "('r, 's, 'h, 'w, 'd) Commissioner \<Rightarrow> bool" where
  "task_running c \<longleftrightarrow> \<not> c_task_stopped c \<and> \<not> is_closed (c_driver c)"

definition drive ::
  "('r, 's, 'p, 'w, 'd) platform \<Rightarrow> 'h Wake \<Rightarrow> ('r, 's, 'h, 'w, 'd) Commissioner \<Rightarrow>
     ('r, 's, 'h, 'w, 'd) Commissioner option" where
  "drive e wake c =
     (if ready wake (c_driver c) then
        (case handle_wake e wake (c_driver c) of
           None \<Rightarrow> None
         | Some (_, d) \<Rightarrow> Some (c\<lparr>c_driver := d\<rparr>))
      else Some c)"

text \<open>The driver takes the oldest command of its queue.\<close>

definition take_command ::
  "('r, 's, 'p, 'w, 'd) platform \<Rightarrow> ('r, 's, 'h, 'w, 'd) Commissioner \<Rightarrow> ('r, 's, 'h, 'w, 'd) Commissioner option" where
  "take_command e c =
     (case c_commands c of
        [] \<Rightarrow> Some c
      | command # rest \<Rightarrow> drive e (WakeCommand (Some command)) (c\<lparr>c_commands := rest\<rparr>))"

text \<open>Waiting for the reply \<open>r\<close>. A reply channel is dropped when the task ends.\<close>

primrec await_reply ::
  "('r, 's, 'p, 'w, 'd) platform \<Rightarrow> nat \<Rightarrow> 'h SessionStep list \<Rightarrow> (('r, 's, 'h, 'w, 'd) Commissioner, error + Reply) rand" where
  "await_reply e r [] = (\<lambda>c.
     case map_of (d_replies (c_driver c)) r of
       Some v \<Rightarrow> Some (Ok v, c\<lparr>c_script := []\<rparr>)
     | None \<Rightarrow> if task_running c then None else Some (Err error.SessionClosed, c\<lparr>c_script := []\<rparr>))"
| "await_reply e r (step # script) = (\<lambda>c.
     case map_of (d_replies (c_driver c)) r of
       Some v \<Rightarrow> Some (Ok v, c\<lparr>c_script := step # script\<rparr>)
     | None \<Rightarrow>
         if \<not> task_running c then Some (Err error.SessionClosed, c\<lparr>c_script := step # script\<rparr>)
         else
           (case step of
              TaskStops \<Rightarrow> await_reply e r script (c\<lparr>c_task_stopped := True\<rparr>)
            | Happens wake \<Rightarrow> (case drive e wake c of None \<Rightarrow> None | Some c' \<Rightarrow> await_reply e r script c')
            | Deliver \<Rightarrow> (case take_command e c of None \<Rightarrow> None | Some c' \<Rightarrow> await_reply e r script c')))"

text \<open>\<open>send_command\<close>: the channel is closed once the task has ended.\<close>

definition send_command :: "'h Command \<Rightarrow> ('r, 's, 'h, 'w, 'd, unit) client_action" where
  "send_command command c =
     (if \<not> task_running c then Some (Err error.SessionClosed, c)
      else Some (Ok (), c\<lparr>c_commands := c_commands c @ [command]\<rparr>))"

text \<open>A new reply channel, and waiting on it.\<close>

definition reply_channel :: "(('r, 's, 'h, 'w, 'd) Commissioner, nat) rand" where
  "reply_channel c = Some (c_next_reply c, c\<lparr>c_next_reply := c_next_reply c + 1\<rparr>)"

definition receive_reply ::
  "('r, 's, 'p, 'w, 'd) platform \<Rightarrow> nat \<Rightarrow> ('r, 's, 'h, 'w, 'd, Reply) client_action" where
  "receive_reply e r c = await_reply e r (c_script c) c"

text \<open>\<open>call\<close>: a command with a reply channel.\<close>

definition Commissioner_call ::
  "('r, 's, 'p, 'w, 'd) platform \<Rightarrow> (nat \<Rightarrow> 'h Command) \<Rightarrow> ('r, 's, 'h, 'w, 'd, Reply) client_action" where
  "Commissioner_call e command =
     r_then reply_channel (\<lambda>r. r_try (send_command (command r)) (\<lambda>_. receive_reply e r))"

fun petition_reply :: "Reply \<Rightarrow> error + PetitionResponse" where
  "petition_reply (PetitionReply res) = res"
| "petition_reply _ = Err error.SessionClosed"

fun keep_alive_reply :: "Reply \<Rightarrow> error + ResultCode" where
  "keep_alive_reply (KeepAliveReply res) = res"
| "keep_alive_reply _ = Err error.SessionClosed"

fun resign_reply :: "Reply \<Rightarrow> error + unit" where
  "resign_reply (ResignReply res) = res"
| "resign_reply _ = Err error.SessionClosed"

fun exchange_reply :: "Reply \<Rightarrow> error + CoapMessage option" where
  "exchange_reply (ExchangeReply res) = res"
| "exchange_reply _ = Err error.SessionClosed"

definition client_petition :: "('r, 's, 'p, 'w, 'd) platform \<Rightarrow> ('r, 's, 'h, 'w, 'd, PetitionResponse) client_action" where
  "client_petition e = r_try (Commissioner_call e PetitionCommand) (\<lambda>v. r_ret (petition_reply v))"

definition client_keep_alive :: "('r, 's, 'p, 'w, 'd) platform \<Rightarrow> ('r, 's, 'h, 'w, 'd, ResultCode) client_action" where
  "client_keep_alive e = r_try (Commissioner_call e KeepAliveCommand) (\<lambda>v. r_ret (keep_alive_reply v))"

definition client_resign :: "('r, 's, 'p, 'w, 'd) platform \<Rightarrow> ('r, 's, 'h, 'w, 'd, unit) client_action" where
  "client_resign e = r_try (Commissioner_call e ResignCommand) (\<lambda>v. r_ret (resign_reply v))"

definition set_joiner_handler :: "'h JoinerHandler \<Rightarrow> 'h \<Rightarrow> ('r, 's, 'h, 'w, 'd, unit) client_action" where
  "set_joiner_handler hdl h = send_command (SetJoinerHandler (Some (hdl, h)))"

definition clear_joiner_handler :: "('r, 's, 'h, 'w, 'd, unit) client_action" where
  "clear_joiner_handler = send_command (SetJoinerHandler None)"

definition request_token :: "error + bytes" where
  "request_token = Err (error.Unsupported ''CCM token request is deferred'')"

definition set_token :: "bytes \<Rightarrow> error + unit" where
  "set_token signed_token = Err (error.Unsupported ''CCM token support is deferred'')"

definition Commissioner_connect ::
  "('r, 's, 'p, 'w, 'd) platform \<Rightarrow> CommissionerConfig \<Rightarrow> string \<Rightarrow> 'r \<Rightarrow> 'w \<Rightarrow> 'h SessionStep list \<Rightarrow>
     (error + ('r, 's, 'h, 'w, 'd) Commissioner) option" where
  "Commissioner_connect e config border_agent rng world script =
     (case connect_only e config border_agent rng world script of
        (Inl err, _) \<Rightarrow> Some (Err err)
      | (Inr c, _) \<Rightarrow>
          (case client_petition e c of
             None \<Rightarrow> None
           | Some (Inl err, _) \<Rightarrow> Some (Err err)
           | Some (Inr _, c') \<Rightarrow> Some (Ok c')))"

section \<open>Requests\<close>

definition UNASSIGNED_MESSAGE_ID :: u16 where [const_defs]: "UNASSIGNED_MESSAGE_ID = 0"
definition UNASSIGNED_TOKEN :: bytes where [const_defs]: "UNASSIGNED_TOKEN = []"

text \<open>
  \<open>submit\<close>: the request gets the next exchange identifier; once the reply channel has its outcome or is
  dropped, the request is withdrawn.
\<close>

definition next_exchange_id :: "(('r, 's, 'h, 'w, 'd) Commissioner, u64) rand" where
  "next_exchange_id c = Some (c_next_exchange_id c, c\<lparr>c_next_exchange_id := c_next_exchange_id c + 1\<rparr>)"

definition withdraw_on_drop :: "u64 \<Rightarrow> (('r, 's, 'h, 'w, 'd) Commissioner, unit) rand" where
  "withdraw_on_drop i = r_then (send_command (Withdraw i)) (\<lambda>_. r_ret ())"

definition client_submit ::
  "('r, 's, 'p, 'w, 'd) platform \<Rightarrow> Outbound \<Rightarrow> ('r, 's, 'h, 'w, 'd, CoapMessage option) client_action" where
  "client_submit e request =
     r_then next_exchange_id
       (\<lambda>i. r_then reply_channel
       (\<lambda>r. r_try (send_command (Exchange i request r))
       (\<lambda>_. r_then (receive_reply e r)
       (\<lambda>res. r_then (withdraw_on_drop i)
       (\<lambda>_. r_ret (and_then res exchange_reply))))))"

definition no_response :: error where
  "no_response = error.InvalidState ''MeshCoP exchange produced no response''"

definition client_request ::
  "('r, 's, 'p, 'w, 'd) platform \<Rightarrow> Destination \<Rightarrow> CoapMessage \<Rightarrow> ('r, 's, 'h, 'w, 'd, CoapMessage) client_action" where
  "client_request e dest request =
     r_try (client_submit e \<lparr>out_message = request, out_destination = dest, expect_response = True, out_label = ''request''\<rparr>)
       (\<lambda>response. r_ret (ok_or response no_response))"

definition mesh_management :: "Ipv6Addr \<Rightarrow> Destination" where
  "mesh_management address = Mesh address DEFAULT_MM_PORT"

definition execute ::
  "('r, 's, 'p, 'w, 'd) platform \<Rightarrow> CommissionerOperation \<Rightarrow> CoapMessage \<Rightarrow> Destination \<Rightarrow> bool \<Rightarrow>
     ('r, 's, 'h, 'w, 'd, CoapMessage option) client_action" where
  "execute e operation request dest expects =
     client_submit e \<lparr>out_message = request, out_destination = dest, expect_response = expects, out_label = operation_label operation\<rparr>"

definition execute_meshcop ::
  "('r, 's, 'p, 'w, 'd) platform \<Rightarrow> CommissionerOperation \<Rightarrow> CoapMessage \<Rightarrow> ('r, 's, 'h, 'w, 'd, CoapMessage) client_action" where
  "execute_meshcop e operation request =
     r_try (execute e operation request BorderAgent True)
       (\<lambda>response. r_ret (and_then (ok_or response no_response) require_success_response))"

definition execute_proxied ::
  "('r, 's, 'p, 'w, 'd) platform \<Rightarrow> CommissionerOperation \<Rightarrow> CoapMessage \<Rightarrow> Ipv6Addr \<Rightarrow>
     ('r, 's, 'h, 'w, 'd, CoapMessage) client_action" where
  "execute_proxied e operation request destination =
     r_try (execute e operation request (mesh_management destination) True)
       (\<lambda>response. r_ret (and_then (ok_or response no_response) require_success_response))"

definition execute_proxied_command ::
  "('r, 's, 'p, 'w, 'd) platform \<Rightarrow> CommissionerOperation \<Rightarrow> CoapMessage \<Rightarrow> Ipv6Addr \<Rightarrow>
     ('r, 's, 'h, 'w, 'd, unit) client_action" where
  "execute_proxied_command e operation request destination =
     (let wait_for_response = (coap_ty request = Confirmable) in
      r_try (execute e operation request (mesh_management destination) wait_for_response)
        (\<lambda>response. r_ret (case response of Some m \<Rightarrow> check_state_response m False | None \<Rightarrow> Ok ())))"

definition execute_no_response ::
  "('r, 's, 'p, 'w, 'd) platform \<Rightarrow> CommissionerOperation \<Rightarrow> CoapMessage \<Rightarrow> ('r, 's, 'h, 'w, 'd, unit) client_action" where
  "execute_no_response e operation request =
     r_try (execute e operation request BorderAgent False) (\<lambda>_. r_ret (Ok ()))"

definition execute_state_operation ::
  "('r, 's, 'p, 'w, 'd) platform \<Rightarrow> CommissionerOperation \<Rightarrow> CoapMessage \<Rightarrow> bool \<Rightarrow> ('r, 's, 'h, 'w, 'd, unit) client_action" where
  "execute_state_operation e operation request state_mandatory =
     r_try (execute_meshcop e operation request) (\<lambda>response. r_ret (check_state_response response state_mandatory))"

text \<open>The \<open>?\<close> operator on a value computed without effects.\<close>

definition r_result :: "error + 'a \<Rightarrow> ('a \<Rightarrow> ('r, 's, 'h, 'w, 'd, 'b) client_action) \<Rightarrow> ('r, 's, 'h, 'w, 'd, 'b) client_action" where
  "r_result res f = r_try (r_ret res) f"

section \<open>The mesh-local prefix\<close>

definition DatasetFlags_MESH_LOCAL_PREFIX :: u64 where [const_defs]: "DatasetFlags_MESH_LOCAL_PREFIX = push_bit 11 1"
definition CommissionerDatasetFlags_STEERING_DATA :: u64 where [const_defs]: "CommissionerDatasetFlags_STEERING_DATA = push_bit 13 1"

definition get_raw_active_dataset ::
  "('r, 's, 'p, 'w, 'd) platform \<Rightarrow> u64 \<Rightarrow> ('r, 's, 'h, 'w, 'd, bytes) client_action" where
  "get_raw_active_dataset e flags =
     r_result (dataset_get_request GetActiveDataset UNASSIGNED_MESSAGE_ID UNASSIGNED_TOKEN (active_dataset_tlv_types flags))
       (\<lambda>request. r_try (execute_meshcop e GetActiveDataset request)
       (\<lambda>response. r_ret (Ok (coap_payload response))))"

definition prefix_of_dataset :: "bytes \<Rightarrow> error + bytes" where
  "prefix_of_dataset raw =
     and_then (Dataset_from_bytes raw)
       (\<lambda>dataset. and_then (Dataset_mesh_local_prefix dataset)
       (\<lambda>prefix. and_then (ok_or prefix (error.InvalidState ''active dataset does not include the mesh-local prefix''))
       (\<lambda>prefix. if prefix ! 0 \<noteq> 0xfd then Err (Dataset ''mesh-local prefix must be within fd00::/8'') else Ok prefix)))"

definition store_prefix :: "u64 \<Rightarrow> bytes \<Rightarrow> ('r, 's, 'h, 'w, 'd) Commissioner \<Rightarrow> ('r, 's, 'h, 'w, 'd) Commissioner" where
  "store_prefix generation prefix c =
     (if d_generation (c_driver c) = generation then c\<lparr>c_driver := (c_driver c)\<lparr>d_prefix := Some prefix\<rparr>\<rparr> else c)"

definition require_mesh_local_prefix ::
  "('r, 's, 'p, 'w, 'd) platform \<Rightarrow> ('r, 's, 'h, 'w, 'd, bytes) client_action" where
  "require_mesh_local_prefix e =
     r_then (r_get (\<lambda>c. (d_prefix (c_driver c), d_generation (c_driver c))))
       (\<lambda>(cached, generation). case cached of
            Some prefix \<Rightarrow> r_ret (Ok prefix)
          | None \<Rightarrow>
              r_try (get_raw_active_dataset e DatasetFlags_MESH_LOCAL_PREFIX)
                (\<lambda>raw. r_result (prefix_of_dataset raw)
                (\<lambda>prefix. r_then (r_modify (store_prefix generation prefix)) (\<lambda>_. r_ret (Ok prefix)))))"

definition leader_aloc :: "('r, 's, 'p, 'w, 'd) platform \<Rightarrow> ('r, 's, 'h, 'w, 'd, Ipv6Addr) client_action" where
  "leader_aloc e = r_try (require_mesh_local_prefix e) (\<lambda>prefix. r_ret (Ok (aloc_address prefix LEADER_ALOC16)))"

definition primary_bbr_aloc :: "('r, 's, 'p, 'w, 'd) platform \<Rightarrow> ('r, 's, 'h, 'w, 'd, Ipv6Addr) client_action" where
  "primary_bbr_aloc e = r_try (require_mesh_local_prefix e) (\<lambda>prefix. r_ret (Ok (aloc_address prefix PRIMARY_BBR_ALOC16)))"

section \<open>Datasets\<close>

definition get_active_dataset ::
  "('r, 's, 'p, 'w, 'd) platform \<Rightarrow> u64 \<Rightarrow> ('r, 's, 'h, 'w, 'd, Dataset) client_action" where
  "get_active_dataset e flags = r_try (get_raw_active_dataset e flags) (\<lambda>raw. r_ret (Dataset_from_bytes raw))"

definition get_pending_dataset ::
  "('r, 's, 'p, 'w, 'd) platform \<Rightarrow> u64 \<Rightarrow> ('r, 's, 'h, 'w, 'd, Dataset) client_action" where
  "get_pending_dataset e flags =
     r_result (dataset_get_request GetPendingDataset UNASSIGNED_MESSAGE_ID UNASSIGNED_TOKEN (pending_dataset_tlv_types flags))
       (\<lambda>request. r_try (execute_meshcop e GetPendingDataset request)
       (\<lambda>response. r_ret (Dataset_from_bytes (coap_payload response))))"

definition set_active_dataset ::
  "('r, 's, 'p, 'w, 'd) platform \<Rightarrow> Dataset \<Rightarrow> ('r, 's, 'h, 'w, 'd, unit) client_action" where
  "set_active_dataset e dataset =
     r_result (require_dataset_tlvs dataset [(TLV_ACTIVE_TIMESTAMP, ''Active Timestamp'')])
       (\<lambda>_. r_try session_id_required
       (\<lambda>session_id. r_result (dataset_set_request SetActiveDataset UNASSIGNED_MESSAGE_ID UNASSIGNED_TOKEN session_id dataset)
       (\<lambda>request. execute_state_operation e SetActiveDataset request True)))"

definition set_pending_dataset ::
  "('r, 's, 'p, 'w, 'd) platform \<Rightarrow> Dataset \<Rightarrow> ('r, 's, 'h, 'w, 'd, unit) client_action" where
  "set_pending_dataset e dataset =
     r_result (require_dataset_tlvs dataset
                 [(TLV_ACTIVE_TIMESTAMP, ''Active Timestamp''), (TLV_PENDING_TIMESTAMP, ''Pending Timestamp''),
                  (TLV_DELAY_TIMER, ''Delay Timer'')])
       (\<lambda>_. r_try session_id_required
       (\<lambda>session_id. r_result (dataset_set_request SetPendingDataset UNASSIGNED_MESSAGE_ID UNASSIGNED_TOKEN session_id dataset)
       (\<lambda>request. execute_state_operation e SetPendingDataset request True)))"

definition retrieval_uri :: "Ipv6Addr \<Rightarrow> bytes" where
  "retrieval_uri pbbr = str (''coaps://['' @ show_ipv6 pbbr @ '']'') @ uri_MGMT_PENDING_GET"

definition set_secure_pending_dataset ::
  "('r, 's, 'p, 'w, 'd) platform \<Rightarrow> u32 \<Rightarrow> Dataset \<Rightarrow> ('r, 's, 'h, 'w, 'd, unit) client_action" where
  "set_secure_pending_dataset e max_retrieval_timer dataset =
     r_result (require_dataset_tlvs dataset
                 [(TLV_PENDING_TIMESTAMP, ''Pending Timestamp''), (TLV_DELAY_TIMER, ''Delay Timer'')])
       (\<lambda>_. r_try session_id_required
       (\<lambda>session_id. r_try (primary_bbr_aloc e)
       (\<lambda>pbbr. r_result (secure_pending_set_request UNASSIGNED_MESSAGE_ID UNASSIGNED_TOKEN session_id max_retrieval_timer
                           (retrieval_uri pbbr) dataset)
       (\<lambda>request. r_try (execute_proxied e SetSecurePendingDataset request pbbr)
       (\<lambda>response. r_ret (check_state_response response True))))))"

definition get_commissioner_dataset ::
  "('r, 's, 'p, 'w, 'd) platform \<Rightarrow> u64 \<Rightarrow> ('r, 's, 'h, 'w, 'd, Dataset) client_action" where
  "get_commissioner_dataset e flags =
     r_try (leader_aloc e)
       (\<lambda>leader. r_result (dataset_get_request GetCommissionerDataset UNASSIGNED_MESSAGE_ID UNASSIGNED_TOKEN
                             (commissioner_dataset_tlv_types flags))
       (\<lambda>request. r_try (execute_proxied e GetCommissionerDataset request leader)
       (\<lambda>response. r_ret (Dataset_from_bytes (coap_payload response)))))"

text \<open>The one dataset of a request that \<open>write_commissioner_dataset\<close> sends, or its refusal.\<close>

definition settable_dataset :: "Dataset \<Rightarrow> error + Dataset" where
  "settable_dataset dataset =
     (let dataset = strip_managed_commissioner_tlvs dataset in
      if entries (tlvs dataset) = [] then Err (Dataset ''commissioner dataset has no settable TLVs'') else Ok dataset)"

definition write_commissioner_dataset ::
  "('r, 's, 'p, 'w, 'd) platform \<Rightarrow> Dataset \<Rightarrow> ('r, 's, 'h, 'w, 'd, unit) client_action" where
  "write_commissioner_dataset e dataset =
     r_try session_id_required
       (\<lambda>session_id. r_result (settable_dataset dataset)
       (\<lambda>dataset. r_try (leader_aloc e)
       (\<lambda>leader. r_result (dataset_set_request SetCommissionerDataset UNASSIGNED_MESSAGE_ID UNASSIGNED_TOKEN session_id dataset)
       (\<lambda>request. r_try (execute_proxied e SetCommissionerDataset request leader)
       (\<lambda>response. r_ret (check_state_response response True))))))"

definition set_commissioner_dataset ::
  "('r, 's, 'p, 'w, 'd) platform \<Rightarrow> Dataset \<Rightarrow> ('r, 's, 'h, 'w, 'd, unit) client_action" where
  "set_commissioner_dataset e dataset = write_commissioner_dataset e dataset"

definition steering_dataset :: "bytes \<Rightarrow> Dataset" where
  "steering_dataset steering_data = Dataset_set_raw TLV_STEERING_DATA steering_data \<lparr>tlvs = \<lparr>entries = []\<rparr>\<rparr>"

definition enable_joiner ::
  "('r, 's, 'p, 'w, 'd) platform \<Rightarrow> bytes \<Rightarrow> ('r, 's, 'h, 'w, 'd, unit) client_action" where
  "enable_joiner e joiner_id =
     r_try (get_commissioner_dataset e CommissionerDatasetFlags_STEERING_DATA)
       (\<lambda>current.
          let steering_data = (case Dataset_raw current TLV_STEERING_DATA of Some v \<Rightarrow> v | None \<Rightarrow> []) in
          write_commissioner_dataset e (steering_dataset (add_joiner_to_steering_data steering_data joiner_id)))"

definition enable_all_joiners ::
  "('r, 's, 'p, 'w, 'd) platform \<Rightarrow> bool \<Rightarrow> ('r, 's, 'h, 'w, 'd, unit) client_action" where
  "enable_all_joiners e enable = set_commissioner_dataset e (steering_dataset (if enable then [0xff] else [0x00]))"

definition get_bbr_dataset ::
  "('r, 's, 'p, 'w, 'd) platform \<Rightarrow> u64 \<Rightarrow> ('r, 's, 'h, 'w, 'd, Dataset) client_action" where
  "get_bbr_dataset e flags =
     r_result (dataset_get_request GetBbrDataset UNASSIGNED_MESSAGE_ID UNASSIGNED_TOKEN (commissioner_dataset_tlv_types flags))
       (\<lambda>request. r_try (execute_meshcop e GetBbrDataset request)
       (\<lambda>response. r_ret (Dataset_from_bytes (coap_payload response))))"

definition set_bbr_dataset ::
  "('r, 's, 'p, 'w, 'd) platform \<Rightarrow> Dataset \<Rightarrow> ('r, 's, 'h, 'w, 'd, unit) client_action" where
  "set_bbr_dataset e dataset =
     r_try session_id_required
       (\<lambda>session_id. r_result (dataset_set_request SetBbrDataset UNASSIGNED_MESSAGE_ID UNASSIGNED_TOKEN session_id dataset)
       (\<lambda>request. execute_state_operation e SetBbrDataset request True))"

section \<open>Commands to devices of the mesh\<close>

definition announce_begin ::
  "('r, 's, 'p, 'w, 'd) platform \<Rightarrow> u32 \<Rightarrow> u8 \<Rightarrow> u16 \<Rightarrow> Ipv6Addr \<Rightarrow> ('r, 's, 'h, 'w, 'd, unit) client_action" where
  "announce_begin e channel_mask n period_ms destination =
     r_try session_id_required
       (\<lambda>session_id. r_result (announce_begin_request UNASSIGNED_MESSAGE_ID UNASSIGNED_TOKEN session_id channel_mask n period_ms
                                 (\<not> is_multicast destination))
       (\<lambda>request. execute_proxied_command e AnnounceBegin request destination))"

definition pan_id_query ::
  "('r, 's, 'p, 'w, 'd) platform \<Rightarrow> u32 \<Rightarrow> u16 \<Rightarrow> Ipv6Addr \<Rightarrow> ('r, 's, 'h, 'w, 'd, unit) client_action" where
  "pan_id_query e channel_mask pan_id destination =
     r_try session_id_required
       (\<lambda>session_id. r_result (pan_id_query_request UNASSIGNED_MESSAGE_ID UNASSIGNED_TOKEN session_id channel_mask pan_id
                                 (\<not> is_multicast destination))
       (\<lambda>request. execute_proxied_command e PanIdQuery request destination))"

definition energy_scan ::
  "('r, 's, 'p, 'w, 'd) platform \<Rightarrow> u32 \<Rightarrow> u8 \<Rightarrow> u16 \<Rightarrow> u16 \<Rightarrow> Ipv6Addr \<Rightarrow> ('r, 's, 'h, 'w, 'd, unit) client_action" where
  "energy_scan e channel_mask n period_ms duration_ms destination =
     r_try session_id_required
       (\<lambda>session_id. r_result (energy_scan_request UNASSIGNED_MESSAGE_ID UNASSIGNED_TOKEN session_id
                                 \<lparr>scan_channel_mask = channel_mask, scan_count = n, scan_period_ms = period_ms,
                                  scan_duration_ms = duration_ms, scan_confirmable = (\<not> is_multicast destination)\<rparr>)
       (\<lambda>request. execute_proxied_command e EnergyScan request destination))"

definition session_command ::
  "('r, 's, 'p, 'w, 'd) platform \<Rightarrow> CommissionerOperation \<Rightarrow> Ipv6Addr \<Rightarrow> ('r, 's, 'h, 'w, 'd, unit) client_action" where
  "session_command e operation destination =
     r_try session_id_required
       (\<lambda>session_id. r_result (session_command_request operation UNASSIGNED_MESSAGE_ID UNASSIGNED_TOKEN session_id
                                 (\<not> is_multicast destination))
       (\<lambda>request. execute_proxied_command e operation request destination))"

definition command_reenroll ::
  "('r, 's, 'p, 'w, 'd) platform \<Rightarrow> Ipv6Addr \<Rightarrow> ('r, 's, 'h, 'w, 'd, unit) client_action" where
  "command_reenroll e destination = session_command e Reenroll destination"

definition command_domain_reset ::
  "('r, 's, 'p, 'w, 'd) platform \<Rightarrow> Ipv6Addr \<Rightarrow> ('r, 's, 'h, 'w, 'd, unit) client_action" where
  "command_domain_reset e destination = session_command e DomainReset destination"

definition command_migrate ::
  "('r, 's, 'p, 'w, 'd) platform \<Rightarrow> Ipv6Addr \<Rightarrow> bytes \<Rightarrow> ('r, 's, 'h, 'w, 'd, unit) client_action" where
  "command_migrate e destination designated_network =
     r_try session_id_required
       (\<lambda>session_id. r_result (migrate_request UNASSIGNED_MESSAGE_ID UNASSIGNED_TOKEN session_id designated_network
                                 (\<not> is_multicast destination))
       (\<lambda>request. execute_proxied_command e Migrate request destination))"

fun parse_addresses :: "bytes list \<Rightarrow> error + Ipv6Addr list" where
  "parse_addresses [] = Ok []"
| "parse_addresses (address # rest) =
     and_then (ok_or (parse_ipv6 address) (Dataset (map (\<lambda>b. char_of (unat b)) address @ '' is not a valid IPv6 address'')))
       (\<lambda>a. and_then (parse_addresses rest) (\<lambda>as. Ok (a # as)))"

definition mlr_status :: "bytes \<Rightarrow> error + u8" where
  "mlr_status body =
     and_then (map_err error.Tlv (TlvSet_parse body))
       (\<lambda>ts. and_then (ok_or (last_value ts THREAD_TLV_STATUS) (error.InvalidState ''MLR response did not include status''))
       (\<lambda>status. case status of [s] \<Rightarrow> Ok s | _ \<Rightarrow> Err (Dataset ''MLR Status TLV must be 1 byte'')))"

definition register_multicast_listener ::
  "('r, 's, 'p, 'w, 'd) platform \<Rightarrow> bytes list \<Rightarrow> u32 \<Rightarrow> ('r, 's, 'h, 'w, 'd, u8) client_action" where
  "register_multicast_listener e addresses timeout =
     r_try session_id_required
       (\<lambda>session_id. r_result (parse_addresses addresses)
       (\<lambda>addresses. r_try (primary_bbr_aloc e)
       (\<lambda>pbbr. r_result (multicast_listener_request UNASSIGNED_MESSAGE_ID UNASSIGNED_TOKEN session_id addresses timeout)
       (\<lambda>request. r_try (execute_proxied e RegisterMulticastListener request pbbr)
       (\<lambda>response. r_ret (mlr_status (coap_payload response)))))))"

section \<open>Diagnostics and the joiner relay\<close>

definition or_leader ::
  "('r, 's, 'p, 'w, 'd) platform \<Rightarrow> Ipv6Addr option \<Rightarrow> ('r, 's, 'h, 'w, 'd, Ipv6Addr) client_action" where
  "or_leader e destination = (case destination of Some a \<Rightarrow> r_ret (Ok a) | None \<Rightarrow> leader_aloc e)"

definition diagnostic_get ::
  "('r, 's, 'p, 'w, 'd) platform \<Rightarrow> Ipv6Addr option \<Rightarrow> u64 \<Rightarrow> ('r, 's, 'h, 'w, 'd, unit) client_action" where
  "diagnostic_get e destination flags =
     r_try session_id_required
       (\<lambda>_. r_try (or_leader e destination)
       (\<lambda>destination. r_result (diagnostic_request DiagnosticGet UNASSIGNED_MESSAGE_ID UNASSIGNED_TOKEN flags True)
       (\<lambda>request. r_try (execute_proxied e DiagnosticGet request destination)
       (\<lambda>response. r_ret (check_state_response response False)))))"

definition get_diagnostics ::
  "('r, 's, 'p, 'w, 'd) platform \<Rightarrow> Ipv6Addr \<Rightarrow> u64 \<Rightarrow> ('r, 's, 'h, 'w, 'd, NetDiagData) client_action" where
  "get_diagnostics e destination flags =
     r_try session_id_required
       (\<lambda>_. if is_multicast destination then
               r_ret (Err (error.InvalidState
                 ''get_diagnostics requires a unicast destination; use diagnostic_get for a query''))
            else
              r_result (diagnostic_request DiagnosticGetUnicast UNASSIGNED_MESSAGE_ID UNASSIGNED_TOKEN flags True)
                (\<lambda>request. r_try (execute_proxied e DiagnosticGetUnicast request destination)
                (\<lambda>response. r_ret (NetDiagData_decode (coap_payload response)))))"

definition diagnostic_reset ::
  "('r, 's, 'p, 'w, 'd) platform \<Rightarrow> Ipv6Addr option \<Rightarrow> u64 \<Rightarrow> ('r, 's, 'h, 'w, 'd, unit) client_action" where
  "diagnostic_reset e destination flags =
     r_try session_id_required
       (\<lambda>_. r_try (or_leader e destination)
       (\<lambda>destination. r_result (diagnostic_request DiagnosticReset UNASSIGNED_MESSAGE_ID UNASSIGNED_TOKEN flags True)
       (\<lambda>request. r_try (execute_proxied e DiagnosticReset request destination)
       (\<lambda>response. r_ret (check_state_response response False)))))"

definition send_to_joiner ::
  "('r, 's, 'p, 'w, 'd) platform \<Rightarrow> bytes \<Rightarrow> u16 \<Rightarrow> bytes \<Rightarrow> ('r, 's, 'h, 'w, 'd, unit) client_action" where
  "send_to_joiner e joiner_id port body =
     r_result (relay_tx_request UNASSIGNED_MESSAGE_ID UNASSIGNED_TOKEN joiner_id port 0 body)
       (\<lambda>request. execute_no_response e SendToJoiner request)"

end
