(* ===== verification/Client_Live.thy ===== *)
theory Client_Live
  imports Client
begin

text \<open>
  What the operations of the handle do, over the driver they run: no operation waits once the driver's task
  has stopped, the mesh-local prefix is cached only while it is current, and what needs a session is refused
  without one. The proofs use the rules of \<open>keeps\<close>: an operation is built from submissions.
\<close>

section \<open>Handles of a well-behaved session\<close>

text \<open>
  The driver of the handle is in a state that a session reaches between two wakes, and what the cache holds
  is a mesh-local prefix.
\<close>

definition prefix_ok :: "bytes option \<Rightarrow> bool" where
  "prefix_ok p \<longleftrightarrow> (case p of None \<Rightarrow> True | Some bs \<Rightarrow> length bs = 8 \<and> bs ! 0 = 0xfd)"

definition handle_ok :: "('r, 's, 'h, 'w, 'd) Commissioner \<Rightarrow> bool" where
  "handle_ok c \<longleftrightarrow> (\<exists>G. settled G (c_driver c)) \<and> prefix_ok (d_prefix (c_driver c))"

interpretation local_prefix: cache_condition prefix_ok
  by unfold_locales (simp add: prefix_ok_def)

interpretation uncached: cache_condition "\<lambda>p. p = None"
  by unfold_locales simp

lemma prefix_of_dataset_ok: "prefix_of_dataset raw = Inr p \<Longrightarrow> prefix_ok (Some p)"
  by (auto simp: prefix_of_dataset_def prefix_ok_def Dataset_mesh_local_prefix_def read_array_def and_then_def ok_or_def map_transpose_def
      split: sum.splits option.splits if_splits)

text \<open>The task ends before the script does.\<close>

definition stops :: "('r, 's, 'h, 'w, 'd) Commissioner \<Rightarrow> bool" where
  "stops c \<longleftrightarrow> handle_ok c \<and> (TaskStops \<in> set (c_script c) \<or> \<not> task_running c)"

lemma handle_ok_spawn: "handle_ok (Commissioner_spawn config border_agent link rng world script)"
  unfolding handle_ok_def
  by (simp add: Commissioner_spawn_def) (intro conjI exI settled_steady, rule steady_new, simp add: Driver_new_def prefix_ok_def)

lemma handle_ok_simps [simp]:
  "handle_ok (c\<lparr>c_script := s\<rparr>) = handle_ok c" "handle_ok (c\<lparr>c_commands := q\<rparr>) = handle_ok c"
  "handle_ok (c\<lparr>c_task_stopped := b\<rparr>) = handle_ok c" "handle_ok (c\<lparr>c_next_exchange_id := i\<rparr>) = handle_ok c"
  "handle_ok (c\<lparr>c_next_reply := r\<rparr>) = handle_ok c"
  by (simp_all add: handle_ok_def)

lemma task_running_simps [simp]:
  "task_running (c\<lparr>c_script := s\<rparr>) = task_running c" "task_running (c\<lparr>c_commands := q\<rparr>) = task_running c"
  "task_running (c\<lparr>c_next_exchange_id := i\<rparr>) = task_running c" "task_running (c\<lparr>c_next_reply := r\<rparr>) = task_running c"
  "\<not> task_running (c\<lparr>c_task_stopped := True\<rparr>)"
  by (simp_all add: task_running_def)

lemma settled_prefix: "settled G (d\<lparr>d_prefix := p\<rparr>) = settled G d"
proof -
  have "steady H (d\<lparr>d_prefix := p\<rparr>) = steady H d" for H
    by (simp add: steady_def core_def closed_ok_def)
  then show ?thesis
    by (simp add: settled_def is_closed_def)
qed

lemma stops_store: "prefix_ok (Some p) \<Longrightarrow> stops c \<Longrightarrow> stops (store_prefix g p c)"
  by (simp add: stops_def handle_ok_def store_prefix_def settled_prefix task_running_def is_closed_def)

section \<open>Waiting\<close>

lemma drive_total:
  assumes "token_live (pf_curve e)" "rng_fills (pf_curve e)" "handle_ok c" "task_running c"
  shows "\<exists>c'. drive e wake c = Some c' \<and> handle_ok c' \<and> c_task_stopped c' = c_task_stopped c \<and> c_script c' = c_script c"
proof (cases "ready wake (c_driver c)")
  case False
  then show ?thesis
    using assms by (simp add: drive_def)
next
  case True
  obtain G where "settled G (c_driver c)" "\<not> is_closed (c_driver c)"
    using assms(3,4) by (auto simp: handle_ok_def task_running_def)
  then have "steady (G, True) (c_driver c)" "\<not> is_closed (c_driver c)"
    by (auto simp: settled_def)
  from wp_wake [of True e, OF _ _ this True] assms(1,2)
  have "wp True (handle_wake e wake) (\<lambda>_. settled (issued wake + (G - withdrawn wake (exchanges (c_driver c))))) (c_driver c)"
    by simp
  from wp_total [OF this] show ?thesis
    using True keepsD [OF local_prefix.kept_wake] assms(3) by (fastforce simp: drive_def handle_ok_def)
qed

lemma take_command_total:
  assumes "token_live (pf_curve e)" "rng_fills (pf_curve e)" "handle_ok c" "task_running c"
  shows "\<exists>c'. take_command e c = Some c' \<and> handle_ok c' \<and> c_task_stopped c' = c_task_stopped c \<and> c_script c' = c_script c"
proof (cases "c_commands c")
  case Nil
  then show ?thesis
    using assms by (simp add: take_command_def)
next
  case (Cons command rest)
  then show ?thesis
    using drive_total [OF assms(1,2), of "c\<lparr>c_commands := rest\<rparr>" "WakeCommand (Some command)"] assms(3,4)
    by (simp add: take_command_def)
qed

lemma await_reply_total:
  assumes e: "token_live (pf_curve e)" "rng_fills (pf_curve e)"
    and "handle_ok c" "TaskStops \<in> set script \<or> \<not> task_running c"
  shows "\<exists>x c'. await_reply e r script c = Some (x, c') \<and> stops c'"
  using assms(3,4)
proof (induction script arbitrary: c)
  case Nil
  then show ?case
    by (auto simp: stops_def split: option.split)
next
  case (Cons step script)
  show ?case
  proof (cases "map_of (d_replies (c_driver c)) r = None \<and> task_running c")
    case False
    then show ?thesis
      using Cons.prems by (auto simp: stops_def split: option.split)
  next
    case True
    show ?thesis
    proof (cases step)
      case TaskStops
      then show ?thesis
        using True Cons.IH [of "c\<lparr>c_task_stopped := True\<rparr>"] Cons.prems by simp
    next
      case Deliver
      obtain c' where "take_command e c = Some c'" "handle_ok c'"
        using take_command_total [OF e] True Cons.prems by blast
      then show ?thesis
        using Deliver True Cons.IH [of c'] Cons.prems by simp
    next
      case (Happens wake)
      obtain c' where "drive e wake c = Some c'" "handle_ok c'"
        using drive_total [OF e] True Cons.prems by blast
      then show ?thesis
        using Happens True Cons.IH [of c'] Cons.prems by simp
    qed
  qed
qed

section \<open>Every operation returns\<close>

lemma stops_counters:
  "keeps L stops next_exchange_id" "keeps L stops reply_channel" "keeps L stops (send_command command)"
  by (rule keeps_some; auto simp: next_exchange_id_def reply_channel_def send_command_def stops_def)+

lemma stops_session_id: "keeps L stops session_id_required"
  by (auto simp: session_id_required_def intro!: keeps_intros)

lemma stops_result: "(\<And>x. res = Inr x \<Longrightarrow> keeps L stops (f x)) \<Longrightarrow> keeps L stops (r_result res f)"
  by (cases res) (auto simp: r_result_def r_try_def r_then_def r_ret_def [abs_def] keeps_def wp_def)

lemma stops_receive:
  assumes "token_live (pf_curve e)" "rng_fills (pf_curve e)"
  shows "keeps True stops (receive_reply e r)"
proof (rule keeps_some)
  fix c :: "('a, 'b, 'f, 'd, 'e) Commissioner"
  assume "stops c"
  then show "case receive_reply e r c of None \<Rightarrow> \<not> True | Some (x, t) \<Rightarrow> stops t"
    using await_reply_total [OF assms, of c "c_script c" r] by (auto simp: stops_def receive_reply_def)
qed

text \<open>The operations, as functions of the handle.\<close>

lemma stops_operations:
  assumes e: "token_live (pf_curve e)" "rng_fills (pf_curve e)"
  shows "keeps True stops (client_petition e)"
    "keeps True stops (client_keep_alive e)"
    "keeps True stops (client_resign e)"
    "keeps True stops (client_request e dest request)"
    "keeps True stops (get_raw_active_dataset e flags)"
    "keeps True stops (get_active_dataset e flags)"
    "keeps True stops (get_pending_dataset e flags)"
    "keeps True stops (set_active_dataset e ds)"
    "keeps True stops (set_pending_dataset e ds)"
    "keeps True stops (set_secure_pending_dataset e timer ds)"
    "keeps True stops (get_commissioner_dataset e flags)"
    "keeps True stops (set_commissioner_dataset e ds)"
    "keeps True stops (enable_joiner e joiner)"
    "keeps True stops (enable_all_joiners e enable)"
    "keeps True stops (get_bbr_dataset e flags)"
    "keeps True stops (set_bbr_dataset e ds)"
    "keeps True stops (announce_begin e channels n period a)"
    "keeps True stops (pan_id_query e channels pan_id a)"
    "keeps True stops (energy_scan e channels n period duration a)"
    "keeps True stops (register_multicast_listener e addresses timeout)"
    "keeps True stops (command_reenroll e a)"
    "keeps True stops (command_domain_reset e a)"
    "keeps True stops (command_migrate e a network)"
    "keeps True stops (diagnostic_get e dest_opt flags)"
    "keeps True stops (get_diagnostics e a flags)"
    "keeps True stops (diagnostic_reset e dest_opt flags)"
    "keeps True stops (send_to_joiner e joiner port body)"
proof -
  note basic = keeps_intros stops_counters stops_session_id stops_result stops_receive [OF e]
  have submit: "keeps True stops (client_submit e request)" for request
    by (auto simp: client_submit_def withdraw_on_drop_def intro!: basic)
  have call: "keeps True stops (Commissioner_call e command)" for command
    by (auto simp: Commissioner_call_def intro!: basic)
  have direct: "keeps True stops (execute_meshcop e operation request)" for operation request
    by (auto simp: execute_meshcop_def execute_def intro!: basic submit)
  have proxied: "keeps True stops (execute_proxied e operation request a)" for operation request a
    by (auto simp: execute_proxied_def execute_def intro!: basic submit)
  have command: "keeps True stops (execute_proxied_command e operation request a)" for operation request a
    by (auto simp: execute_proxied_command_def execute_def intro!: basic submit)
  have state: "keeps True stops (execute_state_operation e operation request m)" for operation request m
    by (auto simp: execute_state_operation_def intro!: basic direct)
  have raw: "keeps True stops (get_raw_active_dataset e flags)" for flags
    by (auto simp: get_raw_active_dataset_def intro!: basic direct)
  have store: "keeps True stops (r_modify (store_prefix g p))" if "prefix_of_dataset bs = Inr p" for g p bs
    using that by (intro keeps_modify stops_store prefix_of_dataset_ok)
  have "keeps True stops (require_mesh_local_prefix e)"
    unfolding require_mesh_local_prefix_def
    by (intro keeps_then keeps_get) (auto intro!: basic raw store split: option.split)
  then have aloc: "keeps True stops (leader_aloc e)" "keeps True stops (primary_bbr_aloc e)"
    by (auto simp: leader_aloc_def primary_bbr_aloc_def intro!: basic)
  have or_leader: "keeps True stops (or_leader e d)" for d
    by (auto simp: or_leader_def intro!: basic aloc split: option.split)
  have written: "keeps True stops (write_commissioner_dataset e ds)" for ds
    by (auto simp: write_commissioner_dataset_def intro!: basic aloc proxied)
  have get: "keeps True stops (get_commissioner_dataset e flags)" for flags
    by (auto simp: get_commissioner_dataset_def intro!: basic aloc proxied)
  note rules = basic submit call direct proxied command state raw aloc or_leader written get
  show "keeps True stops (client_petition e)"
    "keeps True stops (client_keep_alive e)"
    "keeps True stops (client_resign e)"
    "keeps True stops (client_request e dest request)"
    "keeps True stops (get_raw_active_dataset e flags)"
    "keeps True stops (get_active_dataset e flags)"
    "keeps True stops (get_pending_dataset e flags)"
    "keeps True stops (set_active_dataset e ds)"
    "keeps True stops (set_pending_dataset e ds)"
    "keeps True stops (set_secure_pending_dataset e timer ds)"
    "keeps True stops (get_commissioner_dataset e flags)"
    "keeps True stops (set_commissioner_dataset e ds)"
    "keeps True stops (enable_joiner e joiner)"
    "keeps True stops (enable_all_joiners e enable)"
    "keeps True stops (get_bbr_dataset e flags)"
    "keeps True stops (set_bbr_dataset e ds)"
    "keeps True stops (announce_begin e channels n period a)"
    "keeps True stops (pan_id_query e channels pan_id a)"
    "keeps True stops (energy_scan e channels n period duration a)"
    "keeps True stops (register_multicast_listener e addresses timeout)"
    "keeps True stops (command_reenroll e a)"
    "keeps True stops (command_domain_reset e a)"
    "keeps True stops (command_migrate e a network)"
    "keeps True stops (diagnostic_get e dest_opt flags)"
    "keeps True stops (get_diagnostics e a flags)"
    "keeps True stops (diagnostic_reset e dest_opt flags)"
    "keeps True stops (send_to_joiner e joiner port body)"
    by (auto simp: client_petition_def client_keep_alive_def client_resign_def client_request_def get_active_dataset_def get_pending_dataset_def set_active_dataset_def set_pending_dataset_def set_secure_pending_dataset_def set_commissioner_dataset_def enable_joiner_def Let_def enable_all_joiners_def get_bbr_dataset_def set_bbr_dataset_def announce_begin_def pan_id_query_def energy_scan_def register_multicast_listener_def command_reenroll_def session_command_def command_domain_reset_def command_migrate_def diagnostic_get_def get_diagnostics_def diagnostic_reset_def send_to_joiner_def execute_no_response_def execute_def intro!: rules)
qed

section \<open>The cache\<close>

context cache_condition
begin

abbreviation handle_kept :: "('r, 's, 'h, 'w, 'd, 'a) client_action \<Rightarrow> bool" where
  "handle_kept \<equiv> keeps False (\<lambda>c. V (d_prefix (c_driver c)))"

lemma cached_drive: "V (d_prefix (c_driver c)) \<Longrightarrow> drive e wake c = Some c' \<Longrightarrow> V (d_prefix (c_driver c'))"
  by (auto simp: drive_def dest: keepsD [OF kept_wake] split: if_splits option.splits)

lemma cached_take_command: "V (d_prefix (c_driver c)) \<Longrightarrow> take_command e c = Some c' \<Longrightarrow> V (d_prefix (c_driver c'))"
  by (auto simp: take_command_def dest: cached_drive [rotated] split: list.splits)

lemma cached_await_reply:
  "V (d_prefix (c_driver c)) \<Longrightarrow> await_reply e r script c = Some (x, c') \<Longrightarrow> V (d_prefix (c_driver c'))"
proof (induction script arbitrary: c)
  case Nil
  then show ?case
    by (auto split: option.splits if_splits)
next
  case (Cons step script)
  show ?case
  proof (cases "map_of (d_replies (c_driver c)) r = None \<and> task_running c")
    case False
    then show ?thesis
      using Cons.prems by (auto split: option.splits)
  next
    case True
    show ?thesis
    proof (cases step)
      case TaskStops
      then show ?thesis
        using True Cons.prems Cons.IH [of "c\<lparr>c_task_stopped := True\<rparr>"] by simp
    next
      case Deliver
      then show ?thesis
        using True Cons.prems by (auto split: option.splits dest: cached_take_command intro: Cons.IH)
    next
      case (Happens wake)
      then show ?thesis
        using True Cons.prems by (auto split: option.splits dest: cached_drive intro: Cons.IH)
    qed
  qed
qed

lemma cached_raw_active_dataset: "handle_kept (get_raw_active_dataset e flags)"
proof -
  have "handle_kept (receive_reply e r)" for r
    by (rule keeps_some) (auto simp: receive_reply_def dest: cached_await_reply split: option.split)
  moreover have "keeps False (\<lambda>c. V (d_prefix (c_driver c))) next_exchange_id" "keeps False (\<lambda>c. V (d_prefix (c_driver c))) reply_channel"
    "handle_kept (send_command command)" for command
    by (rule keeps_some; simp add: next_exchange_id_def reply_channel_def send_command_def)+
  ultimately show ?thesis
    by (auto simp: get_raw_active_dataset_def r_result_def execute_meshcop_def execute_def client_submit_def withdraw_on_drop_def
        intro!: keeps_intros)
qed

end

section \<open>Properties\<close>

definition returns :: "('r, 's, 'h, 'w, 'd, 'a) client_action \<Rightarrow> ('r, 's, 'h, 'w, 'd) Commissioner \<Rightarrow> bool" where
  "returns operation c \<longleftrightarrow> (\<exists>res c'. operation c = Some (res, c') \<and> handle_ok c')"

lemma stops_returns: "keeps True stops operation \<Longrightarrow> stops c \<Longrightarrow> returns operation c"
  using keeps_total [of stops operation c] keepsD [of True stops operation c] by (auto simp: returns_def stops_def)


definition toy_handle :: "(int, z5, unit, nat, unit) Commissioner" where
  "toy_handle =
     Commissioner_spawn (CommissionerConfig_pskc (str ''c'') (Pskc (replicate 16 7))) ''border agent'' () 0 0 [Deliver, Happens Timer, TaskStops]"

lemma toy_handle_ok: "handle_ok toy_handle" "TaskStops \<in> set (c_script toy_handle)"
  by (simp_all add: toy_handle_def handle_ok_spawn) (simp add: Commissioner_spawn_def)


text \<open>A border agent's answer to the request for the mesh-local prefix, and a handle that gets it.\<close>

definition fetch_response :: CoapMessage where
  "fetch_response = \<lparr>coap_ty = Acknowledgement, coap_code = 0x44, message_id = 1, token = [0, 0, 0, 0], options = [],
     coap_payload = TLV_MESH_LOCAL_PREFIX # 8 # [0xfd, 0, 0, 0, 0, 0, 0, 1]\<rparr>"
definition fetch_bytes :: bytes where
  "fetch_bytes = projr (CoapMessage_encode fetch_response)"

lemma fetch_facts:
  "CoapMessage_decode fetch_bytes = Ok fetch_response" "prefix_of_dataset (coap_payload fetch_response) = Ok [0xfd, 0, 0, 0, 0, 0, 0, 1]"
  "parse_udp_rx fetch_response = Ok None" "require_success_response fetch_response = Ok fetch_response" "is_response fetch_response"
proof -
  obtain bs where bs: "CoapMessage_encode fetch_response = Ok bs"
    using CoapMessage_encode_Ok [of fetch_response] by (auto simp: fetch_response_def)
  from decode_encoded_message [OF this] show "CoapMessage_decode fetch_bytes = Ok fetch_response"
    by (simp add: fetch_bytes_def bs) (simp add: fetch_response_def)
  have "TlvSet_parse (coap_payload fetch_response) = Ok (tlvs_of [(TLV_MESH_LOCAL_PREFIX, [0xfd, 0, 0, 0, 0, 0, 0, 1])])"
    using parse_tlv_body [of "[(TLV_MESH_LOCAL_PREFIX, [0xfd, 0, 0, 0, 0, 0, 0, 1])]"] by (simp add: fetch_response_def tlv_bytes_def)
  then show "prefix_of_dataset (coap_payload fetch_response) = Ok [0xfd, 0, 0, 0, 0, 0, 0, 1]"
    by (simp add: prefix_of_dataset_def Dataset_from_bytes_def Dataset_mesh_local_prefix_def Dataset_raw_def last_value_def tlvs_of_def
      map_transpose_def read_array_def result_simps)
  show "parse_udp_rx fetch_response = Ok None" "require_success_response fetch_response = Ok fetch_response" "is_response fetch_response"
    by (simp_all add: require_success_response_def is_response_def fetch_response_def Let_def drop_bit_eq_div parse_udp_rx_def uri_path_def)
qed

lemma fetch_request:
  "\<exists>m bs. dataset_get_request GetActiveDataset 0 [] (active_dataset_tlv_types DatasetFlags_MESH_LOCAL_PREFIX) = Ok m \<and>
     coap_ty m = Confirmable \<and> CoapMessage_encode (m\<lparr>message_id := 1, token := [0, 0, 0, 0]\<rparr>) = Ok bs"
proof -
  let ?p = "operation_uri_path GetActiveDataset"
  have "list_all (\<lambda>x. length (opt_value x) \<le> 2) (path_options ?p)"
    by code_simp
  then have e: "\<exists>bs. CoapMessage_encode m = Ok bs" if "options m = path_options ?p" "token m = [0, 0, 0, 0]" for m
    using that by (intro CoapMessage_encode_Ok) (force simp: list_all_iff)+
  have "active_dataset_tlv_types DatasetFlags_MESH_LOCAL_PREFIX = [TLV_MESH_LOCAL_PREFIX]"
    by (simp add: active_dataset_tlv_types_def dataset_tlv_types_def flag_types_def ACTIVE_TYPES_def List.map_filter_def DatasetFlags_MESH_LOCAL_PREFIX_def)
  then have d: "dataset_get_request GetActiveDataset 0 [] (active_dataset_tlv_types DatasetFlags_MESH_LOCAL_PREFIX) =
      post_request Confirmable 0 [] ?p (tlv_bytes TLV_GET [TLV_MESH_LOCAL_PREFIX])"
    by (simp add: dataset_get_request_def build_simps)
  show ?thesis
    unfolding d post_request_Ok [OF operation_resource] using e [of "\<lparr>coap_ty = Confirmable, coap_code = CoapCode_POST, message_id = 1, token = [0, 0, 0, 0],
        options = path_options ?p, coap_payload = tlv_bytes TLV_GET [TLV_MESH_LOCAL_PREFIX]\<rparr>"] by simp
qed

lemma driver_call_numeral:
  "driver_call e (numeral n) (CallComplete cmp outcome) = Driver_complete e (driver_call e (pred_numeral n)) cmp outcome"
  "driver_call e (numeral n) CallSendQueued = Driver_send_queued (driver_call e (pred_numeral n))"
  "driver_call e (numeral n) (CallStart request cmp) = Driver_start e (driver_call e (pred_numeral n)) request cmp"
  by (simp_all add: numeral_eq_Suc)

definition toy_fetcher :: "(int, z5, unit, nat, unit) Commissioner" where
  "toy_fetcher =
     Commissioner_spawn (CommissionerConfig_pskc (str ''c'') (Pskc (replicate 16 7))) ''border agent'' () 0 0
       [Deliver, Happens (Received (Inr fetch_bytes))]"

lemma toy_token: "unused_token (pf_curve toy_platform) [] 0 = Some ([0, 0, 0, 0], 1)"
proof -
  have "replicate 4 0 = [0, 0, 0, 0 :: u8]"
    by (simp add: numeral_eq_Suc)
  then show ?thesis
    by (subst unused_token.simps) (simp add: toy_platform_def TOKEN_LENGTH_def)
qed

lemma send_queued_one:
  assumes "application_in_flight (exchanges d) = 0" "queued (exchanges d) = [(request, cmp)]"
    and "k (CallStart request cmp) (d\<lparr>exchanges := (exchanges d)\<lparr>queued := []\<rparr>\<rparr>) = Some ((), d1)" "\<not> is_closed d1"
  shows "Driver_send_queued k d = k CallSendQueued d1"
  using assms by (simp add: Driver_send_queued_def MAX_APPLICATION_IN_FLIGHT_def r_then_def pop_queued_def r_modify_def r_get_def)

lemma send_queued_none: "queued (exchanges d) = [] \<Longrightarrow> Driver_send_queued k d = Some ((), d)"
  by (simp add: Driver_send_queued_def r_ret_def)

definition toy_request :: "CoapMessage \<Rightarrow> string \<Rightarrow> Outbound" where
  "toy_request m l = \<lparr>out_message = m, out_destination = BorderAgent, expect_response = True, out_label = l\<rparr>"

lemma toy_started:
  assumes m: "coap_ty m = Confirmable" "CoapMessage_encode (m\<lparr>message_id := 1, token := [0, 0, 0, 0]\<rparr>) = Ok bs"
  shows "\<exists>d p. Driver_start toy_platform k (toy_request m l) cmp toy_driver = Some ((), d) \<and>
      d = toy_driver\<lparr>next_message_id := 1, d_rng := d_rng d, d_world := d_world d, exchanges := \<lparr>in_flight = [p], queued = []\<rparr>\<rparr> \<and>
      pd_request p = m\<lparr>message_id := 1, token := [0, 0, 0, 0]\<rparr> \<and> pd_destination p = BorderAgent \<and> pd_completion p = cmp"
  using toy_token m
  by (simp add: toy_request_def toy_driver_def Driver_new_def r_then_def r_ret_def r_modify_def
        Driver_start_def assign_identity_def wire_message_def Link_send_def toy_platform_def
        track_pending_def driver_now_def random_schedule_def push_pending_def map_err_def)

lemma toy_driver_simps:
  "exchanges toy_driver = \<lparr>in_flight = [], queued = []\<rparr>" "d_link toy_driver = Some ()" "d_status toy_driver = Connected"
  "d_replies toy_driver = []" "d_prefix toy_driver = None" "handles_dropped toy_driver = False" "d_generation toy_driver = 0"
  by (simp_all add: toy_driver_def Driver_new_def)

lemma toy_sent:
  assumes m: "coap_ty m = Confirmable" "CoapMessage_encode (m\<lparr>message_id := 1, token := [0, 0, 0, 0]\<rparr>) = Ok bs"
  shows "\<exists>d p. handle_wake toy_platform (WakeCommand (Some (Exchange 0 (toy_request m l) 0))) toy_driver = Some ((), d) \<and>
      d = toy_driver\<lparr>next_message_id := 1, d_rng := d_rng d, d_world := d_world d, exchanges := \<lparr>in_flight = [p], queued = []\<rparr>\<rparr> \<and>
      pd_request p = m\<lparr>message_id := 1, token := [0, 0, 0, 0]\<rparr> \<and> pd_destination p = BorderAgent \<and> pd_completion p = Caller 0 0"
proof -
  let ?c = "Caller 0 0" and ?r = "toy_request m l"
  obtain d p where d: "Driver_start toy_platform (driver_call toy_platform 14) ?r ?c toy_driver = Some ((), d)"
      "d = toy_driver\<lparr>next_message_id := 1, d_rng := d_rng d, d_world := d_world d, exchanges := \<lparr>in_flight = [p], queued = []\<rparr>\<rparr>"
      "pd_request p = m\<lparr>message_id := 1, token := [0, 0, 0, 0]\<rparr>" "pd_destination p = BorderAgent" "pd_completion p = ?c"
    using toy_started [OF m, of "driver_call toy_platform 14" l ?c] by (elim exE conjE) (rule that)
  have open': "\<not> is_closed d" "queued (exchanges d) = []"
    using arg_cong [OF d(2), of d_status] arg_cong [OF d(2), of "\<lambda>d. queued (exchanges d)"]
    by (simp_all add: is_closed_def toy_driver_simps)
  let ?d = "toy_driver\<lparr>exchanges := \<lparr>in_flight = [], queued = [(?r, ?c)]\<rparr>\<rparr>"
  have "?d\<lparr>exchanges := \<lparr>in_flight = [], queued = []\<rparr>\<rparr> = toy_driver"
    by (simp add: toy_driver_def Driver_new_def)
  moreover have "driver_call toy_platform 15 (CallStart ?r ?c) toy_driver = Some ((), d)"
    using d(1) by (simp add: driver_call_numeral(3))
  ultimately have "Driver_send_queued (driver_call toy_platform 15) ?d = driver_call toy_platform 15 CallSendQueued d"
    by (intro send_queued_one [of _ ?r ?c]) (simp_all add: application_in_flight_def open')
  also have "\<dots> = Some ((), d)"
    by (simp add: driver_call_numeral(2) send_queued_none open')
  finally have "calls toy_platform CallSendQueued ?d = Some ((), d)"
    by (simp add: calls_def driver_fuel_def driver_call_numeral(2))
  then have "handle_wake toy_platform (WakeCommand (Some (Exchange 0 ?r 0))) toy_driver = Some ((), d)"
    by (simp add: handle_wake_def handle_command_def r_then_def r_get_def resigning_def toy_driver_simps ensure_open_def Link_is_open_def
        r_ret_def Driver_submit_def r_modify_def)
  with d(2-5) show ?thesis
    by blast
qed

lemma toy_answered:
  assumes d: "in_flight (exchanges d) = [p]" "queued (exchanges d) = []"
    and p: "token (pd_request p) = [0, 0, 0, 0]" "pd_destination p = BorderAgent" "pd_completion p = Caller 0 0"
  shows "handle_wake toy_platform (Received (Inr fetch_bytes)) d =
    Some ((), d\<lparr>exchanges := \<lparr>in_flight = [], queued = []\<rparr>, d_replies := d_replies d @ [(0, ExchangeReply (Ok (Some fetch_response)))]\<rparr>)"
proof -
  have ty: "coap_ty fetch_response = Acknowledgement" "token fetch_response = [0, 0, 0, 0]" "coap_code fetch_response \<noteq> CoapCode_EMPTY"
    by (simp_all add: fetch_response_def const_defs)
  have x: "exchanges d = \<lparr>in_flight = [p], queued = []\<rparr>"
    using d by (cases "exchanges d") simp
  have complete: "calls toy_platform (CallComplete (Caller 0 0) out) d' = Some ((), d'\<lparr>d_replies := d_replies d' @ [(0, ExchangeReply out)]\<rparr>)"
    if "exchanges d' = \<lparr>in_flight = [], queued = []\<rparr>" for out and d' :: "(int, z5, 'h, nat, unit) Driver"
    using that by (simp add: calls_def driver_fuel_def driver_call_numeral Driver_complete_def r_then_def oneshot_send_def r_modify_def send_queued_none)
  have unacked: "acknowledge fetch_response False d = Some (False, d)"
    using ty by (simp add: acknowledge_def x position.simps is_empty_ack_for_def r_ret_def)
  have taken: "take_answered fetch_response False d = Some (Some p, d\<lparr>exchanges := \<lparr>in_flight = [], queued = []\<rparr>\<rparr>)"
    using ty p fetch_facts(5) by (simp add: take_answered_def x position.simps answers_def is_proxied_def r_ret_def r_then_def remove_pending_def
        r_modify_def remove_at_def)
  show ?thesis
    using ty p
    by (simp add: handle_wake_def handle_datagram_def fetch_facts route_incoming_def route_direct_def answer_retransmission_def
        r_try_def r_then_def r_ret_def unacked taken ack_if_confirmable_def complete)
qed

lemma toy_fetch:
  "\<exists>c. require_mesh_local_prefix toy_platform toy_fetcher = Some (Ok [0xfd, 0, 0, 0, 0, 0, 0, 1], c) \<and>
     d_generation (c_driver c) = d_generation (c_driver toy_fetcher)"
proof -
  obtain m bs where m: "dataset_get_request GetActiveDataset 0 [] (active_dataset_tlv_types DatasetFlags_MESH_LOCAL_PREFIX) = Ok m"
      "coap_ty m = Confirmable" "CoapMessage_encode (m\<lparr>message_id := 1, token := [0, 0, 0, 0]\<rparr>) = Ok bs"
    using fetch_request by blast
  let ?r = "toy_request m (operation_label GetActiveDataset)"
  obtain d p where sent: "handle_wake toy_platform (WakeCommand (Some (Exchange 0 ?r 0))) toy_driver = Some ((), d)"
      "d = toy_driver\<lparr>next_message_id := 1, d_rng := d_rng d, d_world := d_world d, exchanges := \<lparr>in_flight = [p], queued = []\<rparr>\<rparr>"
      "pd_request p = m\<lparr>message_id := 1, token := [0, 0, 0, 0]\<rparr>" "pd_destination p = BorderAgent" "pd_completion p = Caller 0 0"
    using toy_sent [OF m(2,3), of "operation_label GetActiveDataset"] by (elim exE conjE) (rule that)
  have d: "exchanges d = \<lparr>in_flight = [p], queued = []\<rparr>" "d_replies d = []" "d_status d = Connected" "d_link d = Some ()"
      "d_generation d = 0" "handles_dropped d = False"
    using arg_cong [OF sent(2), of exchanges] arg_cong [OF sent(2), of d_replies] arg_cong [OF sent(2), of d_status]
      arg_cong [OF sent(2), of d_link] arg_cong [OF sent(2), of d_generation] arg_cong [OF sent(2), of handles_dropped]
    by (simp_all add: toy_driver_simps)
  let ?d = "d\<lparr>exchanges := \<lparr>in_flight = [], queued = []\<rparr>, d_replies := [(0, ExchangeReply (Ok (Some fetch_response)))]\<rparr>"
  have answered: "handle_wake toy_platform (Received (Inr fetch_bytes)) d = Some ((), ?d)"
    using toy_answered [of d p] d sent by simp
  have fetcher: "toy_fetcher = \<lparr>c_driver = toy_driver, c_task_stopped = False, c_next_exchange_id = 0, c_next_reply = 0,
      c_commands = [], c_script = [Deliver, Happens (Received (Inr fetch_bytes))]\<rparr>"
    by (simp add: toy_fetcher_def Commissioner_spawn_def toy_driver_def)
  show ?thesis
    unfolding fetcher using m(1) sent(1) d fetch_facts answered
    by (simp add: require_mesh_local_prefix_def get_raw_active_dataset_def r_result_def execute_meshcop_def execute_def client_submit_def
        r_then_def r_get_def r_try_def r_ret_def r_modify_def next_exchange_id_def reply_channel_def send_command_def receive_reply_def
        withdraw_on_drop_def take_command_def drive_def task_running_def is_closed_def toy_driver_simps toy_request_def
        UNASSIGNED_MESSAGE_ID_def UNASSIGNED_TOKEN_def Link_is_open_def store_prefix_def ok_or_def and_then_def)
qed



text \<open>The outcome of what needs a session, without one.\<close>

definition refused :: "('r, 's, 'h, 'w, 'd) Commissioner \<Rightarrow> ((error + 'a) \<times> ('r, 's, 'h, 'w, 'd) Commissioner) option" where
  "refused c = Some (Err (error.InvalidState ''commissioner session is not active''), c)"



text \<open>The TLVs of a dataset that the protocol does not manage.\<close>

definition settable :: "Dataset \<Rightarrow> TlvEntry list" where
  "settable ds = filter (\<lambda>x. ty x \<noteq> TLV_COMMISSIONER_SESSION_ID \<and> ty x \<noteq> TLV_BORDER_AGENT_LOCATOR) (entries (tlvs ds))"

lemma commissioner_set_resource: "resource uri_MGMT_COMMISSIONER_SET"
  by (rule operation_resource [of SetCommissionerDataset, unfolded operation_uri_path.simps])

text \<open>C29: The TLVs that the protocol manages are never sent. When a commissioner dataset is accepted for writing,
  the request carries the identifier of the session first and then the dataset's TLVs in their order,
  without any Commissioner Session ID and Border Agent Locator of the dataset's own; a dataset that has
  nothing else is refused.\<close>

theorem managed_tlvs_not_sent:
  assumes "settable_dataset ds = Ok ds'" "dataset_set_request SetCommissionerDataset mid tok sid ds' = Ok m"
  shows "settable ds \<noteq> [] \<and> uri_path m = Ok (Some uri_MGMT_COMMISSIONER_SET) \<and>
    TlvSet_parse (coap_payload m) = Ok \<lparr>entries = TlvEntry_new TLV_COMMISSIONER_SESSION_ID (to_be 2 sid) # settable ds\<rparr>"
proof -
  have ds: "entries (tlvs ds') = settable ds" "settable ds \<noteq> []"
    using assms(1) by (auto simp: settable_dataset_def strip_managed_commissioner_tlvs_def Dataset_remove_all_def settable_def Let_def
        conj_commute split: if_splits)
  obtain bs where bs: "TlvSet_encode (tlvs ds') = Ok bs"
    using assms(2) by (auto simp: dataset_set_request_def build_simps Dataset_to_bytes_def result_simps split: sum.splits prod.splits)
  then have "Dataset_to_bytes ds' = Ok bs"
    by (simp add: Dataset_to_bytes_def result_simps)
  then show ?thesis
    using parse_prefixed_set [OF bs, of "[(TLV_COMMISSIONER_SESSION_ID, to_be 2 sid)]"] assms(2) ds
    by (auto simp: dataset_set_request_def build_simps post_request_Ok uri_path_path_options commissioner_set_resource)
qed

theorem managed_tlvs_not_sent_witness:
  "\<exists>m. dataset_set_request SetCommissionerDataset 0 [] 0x0102 (steering_dataset [0xff]) = Ok m \<and>
     TlvSet_parse (coap_payload m) =
       Ok \<lparr>entries = [TlvEntry_new TLV_COMMISSIONER_SESSION_ID [1, 2], TlvEntry_new TLV_STEERING_DATA [0xff]]\<rparr>"
proof -
  let ?ds = "\<lparr>tlvs = \<lparr>entries = [TlvEntry_new TLV_COMMISSIONER_SESSION_ID [9], TlvEntry_new TLV_STEERING_DATA [0xff]]\<rparr>\<rparr>"
  have ds: "settable_dataset ?ds = Ok (steering_dataset [0xff])" "settable ?ds = [TlvEntry_new TLV_STEERING_DATA [0xff]]"
    by (simp_all add: settable_dataset_def settable_def strip_managed_commissioner_tlvs_def Dataset_remove_all_def steering_dataset_def
        Dataset_set_raw_def TlvSet_push_def const_defs)
  have "Dataset_to_bytes (steering_dataset [0xff]) = Ok (tlv_bytes TLV_STEERING_DATA [0xff])"
    by (simp add: steering_dataset_def Dataset_set_raw_def Dataset_remove_all_def TlvSet_push_def Dataset_to_bytes_def TlvSet_encode_Ok)
  then obtain m where m: "dataset_set_request SetCommissionerDataset 0 [] 0x0102 (steering_dataset [0xff]) = Ok m"
    by (simp add: dataset_set_request_def build_simps post_request_Ok commissioner_set_resource)
  have "to_be 2 (0x0102 :: u16) = [1, 2]"
    by (simp add: to_be_unfold)
  with managed_tlvs_not_sent [OF ds(1) m] m ds(2) show ?thesis
    by auto
qed

end
