(* ===== verification/Spec2Isabelle.thy ===== *)
theory Spec2Isabelle
  imports Client_Live
begin

text \<open>
  Verification of \<^verbatim>\<open>meshcop-rs\<close>, a Rust library for Thread mesh commissioning (MeshCoP). Paths below are relative
  to \<^verbatim>\<open>src/crates/\<close>; each theory names its sources again.

  \<^bold>\<open>The program.\<close> An external commissioner opens a DTLS session with a Thread border agent, authenticated
  by EC J-PAKE, petitions for the commissioner role, keeps it alive, and exchanges CoAP messages whose
  bodies are TLVs: datasets are read and written, commands and diagnostic queries go to devices of the mesh
  through the agent's UDP proxy, and joining devices are commissioned in DTLS sessions of their own that the
  agent relays. The crate \<^verbatim>\<open>meshcop-dtls\<close> holds the DTLS protocol, the crate \<^verbatim>\<open>meshcop\<close> everything above it.
  One task (the driver) owns the connection; cloneable handles send it commands and wait for replies.

  \<^bold>\<open>Conventions.\<close> Integers are words of their width and wrap as Rust's wrapping operations do; lengths, instants
  and durations (nanoseconds) are naturals. A wire string is its UTF-8 bytes. \<open>Result\<close> is a sum with \<open>Ok\<close> and \<open>Err\<close>, and every
  early return and \<open>?\<close> is a branch. A struct is a record, an enum a datatype with the source's constructors, a
  method a function on the record. Methods that draw random numbers or run the driver have type \<open>'s \<Rightarrow> ('a \<times> 's) option\<close>,
  where \<open>None\<close> means that the method does not return. Code of other crates is an argument: \<open>crypto\<close> (AES-CCM, HMAC, hashes; \<open>Foreign\<close>),
  \<open>p256\<close> (scalars, points and the random generator; \<open>P256\<close>), \<open>platform\<close> (clock, random words, sending on a DTLS session and
  opening one; \<open>Driver\<close>). What is assumed of it is a named hypothesis of the theorems that need it, with an
  instance in which it holds: \<open>toy_crypto\<close>, \<open>toy_p256\<close>, \<open>toy_platform\<close>.

  \<^bold>\<open>Theories, from the bottom.\<close>

  \<^item> \<open>Prelude\<close>: results, state with errors, big-endian integers, UTF-8, slices; the interfaces \<open>codec\<close> and \<open>canonical_codec\<close> (a
    self-delimiting encoder and decoder, and their item loops), \<open>frame\<close> (what a method leaves alone), \<open>budget\<close> (bounded retries).
    \<open>Effects\<close>: the computations with \<open>None\<close>, and their weakest preconditions, partial and total.
    \<open>Errors\<close>, \<open>Dtls_Error\<close>: the error types with their texts. \<open>Constants\<close>: protocol numbers and flag tables.
  \<^item> \<open>Tlv\<close> (\<^verbatim>\<open>tlv.rs\<close>, \<^verbatim>\<open>wire.rs\<close>), \<open>Datasets\<close> (\<^verbatim>\<open>dataset.rs\<close>), \<open>Coap\<close> (\<^verbatim>\<open>meshcop/coap.rs\<close>), \<open>Messages\<close> (\<^verbatim>\<open>meshcop/builders.rs\<close>,
    \<^verbatim>\<open>parsers.rs\<close>, \<^verbatim>\<open>types.rs\<close>), \<open>Diag\<close> (\<^verbatim>\<open>meshcop/diag/\<close>): parsers are total and reject only what the source rejects, encoding
    and decoding are inverse, a TLV store returns what was last stored (\<open>tlv_store\<close>), every request carries
    the TLVs it should and every notification and diagnostic field is decoded from its own TLV (\<open>diag_field\<close>).
  \<^item> \<open>Pskc\<close> (\<^verbatim>\<open>crypto/pskc.rs\<close>): the PSKc is PBKDF2 of its parameters, steering data is an exact Bloom filter.
  \<^item> \<open>Dtls_Record\<close>, \<open>Replay\<close>, \<open>Cursor\<close>, \<open>Handshake\<close>, \<open>Hello\<close>, \<open>Key_Schedule\<close>, \<open>Session\<close> (\<^verbatim>\<open>record.rs\<close>, \<^verbatim>\<open>ccm.rs\<close>, \<^verbatim>\<open>record_protection.rs\<close>, \<^verbatim>\<open>replay.rs\<close>,
    \<^verbatim>\<open>handshake.rs\<close>, \<^verbatim>\<open>flight.rs\<close>, \<^verbatim>\<open>hello.rs\<close>, \<^verbatim>\<open>key_schedule.rs\<close>, \<^verbatim>\<open>driver.rs\<close> of the DTLS crate): records and handshake messages
    round trip, fragments reassemble to the message sent and to nothing else, the sliding window accepts each
    sequence number once (a refinement of the set of seen numbers), nonces are never reused, and an
    established session delivers only authentic data, each record at most once.
  \<^item> \<open>Ecjpake\<close>, \<open>Thread_Handshake\<close> (\<^verbatim>\<open>ecjpake/\<close>, \<^verbatim>\<open>thread_handshake.rs\<close>, \<^verbatim>\<open>thread_server_handshake.rs\<close>): both sides derive the same
    secret from the same password and different ones otherwise, the Schnorr proofs are sound, and a
    handshake between the two modelled roles ends with equal keys.
  \<^item> \<open>Joiner\<close> (\<^verbatim>\<open>commissioner/joiner.rs\<close>): the invariant of a joiner session over every sequence of relayed datagrams, as a
    step relation with rule induction, and the one datagram that ends a session without authentication.
  \<^item> \<open>Config\<close>, \<open>Duplicates\<close> (\<^verbatim>\<open>commissioner/config.rs\<close>, \<^verbatim>\<open>types.rs\<close>, \<^verbatim>\<open>client/driver/duplicates.rs\<close>): configuration, and the memory of answered messages.
  \<^item> \<open>Driver\<close> (\<^verbatim>\<open>commissioner/client/driver/\<close>): every method of the task that owns the connection; a \<open>Wake\<close> is one turn of its loop.
    \<open>Driver_Safety\<close> proves the invariant for the methods that call each other, \<open>Driver_Runs\<close> for every wake and every
    run (\<open>driver_run\<close>), \<open>Driver_Live\<close> that every wake returns and that every expired exchange is answered;
    \<open>Driver_Cache\<close> shows that the driver only ever empties the cached mesh-local prefix (\<open>cache_condition\<close>).
  \<^item> \<open>Client\<close> (\<^verbatim>\<open>commissioner/client/\<close>): the handle and all of its operations, run over the driver by a script of what happens while
    they wait. \<open>Client_Live\<close>: operations return, the prefix is cached only while current, managed TLVs are
    not sent, and what needs a session is refused without one.

  \<^bold>\<open>Fuel and loops.\<close> Loops over input recurse on the input or on its length. \<open>driver_call\<close> ties the recursion of the driver's
  methods with fuel; \<open>driver_fuel\<close> is \<open>4 * q + 12\<close> for a queue of length \<open>q\<close>. A chain of calls starts each queued request
  at most once, with three nested calls for each (start, complete, send the next), and adds at most six for the
  call it begins with and the end of the session (\<open>call_fuel\<close>); \<open>driver_call_ok\<close> proves that it never runs out. The scan of
  \<open>exchange_timers\<close> has \<open>2 * (in flight + queued) + 1\<close> steps, since a step advances the index or shortens the pool. Drawing a
  nonzero scalar (\<open>random_scalar\<close>) and an unused token (\<open>unused_token\<close>) may loop forever with a bad generator: they are
  partial functions, and the hypotheses \<open>rng_live\<close> and \<open>token_live\<close> say that the generator gives a usable value
  eventually. The theorems that say a method returns prove that it does, under these hypotheses.

  \<^bold>\<open>Not modelled.\<close> The asynchronous loops that run a DTLS handshake over a transport (\<^verbatim>\<open>client_driver.rs\<close>, \<^verbatim>\<open>server_driver.rs\<close>) and the
  race of a receive with its deadline in \<^verbatim>\<open>driver.rs\<close>: their content is the order in which futures complete; what
  they call is modelled. Sockets and tasks (\<^verbatim>\<open>tokio_session.rs\<close>, \<^verbatim>\<open>tokio_transport.rs\<close>) and the event stream (\<^verbatim>\<open>events.rs\<close>), which wraps a
  channel of tokio. Dropping an operation that still waits, and the lock between concurrent dataset writes: one
  operation of the handle runs at a time, and other handles appear as commands of the script. Wiping of secrets
  from memory, tracing and \<open>Debug\<close> output. The applications \<^verbatim>\<open>ot-commissioner-cli\<close> and \<^verbatim>\<open>meshcop-netdiag\<close>, which use the library
  and print text and JSON. Tests, their harness, examples, the firmware demo and fuzz targets.
\<close>

end
